(* ===== verification/Prelude.thy ===== *)
theory Prelude
  imports Complex_Main "HOL-Library.Word"
begin

text \<open>
  Shared vocabulary of the development.  Python exceptions are values of \<open>exn\<close>; a
  stateful operation of the program is an \<^emph>\<open>action\<close> \<open>'s \<Rightarrow> (exn + 'a) \<times> 's\<close>: it returns an
  exception or a value, and the state survives either way, as it does in Python.  Fallible
  pure code has type \<open>exn + 'a\<close>.  The locale \<open>frame\<close> collects the composition rules for
  "this operation only moves the state along a reflexive, transitive relation", from which the
  components derive their invariants and frame properties.  The rest are Python string, list
  and number helpers that several components use.
\<close>

named_theorems act_simps \<open>unfolding rules of the action combinators\<close>
named_theorems keeps_intros \<open>composition rules for frame properties of actions\<close>

section \<open>Exceptions and results\<close>

datatype exn =
    KeyError string
  | ValueError string
  | TypeError
  | IndexError
  | AttributeError
  | RuntimeError
  | OSError
  | FileNotFoundError
  | FileExistsError
  | JSONDecodeError
  | ValidationError
  | UniqueViolation
  | RequestsConnectionError
  | RequestsHTTPError nat
  | HTTPXStatusError nat
  | HTTPException nat
  | NotInitialized
  | InitializationError
  | DecodingError
  | BitstringError
  | SubprocessError string
  | ComposeFileNotFound
  | ComposeProjectNotAllowed
  | MetadataNotFound string
  | AppAlreadyInstalled string
  | AppDoesNotExist string
  | AppNotInstalled string
  | AppInIllegalStatus string
  | InvalidAppZip string
  | BadZipFile
  | InvalidPairingCode
  | PairingCodeExpired
  | InvalidJwt
  | InvalidSignature
  | SharedSecretInvalid
  | BackupFailed string
  | BackupInProgress
  | BackupStartFailed
  | MigrationStuck
  | LockHeld string
  | OtherError string

type_synonym 'a result = "exn + 'a"

definition bind_res :: "'a result \<Rightarrow> ('a \<Rightarrow> 'b result) \<Rightarrow> 'b result" where
  "bind_res r k = (case r of Inl e \<Rightarrow> Inl e | Inr x \<Rightarrow> k x)"

lemma bind_res_simps [simp]:
  "bind_res (Inl e) k = Inl e"
  "bind_res (Inr x) k = k x"
  by (simp_all add: bind_res_def)

lemma bind_res_eq_Inr [simp]:
  "bind_res r k = Inr y \<longleftrightarrow> (\<exists>x. r = Inr x \<and> k x = Inr y)"
  by (cases r) auto

section \<open>Actions\<close>

type_synonym ('s, 'a) act = "'s \<Rightarrow> (exn + 'a) \<times> 's"

definition ret :: "'a \<Rightarrow> ('s, 'a) act" where
  "ret x s = (Inr x, s)"

definition raise :: "exn \<Rightarrow> ('s, 'a) act" where
  "raise e s = (Inl e, s)"

definition bnd :: "('s, 'a) act \<Rightarrow> ('a \<Rightarrow> ('s, 'b) act) \<Rightarrow> ('s, 'b) act" where
  "bnd m k s = (case m s of (Inl e, t) \<Rightarrow> (Inl e, t) | (Inr x, t) \<Rightarrow> k x t)"

definition seq :: "('s, 'a) act \<Rightarrow> ('s, 'b) act \<Rightarrow> ('s, 'b) act" where
  "seq m n = bnd m (\<lambda>_. n)"

definition gets :: "('s \<Rightarrow> 'a) \<Rightarrow> ('s, 'a) act" where
  "gets f s = (Inr (f s), s)"

definition modify :: "('s \<Rightarrow> 's) \<Rightarrow> ('s, unit) act" where
  "modify f s = (Inr (), f s)"

definition lift_res :: "'a result \<Rightarrow> ('s, 'a) act" where
  "lift_res r s = (r, s)"

text \<open>\<open>try m except: h\<close>, and \<open>try m except: h else: k\<close>, whose \<open>else\<close> branch is not guarded.\<close>

definition try_except :: "('s, 'a) act \<Rightarrow> (exn \<Rightarrow> ('s, 'a) act) \<Rightarrow> ('s, 'a) act" where
  "try_except m h s = (case m s of (Inl e, t) \<Rightarrow> h e t | (Inr x, t) \<Rightarrow> (Inr x, t))"

definition try_else ::
    "('s, 'a) act \<Rightarrow> (exn \<Rightarrow> ('s, 'b) act) \<Rightarrow> ('a \<Rightarrow> ('s, 'b) act) \<Rightarrow> ('s, 'b) act" where
  "try_else m h k s = (case m s of (Inl e, t) \<Rightarrow> h e t | (Inr x, t) \<Rightarrow> k x t)"

fun for_each :: "('a \<Rightarrow> ('s, unit) act) \<Rightarrow> 'a list \<Rightarrow> ('s, unit) act" where
  "for_each f [] = ret ()"
| "for_each f (x # xs) = seq (f x) (for_each f xs)"

text \<open>
  \<open>asyncio.gather(*tasks)\<close> with every task run to its end in turn; the first exception is
  the result, but it does not stop the remaining tasks.
\<close>

fun gather :: "('s, unit) act list \<Rightarrow> ('s, unit) act" where
  "gather [] s = (Inr (), s)"
| "gather (m # ms) s =
     (case m s of (r, t) \<Rightarrow> (case gather ms t of (r', u) \<Rightarrow> (case r of Inl e \<Rightarrow> Inl e | Inr _ \<Rightarrow> r', u)))"

text \<open>\<open>gather(..., return_exceptions=True)\<close>: no exception reaches the caller.\<close>

fun gather_quiet :: "('s, unit) act list \<Rightarrow> ('s, unit) act" where
  "gather_quiet [] s = (Inr (), s)"
| "gather_quiet (m # ms) s = gather_quiet ms (snd (m s))"

lemma act_apply [act_simps]:
  "ret x s = (Inr x, s)"
  "raise e s = (Inl e, s)"
  "bnd m k s = (case m s of (Inl e, t) \<Rightarrow> (Inl e, t) | (Inr y, t) \<Rightarrow> k y t)"
  "seq m n s = (case m s of (Inl e, t) \<Rightarrow> (Inl e, t) | (Inr y, t) \<Rightarrow> n t)"
  "gets f s = (Inr (f s), s)"
  "modify g s = (Inr (), g s)"
  "lift_res r s = (r, s)"
  "try_except m h s = (case m s of (Inl e, t) \<Rightarrow> h e t | (Inr y, t) \<Rightarrow> (Inr y, t))"
  "try_else m h' k s = (case m s of (Inl e, t) \<Rightarrow> h' e t | (Inr y, t) \<Rightarrow> k y t)"
  by (simp_all add: ret_def raise_def bnd_def seq_def gets_def modify_def lift_res_def
      try_except_def try_else_def)

lemmas act_atoms = act_apply(1,2,5,6,7)

lemma bnd_Inr_iff:
  "bnd m k s = (Inr y, u) \<longleftrightarrow> (\<exists>x t. m s = (Inr x, t) \<and> k x t = (Inr y, u))"
  by (auto simp: act_simps split: prod.splits sum.splits)

lemma seq_Inr_iff:
  "seq m n s = (Inr y, u) \<longleftrightarrow> (\<exists>x t. m s = (Inr x, t) \<and> n t = (Inr y, u))"
  by (auto simp: act_simps split: prod.splits sum.splits)

section \<open>Frames\<close>

text \<open>\<open>moves R m\<close>: whatever \<open>m\<close> returns, it moves the state along \<open>R\<close>.\<close>

definition moves :: "('s \<Rightarrow> 's \<Rightarrow> bool) \<Rightarrow> ('s, 'a) act \<Rightarrow> bool" where
  "moves R m \<longleftrightarrow> (\<forall>s. R s (snd (m s)))"

lemma movesI: "(\<And>s. R s (snd (m s))) \<Longrightarrow> moves R m"
  by (simp add: moves_def)

lemma movesD: "moves R m \<Longrightarrow> m s = (r, t) \<Longrightarrow> R s t"
  by (metis snd_conv moves_def)

locale frame =
  fixes R :: "'s \<Rightarrow> 's \<Rightarrow> bool"
  assumes frame_refl: "R s s"
    and frame_trans: "R s t \<Longrightarrow> R t u \<Longrightarrow> R s u"
begin

lemma moves_ret: "moves R (ret x)"
  by (simp add: moves_def act_simps frame_refl)

lemma moves_raise: "moves R (raise e)"
  by (simp add: moves_def act_simps frame_refl)

lemma moves_gets: "moves R (gets f)"
  by (simp add: moves_def act_simps frame_refl)

lemma moves_lift_res: "moves R (lift_res r)"
  by (simp add: moves_def act_simps frame_refl)

lemma moves_modify: "(\<And>s. R s (f s)) \<Longrightarrow> moves R (modify f)"
  by (simp add: moves_def act_simps)

lemma moves_bnd:
  assumes "moves R m" and "\<And>x. moves R (k x)"
  shows "moves R (bnd m k)"
proof (rule movesI)
  fix s
  show "R s (snd (bnd m k s))"
    using assms frame_trans
    by (auto simp: moves_def act_simps split: prod.splits sum.splits) (metis snd_conv)+
qed

text \<open>The continuation of a fallible computation only matters on its result.\<close>

lemma moves_bnd_lift:
  assumes "\<And>x. r = Inr x \<Longrightarrow> moves R (k x)"
  shows "moves R (bnd (lift_res r) k)"
proof (rule movesI)
  fix s
  show "R s (snd (bnd (lift_res r) k s))"
    using assms frame_refl by (cases r) (auto simp: moves_def act_simps)
qed

lemma moves_seq: "moves R m \<Longrightarrow> moves R n \<Longrightarrow> moves R (seq m n)"
  by (simp add: seq_def moves_bnd)

lemma moves_try_else:
  assumes "moves R m" and "\<And>e. moves R (h e)" and "\<And>x. moves R (k x)"
  shows "moves R (try_else m h k)"
proof (rule movesI)
  fix s
  show "R s (snd (try_else m h k s))"
    using assms frame_trans
    by (auto simp: moves_def act_simps split: prod.splits sum.splits) (metis snd_conv)+
qed

lemma moves_try_except:
  assumes "moves R m" and "\<And>e. moves R (h e)"
  shows "moves R (try_except m h)"
proof -
  have "try_except m h = try_else m h ret"
    by (rule ext) (simp add: act_simps ret_def split: prod.split sum.split)
  with assms show ?thesis
    by (simp add: moves_try_else moves_ret)
qed

lemma moves_for_each: "(\<And>x. x \<in> set xs \<Longrightarrow> moves R (f x)) \<Longrightarrow> moves R (for_each f xs)"
  by (induction xs) (simp_all add: moves_ret moves_seq)

lemma moves_gather: "(\<And>m. m \<in> set ms \<Longrightarrow> moves R m) \<Longrightarrow> moves R (gather ms)"
proof (induction ms)
  case Nil
  show ?case by (simp add: moves_def frame_refl)
next
  case (Cons m ms)
  then have "moves R m" and "moves R (gather ms)" by simp_all
  then show ?case
    using frame_trans
    by (auto simp: moves_def split: prod.splits) (metis snd_conv)
qed

lemma moves_gather_quiet: "(\<And>m. m \<in> set ms \<Longrightarrow> moves R m) \<Longrightarrow> moves R (gather_quiet ms)"
proof (induction ms)
  case Nil
  show ?case by (simp add: moves_def frame_refl)
next
  case (Cons m ms)
  then have "moves R m" and "moves R (gather_quiet ms)" by simp_all
  then show ?case
    unfolding moves_def gather_quiet.simps by (blast intro: frame_trans)
qed

lemma moves_if: "moves R m \<Longrightarrow> moves R n \<Longrightarrow> moves R (if b then m else n)"
  by simp

lemma moves_case_option:
  "moves R m \<Longrightarrow> (\<And>x. moves R (k x)) \<Longrightarrow> moves R (case v of None \<Rightarrow> m | Some x \<Rightarrow> k x)"
  by (simp split: option.split)

lemma moves_case_sum:
  "(\<And>x. moves R (h x)) \<Longrightarrow> (\<And>x. moves R (k x)) \<Longrightarrow> moves R (case v of Inl x \<Rightarrow> h x | Inr x \<Rightarrow> k x)"
  by (simp split: sum.split)

lemma moves_case_prod: "(\<And>x y. moves R (k x y)) \<Longrightarrow> moves R (case v of (x, y) \<Rightarrow> k x y)"
  by (simp split: prod.split)

lemma moves_case_list:
  "moves R m \<Longrightarrow> (\<And>x xs. moves R (k x xs)) \<Longrightarrow> moves R (case v of [] \<Rightarrow> m | x # xs \<Rightarrow> k x xs)"
  by (simp split: list.split)

lemma moves_Let: "(\<And>x. moves R (k x)) \<Longrightarrow> moves R (let x = v in k x)"
  by simp

lemmas moves_rules =
  moves_ret moves_raise moves_gets moves_lift_res moves_bnd moves_seq moves_try_else
  moves_try_except moves_for_each moves_gather moves_gather_quiet moves_if
  moves_case_option moves_case_sum moves_case_prod moves_case_list moves_Let

end

section \<open>Python strings, lists and numbers\<close>

definition starts_with :: "'a list \<Rightarrow> 'a list \<Rightarrow> bool" where
  "starts_with p s \<longleftrightarrow> take (length p) s = p"

lemma starts_with_iff: "starts_with p s \<longleftrightarrow> (\<exists>u. s = p @ u)"
  by (auto simp: starts_with_def) (metis append_take_drop_id)

lemma starts_with_append [simp]: "starts_with p (p @ u)"
  by (simp add: starts_with_def)

lemma starts_with_trans: "starts_with p q \<Longrightarrow> starts_with q r \<Longrightarrow> starts_with p r"
  by (auto simp: starts_with_iff)

lemma starts_with_refl [simp]: "starts_with p p"
  by (simp add: starts_with_def)

lemma starts_with_Nil [simp]: "starts_with [] s"
  by (simp add: starts_with_def)

definition ends_with :: "'a list \<Rightarrow> 'a list \<Rightarrow> bool" where
  "ends_with p s \<longleftrightarrow> starts_with (rev p) (rev s)"

text \<open>\<open>p in s\<close> on strings.\<close>

fun contains_sub :: "'a list \<Rightarrow> 'a list \<Rightarrow> bool" where
  "contains_sub p [] \<longleftrightarrow> p = []"
| "contains_sub p (x # xs) \<longleftrightarrow> starts_with p (x # xs) \<or> contains_sub p xs"

text \<open>\<open>s.split(c)\<close> for a one-character separator: never empty.\<close>

fun split_on :: "'a \<Rightarrow> 'a list \<Rightarrow> 'a list list" where
  "split_on c [] = [[]]"
| "split_on c (x # xs) =
     (if x = c then [] # split_on c xs
      else case split_on c xs of [] \<Rightarrow> [[x]] | w # ws \<Rightarrow> (x # w) # ws)"

lemma split_on_nonempty [simp]: "split_on c s \<noteq> []"
  by (induction s) (auto split: list.splits)

lemma hd_split_on: "hd (split_on c s) = takeWhile (\<lambda>x. x \<noteq> c) s"
  by (induction s) (auto split: list.splits)

lemma split_on_prefix: "c \<notin> set w \<Longrightarrow> split_on c (w @ c # r) = w # split_on c r"
  by (induction w) (auto split: list.split)

lemma split_on_single: "c \<notin> set w \<Longrightarrow> split_on c w = [w]"
  by (induction w) auto

lemma split_on_members: "w \<in> set (split_on c s) \<Longrightarrow> c \<notin> set w"
  by (induction s arbitrary: w) (auto split: list.splits if_splits)

lemma split_on_chars: "w \<in> set (split_on c s) \<Longrightarrow> set w \<subseteq> set s"
  by (induction s arbitrary: w) (fastforce split: list.splits if_splits)+

definition lower_char :: "char \<Rightarrow> char" where
  "lower_char c = (let n = (of_char c :: nat) in if 65 \<le> n \<and> n \<le> 90 then char_of (n + 32) else c)"

definition upper_char :: "char \<Rightarrow> char" where
  "upper_char c = (let n = (of_char c :: nat) in if 97 \<le> n \<and> n \<le> 122 then char_of (n - 32) else c)"

definition lower :: "string \<Rightarrow> string" where
  "lower = map lower_char"

definition upper :: "string \<Rightarrow> string" where
  "upper = map upper_char"

definition is_space :: "char \<Rightarrow> bool" where
  "is_space c \<longleftrightarrow> (of_char c :: nat) \<in> {9, 10, 11, 12, 13, 28, 29, 30, 31, 32}"

definition strip :: "string \<Rightarrow> string" where
  "strip s = rev (dropWhile is_space (rev (dropWhile is_space s)))"

definition is_digit :: "char \<Rightarrow> bool" where
  "is_digit c \<longleftrightarrow> 48 \<le> (of_char c :: nat) \<and> (of_char c :: nat) \<le> 57"

definition is_alpha :: "char \<Rightarrow> bool" where
  "is_alpha c \<longleftrightarrow> (let n = (of_char c :: nat) in (65 \<le> n \<and> n \<le> 90) \<or> (97 \<le> n \<and> n \<le> 122))"

definition digit_char :: "nat \<Rightarrow> char" where
  "digit_char d = char_of (48 + d)"

fun nat_str :: "nat \<Rightarrow> string" where
  "nat_str n = (if n < 10 then [digit_char n] else nat_str (n div 10) @ [digit_char (n mod 10)])"

declare nat_str.simps [simp del]

definition int_str :: "int \<Rightarrow> string" where
  "int_str i = (if i < 0 then CHR ''-'' # nat_str (nat (- i)) else nat_str (nat i))"

definition join_with :: "string \<Rightarrow> string list \<Rightarrow> string" where
  "join_with sep ws = (case ws of [] \<Rightarrow> [] | w # vs \<Rightarrow> w @ concat (map (\<lambda>v. sep @ v) vs))"

text \<open>Facts about \<open>find\<close> and \<open>filter\<close> that the tables and the lookups share.\<close>

lemma find_map_other:
  assumes "\<And>r. p (f r) = p r"
  shows "find p (map f xs) = map_option f (find p xs)"
  using assms by (induction xs) auto

lemma find_append: "find p (xs @ ys) = (case find p xs of None \<Rightarrow> find p ys | Some x \<Rightarrow> Some x)"
  by (induction xs) auto

lemma find_SomeD: "find p xs = Some x \<Longrightarrow> x \<in> set xs \<and> p x"
  by (induction xs) (auto split: if_splits)

lemma find_None_all: "find p xs = None \<longleftrightarrow> (\<forall>x \<in> set xs. \<not> p x)"
  by (induction xs) auto

lemma find_filter_other: "(\<And>x. p x \<Longrightarrow> q x) \<Longrightarrow> find p (filter q xs) = find p xs"
  by (induction xs) auto

lemma find_unique_key:
  assumes "distinct (map key xs)" and "x \<in> set xs" and "key x = k"
  shows "find (\<lambda>r. key r = k) xs = Some x"
  using assms by (induction xs) (auto simp: image_iff)

end
