(* ===== verification/Human_Encoding.thy ===== *)
theory Human_Encoding
  imports Prelude
begin

text \<open>
  \<open>service/human_encoding.py\<close>: the base-2^k text encoding behind shard ids and terminal ids.
  The module's three globals are the record \<open>encoding\<close>; \<open>init\<close> and \<open>reset\<close> act on it.  A string
  of bits is a \<open>bool list\<close> (\<open>True\<close> is the character 1), a byte an \<open>8 word\<close>.  What the
  \<open>bitstring\<close> package makes of the literal \<open>0b\<close> with no digit is not in the repository: it is the
  parameter \<open>lit0b\<close> of \<open>decode\<close>.
\<close>

type_synonym bits = "bool list"
type_synonym bytes = "8 word list"

section \<open>Bits and numbers\<close>

text \<open>\<open>BitArray(uint=n, length=k).bin\<close> for \<open>n < 2 ^ k\<close>: most significant bit first.\<close>

fun uint_bits :: "nat \<Rightarrow> nat \<Rightarrow> bits" where
  "uint_bits 0 n = []"
| "uint_bits (Suc k) n = uint_bits k (n div 2) @ [odd n]"

fun bits_uint :: "nat \<Rightarrow> bits \<Rightarrow> nat" where
  "bits_uint a [] = a"
| "bits_uint a (b # bs) = bits_uint (2 * a + of_bool b) bs"

definition byte_bits :: "8 word \<Rightarrow> bits" where
  "byte_bits w = uint_bits 8 (unat w)"

definition bits_byte :: "bits \<Rightarrow> 8 word" where
  "bits_byte bs = of_nat (bits_uint 0 bs)"

definition bytes_bits :: "bytes \<Rightarrow> bits" where
  "bytes_bits b = concat (map byte_bits b)"

section \<open>The module\<close>

record encoding =
  bits_to_char :: "(bits \<times> char) list"
  char_to_bits :: "(char \<times> bits) list"
  bits_per_char :: nat

definition reset :: "(encoding, unit) act" where
  "reset = modify (\<lambda>e. e\<lparr>bits_to_char := [], char_to_bits := [], bits_per_char := 0\<rparr>)"

text \<open>\<open>floor(log2(n))\<close> for \<open>n > 0\<close>.\<close>

fun floor_log2 :: "nat \<Rightarrow> nat" where
  "floor_log2 n = (if n < 2 then 0 else Suc (floor_log2 (n div 2)))"

declare floor_log2.simps [simp del]

fun number_chars :: "nat \<Rightarrow> nat \<Rightarrow> string \<Rightarrow> (bits \<times> char) list" where
  "number_chars k n [] = []"
| "number_chars k n (c # cs) = (uint_bits k n, c) # number_chars k (Suc n) cs"

definition init :: "string \<Rightarrow> (encoding, unit) act" where
  "init characters =
     (if length characters \<noteq> length (remdups characters) then raise InitializationError
      else seq reset
        (if characters = [] then raise (ValueError ''math domain error'')
         else
           (let k = floor_log2 (length characters);
                usable_chars = take (2 ^ k) characters;
                table = number_chars k 0 usable_chars
            in seq (modify (\<lambda>e. e\<lparr>bits_per_char := k\<rparr>))
                 (if k = 0 then raise BitstringError
                  else modify (\<lambda>e. e\<lparr>bits_to_char := table,
                                     char_to_bits := map prod.swap table\<rparr>)))))"

text \<open>\<open>_grouper\<close>: chunks of \<open>n\<close>, the last one filled up.\<close>

function grouper :: "nat \<Rightarrow> 'a \<Rightarrow> 'a list \<Rightarrow> 'a list list" where
  "grouper n fill xs =
     (if n = 0 \<or> xs = [] then []
      else take n (xs @ replicate n fill) # grouper n fill (drop n xs))"
  by pat_completeness auto
termination
  by (relation "measure (\<lambda>(n, fill, xs). length xs)") auto

declare grouper.simps [simp del]

fun lookup_all :: "(bits \<times> char) list \<Rightarrow> bits list \<Rightarrow> string result" where
  "lookup_all m [] = Inr []"
| "lookup_all m (g # gs) =
     (case map_of m g of None \<Rightarrow> Inl (KeyError '''')
      | Some c \<Rightarrow> bind_res (lookup_all m gs) (\<lambda>cs. Inr (c # cs)))"

definition encode :: "encoding \<Rightarrow> bytes \<Rightarrow> string result" where
  "encode e b =
     (if bits_per_char e = 0 then Inl NotInitialized
      else lookup_all (bits_to_char e) (grouper (bits_per_char e) False (bytes_bits b)))"

fun chars_bits :: "(char \<times> bits) list \<Rightarrow> string \<Rightarrow> bits result" where
  "chars_bits m [] = Inr []"
| "chars_bits m (c # cs) =
     (case map_of m c of None \<Rightarrow> Inl (KeyError [c])
      | Some bs \<Rightarrow> bind_res (chars_bits m cs) (\<lambda>r. Inr (bs @ r)))"

function bits_bytes :: "bits \<Rightarrow> bytes" where
  "bits_bytes bs = (if bs = [] then [] else bits_byte (take 8 bs) # bits_bytes (drop 8 bs))"
  by pat_completeness auto
termination
  by (relation "measure length") auto

declare bits_bytes.simps [simp del]

text \<open>\<open>BitArray("0b" + bits).bytes\<close> for a multiple of eight bits.\<close>

definition literal_bytes :: "bytes result \<Rightarrow> bits \<Rightarrow> bytes result" where
  "literal_bytes lit0b bs = (if bs = [] then lit0b else Inr (bits_bytes bs))"

definition decode :: "bytes result \<Rightarrow> encoding \<Rightarrow> string \<Rightarrow> bytes result" where
  "decode lit0b e s =
     (if bits_per_char e = 0 then Inl NotInitialized
      else bind_res (chars_bits (char_to_bits e) s) (\<lambda>bs.
        let overhang = length bs mod 8 in
        if overhang > 0 then
          (if list_ex (\<lambda>c. c) (drop (length bs - overhang) bs) then Inl DecodingError
           else literal_bytes lit0b (take (length bs - overhang) bs))
        else literal_bytes lit0b bs))"

text \<open>\<open>random_string\<close>: \<open>picks\<close> are the indices \<open>random.choices\<close> drew.\<close>

definition random_string :: "encoding \<Rightarrow> nat list \<Rightarrow> string result" where
  "random_string e picks =
     (if char_to_bits e = [] \<and> picks \<noteq> [] then Inl (OtherError ''IndexError'')
      else Inr (map (\<lambda>i. map fst (char_to_bits e) ! (i mod length (char_to_bits e))) picks))"

text \<open>The alphabet the module installs when it is imported.\<close>

definition empty_encoding :: encoding where
  "empty_encoding = \<lparr>bits_to_char = [], char_to_bits = [], bits_per_char = 0\<rparr>"

definition default_characters :: string where
  "default_characters = ''abcdefghjklnpqrstvwxyz0123456789''"

definition default_encoding :: encoding where
  "default_encoding = snd (init default_characters empty_encoding)"

section \<open>Bits\<close>

lemma length_uint_bits [simp]: "length (uint_bits k n) = k"
  by (induction k arbitrary: n) auto

lemma bits_uint_append: "bits_uint a (xs @ ys) = bits_uint (bits_uint a xs) ys"
  by (induction xs arbitrary: a) auto

lemma bits_uint_snoc [simp]: "bits_uint a (xs @ [b]) = 2 * bits_uint a xs + of_bool b"
  by (simp add: bits_uint_append)

lemma bits_uint_uint_bits: "bits_uint 0 (uint_bits k n) = n mod 2 ^ k"
proof (induction k arbitrary: n)
  case 0
  show ?case by simp
next
  case (Suc k)
  have "n mod (2 * 2 ^ k) = 2 * (n div 2 mod 2 ^ k) + n mod 2"
    by (simp add: mod_mult2_eq)
  then show ?case
    by (simp add: Suc.IH mod2_eq_if)
qed

lemma uint_bits_bits_uint: "uint_bits (length bs) (bits_uint 0 bs) = bs"
  by (induction bs rule: rev_induct) auto

lemma bits_uint_bound: "bits_uint 0 bs < 2 ^ length bs"
  by (metis bits_uint_uint_bits mod_less_divisor uint_bits_bits_uint zero_less_numeral zero_less_power)

lemma uint_bits_inj:
  assumes "uint_bits k m = uint_bits k n" and "m < 2 ^ k" and "n < 2 ^ k"
  shows "m = n"
  by (metis assms bits_uint_uint_bits mod_less)

lemma length_byte_bits [simp]: "length (byte_bits w) = 8"
  by (simp add: byte_bits_def)

lemma bits_byte_byte_bits [simp]: "bits_byte (byte_bits w) = w"
proof -
  have "unat w < 2 ^ 8"
    using unsigned_less [of w] by simp
  then show ?thesis
    by (simp add: bits_byte_def byte_bits_def bits_uint_uint_bits)
qed

lemma length_bytes_bits [simp]: "length (bytes_bits b) = 8 * length b"
  by (induction b) (auto simp: bytes_bits_def)

lemma bits_bytes_bytes_bits [simp]: "bits_bytes (bytes_bits b) = b"
proof (induction b)
  case Nil
  show ?case by (simp add: bytes_bits_def bits_bytes.simps)
next
  case (Cons w b)
  have "bytes_bits (w # b) = byte_bits w @ bytes_bits b"
    by (simp add: bytes_bits_def)
  moreover have "byte_bits w \<noteq> []"
    by (metis length_byte_bits list.size(3) zero_neq_numeral)
  ultimately show ?case
    by (simp add: bits_bytes.simps [of "byte_bits w @ bytes_bits b"] Cons.IH)
qed

section \<open>Chunks\<close>

lemma grouper_lengths: "g \<in> set (grouper n fill xs) \<Longrightarrow> length g = n"
  by (induction n fill xs rule: grouper.induct)
    (subst (asm) (2) grouper.simps, auto split: if_splits)

lemma length_grouper: "0 < n \<Longrightarrow> length (grouper n fill xs) = (length xs + n - 1) div n"
proof (induction n fill xs rule: grouper.induct)
  case (1 n fill xs)
  show ?case
  proof (cases "xs = []")
    case True
    with "1.prems" show ?thesis by (simp add: grouper.simps)
  next
    case False
    with "1.prems" have "length (grouper n fill xs) = Suc (length (grouper n fill (drop n xs)))"
      by (subst grouper.simps) simp
    also have "\<dots> = Suc ((length xs - n + n - 1) div n)"
      using "1.IH" "1.prems" False by simp
    also have "\<dots> = (length xs + n - 1) div n"
    proof (cases "n \<le> length xs")
      case True
      with "1.prems" have "length xs + n - 1 = (length xs - 1) + n" by simp
      then have a: "(length xs + n - 1) div n = ((length xs - 1) + n) div n" by metis
      have b: "((length xs - 1) + n) div n = Suc ((length xs - 1) div n)"
        using "1.prems" by (subst div_add_self2) simp_all
      have c: "length xs - n + n - 1 = length xs - 1" using True by simp
      show ?thesis by (simp only: a b c)
    next
      case small: False
      have "(length xs + n - 1) div n = 1"
      proof (rule div_nat_eqI)
        show "n * 1 \<le> length xs + n - 1" and "length xs + n - 1 < n * Suc 1"
          using small False by (cases xs; simp)+
      qed
      with small "1.prems" show ?thesis by simp
    qed
    finally show ?thesis .
  qed
qed

lemma concat_grouper:
  "0 < n \<Longrightarrow> \<exists>p < n. concat (grouper n fill xs) = xs @ replicate p fill
     \<and> n dvd (length xs + p)"
proof (induction n fill xs rule: grouper.induct)
  case (1 n fill xs)
  show ?case
  proof (cases "xs = []")
    case True
    with "1.prems" show ?thesis by (intro exI [of _ 0]) (simp add: grouper.simps)
  next
    case False
    then have unfold: "grouper n fill xs = take n (xs @ replicate n fill) # grouper n fill (drop n xs)"
      using "1.prems" by (subst grouper.simps) simp
    show ?thesis
    proof (cases "length xs \<le> n")
      case True
      with "1.prems" False unfold show ?thesis
        by (intro exI [of _ "n - length xs"])
          (simp add: grouper.simps [of n fill "[]"] take_replicate min_def)
    next
      case big: False
      from "1.IH" "1.prems" False obtain p where "p < n"
          and p: "concat (grouper n fill (drop n xs)) = drop n xs @ replicate p fill"
          and dvd: "n dvd (length xs - n + p)" by auto
      from dvd have "n dvd (length xs - n + p) + n" by simp
      then have "n dvd length xs + p"
        using big by (simp add: add.commute add.left_commute)
      with \<open>p < n\<close> p unfold big show ?thesis
        by (intro exI [of _ p]) simp
    qed
  qed
qed

section \<open>The tables that \<open>init\<close> builds\<close>

lemma length_number_chars [simp]: "length (number_chars k n cs) = length cs"
  by (induction cs arbitrary: n) auto

lemma number_chars_nth:
  "i < length cs \<Longrightarrow> number_chars k n cs ! i = (uint_bits k (n + i), cs ! i)"
  by (induction cs arbitrary: n i) (auto simp: nth_Cons')

lemma map_snd_number_chars [simp]: "map snd (number_chars k n cs) = cs"
  by (induction cs arbitrary: n) auto

lemma number_chars_mem:
  "(bs, c) \<in> set (number_chars k n cs) \<longleftrightarrow> (\<exists>i < length cs. bs = uint_bits k (n + i) \<and> c = cs ! i)"
  by (auto simp: in_set_conv_nth number_chars_nth)

lemma distinct_fst_number_chars:
  assumes "length cs \<le> 2 ^ k"
  shows "distinct (map fst (number_chars k 0 cs))"
  using assms
  by (auto simp: distinct_conv_nth number_chars_nth dest: uint_bits_inj)

lemma floor_log2_bound: "0 < n \<Longrightarrow> 2 ^ floor_log2 n \<le> n"
proof (induction n rule: floor_log2.induct)
  case (1 n)
  show ?case
  proof (cases "n < 2")
    case True
    with "1.prems" show ?thesis by (simp add: floor_log2.simps)
  next
    case False
    with "1.IH" have "2 ^ floor_log2 (n div 2) \<le> n div 2" by simp
    then have "2 * 2 ^ floor_log2 (n div 2) \<le> n" by simp
    with False show ?thesis by (simp add: floor_log2.simps [of n])
  qed
qed

text \<open>
  \<open>bit_table\<close> is what \<open>encode\<close> and \<open>decode\<close> rely on: every \<open>k\<close>-bit group has a character, and the
  two dictionaries are inverse to each other.
\<close>

locale bit_table =
  fixes to_char :: "(bits \<times> char) list" and to_bits :: "(char \<times> bits) list" and k :: nat
  assumes width: "0 < k"
    and total: "length bs = k \<Longrightarrow> \<exists>c. map_of to_char bs = Some c \<and> map_of to_bits c = Some bs"
    and table_inv: "map_of to_bits c = Some bs \<Longrightarrow> length bs = k \<and> map_of to_char bs = Some c"
begin

lemma lookup_all_total:
  "(\<And>g. g \<in> set gs \<Longrightarrow> length g = k) \<Longrightarrow>
     \<exists>s. lookup_all to_char gs = Inr s \<and> chars_bits to_bits s = Inr (concat gs) \<and> length s = length gs"
proof (induction gs)
  case Nil
  show ?case by simp
next
  case (Cons g gs)
  then obtain s where "lookup_all to_char gs = Inr s" "chars_bits to_bits s = Inr (concat gs)"
      "length s = length gs" by auto
  moreover obtain c where "map_of to_char g = Some c" "map_of to_bits c = Some g"
    using total Cons.prems by (metis list.set_intros(1))
  ultimately show ?case by simp
qed

lemma chars_bits_length: "chars_bits to_bits s = Inr bs \<Longrightarrow> length bs = k * length s"
  by (induction s arbitrary: bs) (auto split: option.splits dest: table_inv)

end

lemma length_remdups_iff: "length xs = length (remdups xs) \<longleftrightarrow> distinct xs"
  by (metis length_remdups_eq remdups_id_iff_distinct)

lemma init_bit_table:
  assumes "init cs e0 = (Inr (), e)"
  shows "bit_table (bits_to_char e) (char_to_bits e) (bits_per_char e)"
    and "bits_per_char e = floor_log2 (length cs)"
proof -
  let ?k = "floor_log2 (length cs)"
  let ?us = "take (2 ^ ?k) cs"
  from assms have d: "distinct cs" and "cs \<noteq> []" and k: "?k \<noteq> 0"
    and e: "bits_to_char e = number_chars ?k 0 ?us" "bits_per_char e = ?k"
      "char_to_bits e = map prod.swap (number_chars ?k 0 ?us)"
    by (auto simp: init_def reset_def act_simps Let_def length_remdups_iff split: if_splits)
  have len: "length ?us = 2 ^ ?k"
    using floor_log2_bound [of "length cs"] \<open>cs \<noteq> []\<close> by simp
  have dist1: "distinct (map fst (bits_to_char e))"
    using distinct_fst_number_chars [of ?us ?k] len e by simp
  have dist2: "distinct (map fst (char_to_bits e))"
  proof -
    have "map fst (char_to_bits e) = map snd (number_chars ?k 0 ?us)"
      by (simp only: e map_map) (metis fst_swap comp_apply map_snd_number_chars map_eq_conv)
    then show ?thesis using d by (simp add: distinct_take)
  qed
  have mem: "(bs, c) \<in> set (bits_to_char e) \<longleftrightarrow> (c, bs) \<in> set (char_to_bits e)" for bs c
    by (auto simp: e)
  have both: "map_of (bits_to_char e) bs = Some c \<longleftrightarrow> map_of (char_to_bits e) c = Some bs" for bs c
    by (simp only: map_of_eq_Some_iff [OF dist1] map_of_eq_Some_iff [OF dist2] mem)
  show "bit_table (bits_to_char e) (char_to_bits e) (bits_per_char e)"
  proof
    show "0 < bits_per_char e" using k e by simp
  next
    fix bs :: bits
    assume "length bs = bits_per_char e"
    then have "uint_bits ?k (bits_uint 0 bs) = bs" and lt: "bits_uint 0 bs < 2 ^ ?k"
      using uint_bits_bits_uint [of bs] bits_uint_bound [of bs] e by simp_all
    then have "(bs, ?us ! bits_uint 0 bs) \<in> set (bits_to_char e)"
      using len by (auto simp: e number_chars_mem)
    then show "\<exists>c. map_of (bits_to_char e) bs = Some c \<and> map_of (char_to_bits e) c = Some bs"
      using both dist1 by auto
  next
    fix c bs
    assume a: "map_of (char_to_bits e) c = Some bs"
    then have "(bs, c) \<in> set (bits_to_char e)"
      using both map_of_SomeD by metis
    then have "length bs = ?k" by (auto simp: e number_chars_mem)
    with a both e show "length bs = bits_per_char e \<and> map_of (bits_to_char e) bs = Some c" by simp
  qed
  show "bits_per_char e = ?k" by (rule e)
qed

section \<open>Round trips\<close>

context bit_table
begin

lemma encode_groups:
  "\<exists>s p. lookup_all to_char (grouper k False bs) = Inr s
     \<and> chars_bits to_bits s = Inr (bs @ replicate p False) \<and> p < k
     \<and> length s = (length bs + k - 1) div k"
proof -
  obtain p where "p < k" and p: "concat (grouper k False bs) = bs @ replicate p False"
    using concat_grouper [OF width, of False bs] by metis
  let ?gs = "grouper k False bs"
  have "\<exists>s. lookup_all to_char ?gs = Inr s \<and> chars_bits to_bits s = Inr (concat ?gs)
      \<and> length s = length ?gs"
    by (rule lookup_all_total) (rule grouper_lengths)
  with \<open>p < k\<close> show ?thesis
    by (auto simp only: p length_grouper [OF width])
qed

lemma lookup_all_chars:
  "chars_bits to_bits s = Inr (concat gs) \<Longrightarrow> (\<And>g. g \<in> set gs \<Longrightarrow> length g = k) \<Longrightarrow>
     lookup_all to_char gs = Inr s"
proof (induction s arbitrary: gs)
  case Nil
  have "gs = []"
  proof (cases gs)
    case (Cons g gs')
    then have "length g = 0" and "length g = k"
      using Nil.prems(1) Nil.prems(2) [of g] by auto
    with width show ?thesis by simp
  qed
  then show ?case by simp
next
  case (Cons c s)
  from Cons.prems(1) obtain bs r where c: "map_of to_bits c = Some bs"
      and r: "chars_bits to_bits s = Inr r" and eq: "concat gs = bs @ r"
    by (auto split: option.splits)
  have len: "length bs = k" and ch: "map_of to_char bs = Some c"
    using table_inv [OF c] by simp_all
  obtain g gs' where gs: "gs = g # gs'"
    using eq len width by (cases gs) auto
  have "g = bs" and "r = concat gs'"
    using eq len gs Cons.prems(2) by auto
  moreover have "lookup_all to_char gs' = Inr s"
    using Cons.IH [of gs'] r \<open>r = concat gs'\<close> Cons.prems(2) gs by auto
  ultimately show ?case using gs ch by simp
qed

end

lemma bytes_bits_bits_bytes:
  "8 dvd length bs \<Longrightarrow> bytes_bits (bits_bytes bs) = bs"
proof (induction bs rule: bits_bytes.induct)
  case (1 bs)
  show ?case
  proof (cases "bs = []")
    case True
    then show ?thesis by (simp add: bits_bytes.simps bytes_bits_def)
  next
    case False
    with "1.prems" have eight: "8 \<le> length bs" by (simp add: dvd_imp_le)
    have t8: "length (take 8 bs) = 8" using eight by simp
    have "bits_uint 0 (take 8 bs) < 2 ^ 8"
      using bits_uint_bound [of "take 8 bs"] by (simp only: t8)
    then have "unat (bits_byte (take 8 bs)) = bits_uint 0 (take 8 bs)"
      by (simp add: bits_byte_def unat_of_nat take_bit_nat_eq_self)
    then have "byte_bits (bits_byte (take 8 bs)) = take 8 bs"
      using uint_bits_bits_uint [of "take 8 bs"] by (simp only: byte_bits_def t8)
    moreover have "bytes_bits (bits_bytes (drop 8 bs)) = drop 8 bs"
      using "1.IH" False "1.prems" eight by (simp add: dvd_minus_self)
    ultimately show ?thesis
      using False by (subst bits_bytes.simps) (simp add: bytes_bits_def)
  qed
qed

lemma bytes_bits_Nil_iff [simp]: "bytes_bits b = [] \<longleftrightarrow> b = []"
  by (metis length_0_conv length_bytes_bits mult_eq_0_iff zero_neq_numeral)

lemma floor_log2_le: "n < 512 \<Longrightarrow> floor_log2 n \<le> 8"
proof (cases "n = 0")
  case True
  then show ?thesis by (simp add: floor_log2.simps)
next
  case False
  assume "n < 512"
  show ?thesis
  proof (rule ccontr)
    assume "\<not> floor_log2 n \<le> 8"
    then have "(2::nat) ^ 9 \<le> 2 ^ floor_log2 n"
      by (intro power_increasing) auto
    with floor_log2_bound [of n] False \<open>n < 512\<close> show False by simp
  qed
qed

lemma default_init: "init default_characters empty_encoding = (Inr (), default_encoding)"
proof -
  have "fst (init default_characters empty_encoding) = Inr ()"
    by code_simp
  then show ?thesis by (simp add: default_encoding_def prod_eq_iff)
qed

lemma default_bits_per_char: "bits_per_char default_encoding = 5"
  by code_simp

interpretation shard_alphabet:
  bit_table "bits_to_char default_encoding" "char_to_bits default_encoding" 5
  using init_bit_table(1) [OF default_init] by (simp only: default_bits_per_char)

lemma no_ones: "\<not> list_ex (\<lambda>c. c) xs \<Longrightarrow> xs = replicate (length xs) False"
  by (induction xs) auto

section \<open>Properties\<close>

text \<open>
  C32. Encoding is total and loss-free: over any alphabet that \<open>init\<close> accepts (at most nine bits
  per character, so any alphabet below 512 characters), every non-empty byte string has an
  encoding, and \<open>decode\<close> gives the bytes back, whatever the zero padding of the last group was.
\<close>

theorem encode_decode_roundtrip:
  assumes "init cs e0 = (Inr (), e)" and "length cs < 512" and "b \<noteq> []"
  shows "\<exists>s. encode e b = Inr s \<and> decode lit0b e s = Inr b"
proof -
  note tab = init_bit_table(1) [OF assms(1)]
  let ?k = "bits_per_char e"
  have k: "0 < ?k" "?k \<le> 8"
    using bit_table.width [OF tab] init_bit_table(2) [OF assms(1)] floor_log2_le [OF assms(2)]
    by simp_all
  obtain s p where s: "lookup_all (bits_to_char e) (grouper ?k False (bytes_bits b)) = Inr s"
      "chars_bits (char_to_bits e) s = Inr (bytes_bits b @ replicate p False)" and p: "p < ?k"
    using bit_table.encode_groups [OF tab] by blast
  have "decode lit0b e s = Inr b"
    using k p s(2) assms(3)
    by (cases "p = 0") (simp_all add: decode_def literal_bytes_def list_ex_iff)
  with k s(1) show ?thesis by (simp add: encode_def)
qed

theorem encode_decode_roundtrip_witness:
  "\<exists>s. encode default_encoding [0, 255, 7] = Inr s
     \<and> decode (Inr []) default_encoding s = Inr [0, 255, 7]"
  using encode_decode_roundtrip [OF default_init, of "[0, 255, 7]" "Inr []"]
  by (simp add: default_characters_def)

text \<open>
  The other direction: a string that \<open>decode\<close> accepts and whose number of padding bits is
  below the width of a character is exactly what \<open>encode\<close> gives for the decoded bytes; so
  \<open>decode\<close> is injective on such strings.
\<close>

theorem decode_encode_canonical:
  assumes "init cs e0 = (Inr (), e)"
    and "decode (Inl BitstringError) e s = Inr b"
    and "(bits_per_char e * length s) mod 8 < bits_per_char e"
  shows "encode e b = Inr s"
proof -
  note tab = init_bit_table(1) [OF assms(1)]
  let ?k = "bits_per_char e"
  have k: "0 < ?k" by (rule bit_table.width [OF tab])
  from assms(2) k obtain bs where bs: "chars_bits (char_to_bits e) s = Inr bs"
    by (auto simp: decode_def)
  let ?o = "length bs mod 8"
  let ?u = "take (length bs - ?o) bs"
  have len: "length bs = ?k * length s"
    by (rule bit_table.chars_bits_length [OF tab bs])
  have "\<not> list_ex (\<lambda>c. c) (drop (length bs - ?o) bs)"
    using assms(2) k bs by (cases "?o = 0") (auto simp: decode_def Let_def split: if_splits)
  then have zeros: "drop (length bs - ?o) bs = replicate ?o False"
    by (rule no_ones [THEN trans]) simp
  have b: "b = bits_bytes ?u"
    using assms(2) k bs
    by (cases "?o = 0") (auto simp: decode_def Let_def literal_bytes_def split: if_splits)
  have "length ?u = length bs - ?o" by simp
  then have lu: "length ?u + ?o = ?k * length s" by (simp only: len)
  have "length ?u = length bs - ?o" by simp
  then have "8 dvd length ?u" by (metis dvd_minus_mod)
  then have u: "bytes_bits b = ?u" by (simp add: b bytes_bits_bits_bytes)
  obtain p where p: "p < ?k" "concat (grouper ?k False ?u) = ?u @ replicate p False"
      "?k dvd (length ?u + p)"
    using concat_grouper [OF k, of False ?u] by metis
  have "p = ?o"
  proof -
    have "?k dvd (length ?u + ?o)" by (simp only: lu) simp
    with p(3) have "int ?k dvd int (length ?u + p) - int (length ?u + ?o)"
      by (intro dvd_diff) (simp_all only: of_nat_dvd_iff)
    then have "int ?k dvd int p - int ?o" by (simp only: of_nat_add) simp
    then have "int p mod int ?k = int ?o mod int ?k" by (simp add: mod_eq_dvd_iff)
    then show ?thesis using p(1) assms(3) len by simp
  qed
  then have "concat (grouper ?k False ?u) = bs"
    using p(2) zeros by (metis append_take_drop_id)
  then have "lookup_all (bits_to_char e) (grouper ?k False ?u) = Inr s"
    using bit_table.lookup_all_chars [OF tab] bs grouper_lengths by metis
  then show ?thesis using k by (simp add: encode_def u)
qed

theorem decode_encode_canonical_witness:
  "encode default_encoding [3] = Inr ''ap''"
proof -
  have "decode (Inl BitstringError) default_encoding ''ap'' = Inr [3]"
    by code_simp
  then show ?thesis
    using decode_encode_canonical [OF default_init] by (simp add: default_bits_per_char)
qed

text \<open>
  A shard id, the encoding of a 64-byte SHA-512 digest over the default alphabet, has exactly
  103 characters.
\<close>

theorem hash_id_length:
  assumes "length digest = 64"
  shows "\<exists>s. encode default_encoding digest = Inr s \<and> length s = 103"
  using shard_alphabet.encode_groups [of "bytes_bits digest"] assms
  by (auto simp: encode_def default_bits_per_char)

theorem hash_id_length_witness:
  "\<exists>s. encode default_encoding (replicate 64 1) = Inr s \<and> length s = 103"
  by (rule hash_id_length) simp

end
