(* ===== verification/App_Meta.thy ===== *)
theory App_Meta
  imports Json
begin

text \<open>
  \<open>data_model/app_meta.py\<close> and \<open>data_model/app_meta_migration.py\<close>: the enumerations, the
  \<open>Lifecycle\<close> validator, the app metadata, its version migrations and the order on VM sizes; also
  \<open>VmSize\<close> of \<open>data_model/backend/shard_model.py\<close>, which \<open>Profile.from_shard\<close> converts.
  Field-by-field type checking by pydantic is not in the repository; it is a parameter where it
  is used.
\<close>

section \<open>Enumerations\<close>

datatype installation_reason = Reason_UNKNOWN | Reason_CONFIG | Reason_CUSTOM | Reason_STORE

datatype access = PUBLIC | PRIVATE | PEER

datatype app_status =
    UNKNOWN
  | INSTALLATION_QUEUED
  | INSTALLING
  | STOPPED
  | RUNNING
  | PAUSED
  | UNINSTALLATION_QUEUED
  | UNINSTALLING
  | REINSTALLATION_QUEUED
  | REINSTALLING
  | DOWN
  | ERROR

fun status_value :: "app_status \<Rightarrow> string" where
  "status_value UNKNOWN = ''unknown''"
| "status_value INSTALLATION_QUEUED = ''installation_queued''"
| "status_value INSTALLING = ''installing''"
| "status_value STOPPED = ''stopped''"
| "status_value RUNNING = ''running''"
| "status_value PAUSED = ''paused''"
| "status_value UNINSTALLATION_QUEUED = ''uninstallation_queued''"
| "status_value UNINSTALLING = ''uninstalling''"
| "status_value REINSTALLATION_QUEUED = ''reinstallation_queued''"
| "status_value REINSTALLING = ''reinstalling''"
| "status_value DOWN = ''down''"
| "status_value ERROR = ''error''"

datatype entrypoint_port = HTTPS_443 | MQTTS_1883

fun port_value :: "entrypoint_port \<Rightarrow> string" where
  "port_value HTTPS_443 = ''http''"
| "port_value MQTTS_1883 = ''mqtt''"

datatype vm_size = VM_XS | VM_S | VM_M | VM_L | VM_XL

text \<open>\<open>VMSize._index\<close>: the position among the members.\<close>

fun vm_index :: "vm_size \<Rightarrow> nat" where
  "vm_index VM_XS = 0"
| "vm_index VM_S = 1"
| "vm_index VM_M = 2"
| "vm_index VM_L = 3"
| "vm_index VM_XL = 4"

lemma vm_index_inj: "vm_index a = vm_index b \<longleftrightarrow> a = b"
  by (cases a; cases b) simp_all

text \<open>\<open>VMSize.__gt__\<close>, \<open>__ge__\<close>, \<open>__lt__\<close> and \<open>__le__\<close> compare the positions.\<close>

definition vm_size_gt :: "vm_size \<Rightarrow> vm_size \<Rightarrow> bool" where
  "vm_size_gt a b \<longleftrightarrow> vm_index a > vm_index b"

definition vm_size_ge :: "vm_size \<Rightarrow> vm_size \<Rightarrow> bool" where
  "vm_size_ge a b \<longleftrightarrow> vm_index a \<ge> vm_index b"

definition vm_size_lt :: "vm_size \<Rightarrow> vm_size \<Rightarrow> bool" where
  "vm_size_lt a b \<longleftrightarrow> vm_index a < vm_index b"

definition vm_size_le :: "vm_size \<Rightarrow> vm_size \<Rightarrow> bool" where
  "vm_size_le a b \<longleftrightarrow> vm_index a \<le> vm_index b"

text \<open>They are one linear order.\<close>

instantiation vm_size :: linorder
begin

definition less_eq_vm_size :: "vm_size \<Rightarrow> vm_size \<Rightarrow> bool" where
  "less_eq_vm_size = vm_size_le"

definition less_vm_size :: "vm_size \<Rightarrow> vm_size \<Rightarrow> bool" where
  "less_vm_size = vm_size_lt"

instance
  by standard (auto simp: less_eq_vm_size_def less_vm_size_def vm_size_le_def vm_size_lt_def vm_index_inj)

end

lemma vm_size_comparisons:
  "vm_size_gt a b \<longleftrightarrow> b < a" "vm_size_ge a b \<longleftrightarrow> b \<le> a" "vm_size_lt a b \<longleftrightarrow> a < b" "vm_size_le a b \<longleftrightarrow> a \<le> b"
  by (simp_all add: less_eq_vm_size_def less_vm_size_def vm_size_gt_def vm_size_ge_def vm_size_lt_def vm_size_le_def)

fun vm_value :: "vm_size \<Rightarrow> string" where
  "vm_value VM_XS = ''xs''"
| "vm_value VM_S = ''s''"
| "vm_value VM_M = ''m''"
| "vm_value VM_L = ''l''"
| "vm_value VM_XL = ''xl''"

text \<open>\<open>VMSize(value)\<close>: the member with that value, \<open>ValueError\<close> if there is none.\<close>

definition vm_size_of :: "string \<Rightarrow> vm_size result" where
  "vm_size_of s =
     (case find (\<lambda>m. vm_value m = s) [VM_XS, VM_S, VM_M, VM_L, VM_XL] of
        None \<Rightarrow> Inl (ValueError s) | Some m \<Rightarrow> Inr m)"

text \<open>\<open>backend.shard_model.VmSize\<close> with its own value order.\<close>

datatype backend_vm_size = B_XS | B_S | B_M | B_L | B_XL

fun backend_vm_value :: "backend_vm_size \<Rightarrow> string" where
  "backend_vm_value B_XS = ''xs''"
| "backend_vm_value B_S = ''s''"
| "backend_vm_value B_M = ''m''"
| "backend_vm_value B_L = ''l''"
| "backend_vm_value B_XL = ''xl''"

definition vm_size_order :: "string list" where
  "vm_size_order = [''xs'', ''s'', ''m'', ''l'', ''xl'']"

definition backend_vm_idx :: "backend_vm_size \<Rightarrow> nat" where
  "backend_vm_idx v = length (takeWhile (\<lambda>s. s \<noteq> backend_vm_value v) vm_size_order)"

definition backend_vm_le :: "backend_vm_size \<Rightarrow> backend_vm_size \<Rightarrow> bool" where
  "backend_vm_le a b \<longleftrightarrow> backend_vm_idx a \<le> backend_vm_idx b"

section \<open>Lifecycle\<close>

record lifecycle =
  always_on :: bool
  skip_pause :: bool
  idle_for_pause :: "int option"
  idle_for_stop :: "int option"

definition default_lifecycle :: lifecycle where
  "default_lifecycle =
     \<lparr>always_on = False, skip_pause = False, idle_for_pause = None, idle_for_stop = None\<rparr>"

definition validate_combinations :: "lifecycle \<Rightarrow> lifecycle result" where
  "validate_combinations l =
     (if always_on l \<and> (skip_pause l \<or> idle_for_pause l \<noteq> None \<or> idle_for_stop l \<noteq> None)
      then Inl (ValueError ''always_on excludes the other fields'')
      else if skip_pause l \<and> idle_for_pause l \<noteq> None
      then Inl (ValueError ''skip_pause and idle_for_pause'')
      else if (case idle_for_pause l of None \<Rightarrow> False | Some p \<Rightarrow> p < 5)
      then Inl (ValueError ''idle_for_pause'')
      else if (case idle_for_stop l of None \<Rightarrow> False | Some t \<Rightarrow> t < 5)
      then Inl (ValueError ''idle_for_stop'')
      else if (case (idle_for_pause l, idle_for_stop l) of (Some p, Some t) \<Rightarrow> p \<ge> t | _ \<Rightarrow> False)
      then Inl (ValueError ''idle_for_pause must be less than idle_for_stop'')
      else Inr l)"

section \<open>App metadata\<close>

record path_props =
  pp_access :: access
  pp_headers :: "(string \<times> string) list option"

record entrypoint =
  container_name :: string
  container_port :: int
  entrypoint_port :: entrypoint_port

datatype text_block = One_Text string | Many_Texts "string list"

record store_info =
  si_description_short :: "string option"
  si_description_long :: "text_block option"
  si_hint :: "text_block option"
  si_is_featured :: "bool option"

record app_meta =
  am_v :: string
  am_app_version :: string
  am_upstream_repo :: "string option"
  am_homepage :: "string option"
  am_name :: string
  am_pretty_name :: string
  am_icon :: string
  am_entrypoints :: "entrypoint list"
  am_paths :: "(string \<times> path_props) list"
  am_lifecycle :: lifecycle
  am_minimum_portal_size :: vm_size
  am_store_info :: "store_info option"

section \<open>Version migrations\<close>

definition CURRENT_VERSION :: string where
  "CURRENT_VERSION = ''1.3''"

text \<open>\<open>str.title\<close>: a letter is upper case unless a letter precedes it.\<close>

fun title_from :: "bool \<Rightarrow> string \<Rightarrow> string" where
  "title_from after [] = []"
| "title_from after (c # cs) =
     (if is_alpha c then (if after then lower_char c else upper_char c) # title_from True cs
      else c # title_from False cs)"

definition migrate_1_0_to_1_1 :: "dict \<Rightarrow> dict result" where
  "migrate_1_0_to_1_1 vals =
     (let vals = dict_set vals ''v'' (JStr ''1.1'') in
      case map_of vals ''name'' of
        None \<Rightarrow> Inl (KeyError ''name'')
      | Some (JStr n) \<Rightarrow> Inr (dict_set vals ''pretty_name'' (JStr (title_from False n)))
      | Some _ \<Rightarrow> Inl AttributeError)"

definition migrate_1_1_to_1_2 :: "dict \<Rightarrow> dict result" where
  "migrate_1_1_to_1_2 vals = Inr (dict_set vals ''v'' (JStr ''1.2''))"

definition rename_idle_time :: "dict \<Rightarrow> dict" where
  "rename_idle_time lifecycle =
     (if \<not> (case map_of lifecycle ''always_on'' of None \<Rightarrow> False | Some b \<Rightarrow> truthy b)
      then (case map_of lifecycle ''idle_time_for_shutdown'' of
              None \<Rightarrow> lifecycle
            | Some t \<Rightarrow>
                (let rest = dict_del lifecycle ''idle_time_for_shutdown'' in
                 if t \<noteq> JNull then dict_set rest ''idle_for_pause'' t else rest))
      else lifecycle)"

definition migrate_1_2_to_1_3 :: "dict \<Rightarrow> dict result" where
  "migrate_1_2_to_1_3 vals =
     (let lifecycle = (case map_of vals ''lifecycle'' of
                         None \<Rightarrow> JObj [] | Some l \<Rightarrow> if truthy l then l else JObj []) in
      case lifecycle of
        JObj l \<Rightarrow> Inr (dict_set (dict_set vals ''lifecycle'' (JObj (rename_idle_time l)))
                        ''v'' (JStr ''1.3''))
      | _ \<Rightarrow> Inl AttributeError)"

definition migrations :: "(string \<times> (dict \<Rightarrow> dict result)) list" where
  "migrations =
     [(''1.0'', migrate_1_0_to_1_1), (''1.1'', migrate_1_1_to_1_2), (''1.2'', migrate_1_2_to_1_3)]"

text \<open>\<open>migrations[v]\<close>: an unhashable key is a \<open>TypeError\<close>, an unknown one a \<open>KeyError\<close>.\<close>

definition migration_for :: "json \<Rightarrow> (dict \<Rightarrow> dict result) result" where
  "migration_for v =
     (case v of
        JStr s \<Rightarrow> (case map_of migrations s of None \<Rightarrow> Inl (KeyError s) | Some m \<Rightarrow> Inr m)
      | JArr _ \<Rightarrow> Inl TypeError
      | JObj _ \<Rightarrow> Inl TypeError
      | _ \<Rightarrow> Inl (KeyError ''v''))"

text \<open>The loop of \<open>AppMeta.migrate\<close>; \<open>n\<close> is \<open>migration_count\<close>.\<close>

function migrate_loop :: "nat \<Rightarrow> dict \<Rightarrow> dict result" where
  "migrate_loop n vals =
     (case map_of vals ''v'' of
        None \<Rightarrow> Inl (KeyError ''v'')
      | Some v \<Rightarrow>
          if v = JStr CURRENT_VERSION then Inr vals
          else if n > length migrations then Inl MigrationStuck
          else (case migration_for v of
                  Inl e \<Rightarrow> Inl e
                | Inr m \<Rightarrow> (case m vals of Inl e \<Rightarrow> Inl e | Inr w \<Rightarrow> migrate_loop (Suc n) w)))"
  by pat_completeness auto
termination
  by (relation "measure (\<lambda>(n, vals). Suc (length migrations) - n)") auto

declare migrate_loop.simps [simp del]

definition migrate :: "json \<Rightarrow> dict result" where
  "migrate j = (case j of JObj vals \<Rightarrow> migrate_loop 0 vals | _ \<Rightarrow> Inl TypeError)"

text \<open>
  \<open>AppMeta.model_validate\<close>: the migration runs before, the lifecycle check inside pydantic's own
  validation of the fields, whose result for the declared types is the parameter \<open>decode\<close>.
\<close>

definition model_validate :: "(dict \<Rightarrow> app_meta option) \<Rightarrow> json \<Rightarrow> app_meta result" where
  "model_validate decode j =
     bind_res (migrate j) (\<lambda>vals.
       case decode vals of
         None \<Rightarrow> Inl ValidationError
       | Some m \<Rightarrow> (case validate_combinations (am_lifecycle m) of
                      Inl _ \<Rightarrow> Inl ValidationError | Inr _ \<Rightarrow> Inr m))"

text \<open>
  Reading a metadata file: \<open>json.loads\<close> and the field decoding are parameters, bundled in one record.
\<close>

record meta_parser =
  json_loads :: "string \<Rightarrow> json option"
  decode_fields :: "dict \<Rightarrow> app_meta option"

definition load_meta :: "meta_parser \<Rightarrow> string \<Rightarrow> app_meta result" where
  "load_meta P raw =
     (case json_loads P raw of
        None \<Rightarrow> Inl JSONDecodeError
      | Some j \<Rightarrow> model_validate (decode_fields P) j)"

section \<open>Lemmas\<close>

lemma validate_combinations_Inr:
  "validate_combinations l = Inr l' \<longleftrightarrow>
     l' = l
     \<and> (always_on l \<longrightarrow> \<not> skip_pause l \<and> idle_for_pause l = None \<and> idle_for_stop l = None)
     \<and> (skip_pause l \<longrightarrow> idle_for_pause l = None)
     \<and> (\<forall>p. idle_for_pause l = Some p \<longrightarrow> 5 \<le> p)
     \<and> (\<forall>t. idle_for_stop l = Some t \<longrightarrow> 5 \<le> t)
     \<and> (\<forall>p t. idle_for_pause l = Some p \<longrightarrow> idle_for_stop l = Some t \<longrightarrow> p < t)"
  by (cases "idle_for_pause l"; cases "idle_for_stop l") (auto simp: validate_combinations_def)

lemma migrate_loop_current:
  "map_of vals ''v'' = Some (JStr ''1.3'') \<Longrightarrow> migrate_loop n vals = Inr vals"
  by (simp add: migrate_loop.simps CURRENT_VERSION_def)

lemma migrate_loop_step:
  assumes "map_of vals ''v'' = Some (JStr ver)" and "ver \<noteq> ''1.3''"
    and "map_of migrations ver = Some m" and "n \<le> 3"
  shows "migrate_loop n vals = bind_res (m vals) (migrate_loop (Suc n))"
proof -
  have len: "length migrations = 3" by (simp add: migrations_def)
  have "\<not> 3 < n" using assms(4) by simp
  then show ?thesis
    by (subst migrate_loop.simps)
      (simp add: assms len CURRENT_VERSION_def migration_for_def bind_res_def split: sum.split)
qed

text \<open>The three migrations on their own: which key they write.\<close>

lemma migrate_1_0_to_1_1_ok:
  assumes "map_of vals ''name'' = Some (JStr n)"
  shows "\<exists>w. migrate_1_0_to_1_1 vals = Inr w \<and>
    map_of w = (map_of vals)(''v'' \<mapsto> JStr ''1.1'', ''pretty_name'' \<mapsto> JStr (title_from False n))"
  using assms by (simp add: migrate_1_0_to_1_1_def)

lemma migrate_1_1_to_1_2_ok:
  "\<exists>w. migrate_1_1_to_1_2 vals = Inr w \<and> map_of w = (map_of vals)(''v'' \<mapsto> JStr ''1.2'')"
  by (simp add: migrate_1_1_to_1_2_def)

definition lifecycle_object :: "dict \<Rightarrow> dict \<Rightarrow> bool" where
  "lifecycle_object vals l \<longleftrightarrow>
     (case map_of vals ''lifecycle'' of
        None \<Rightarrow> l = []
      | Some v \<Rightarrow> if truthy v then v = JObj l else l = [])"

lemma migrate_1_2_to_1_3_ok:
  assumes "lifecycle_object vals l"
  shows "\<exists>w. migrate_1_2_to_1_3 vals = Inr w \<and>
    map_of w = (map_of vals)(''lifecycle'' \<mapsto> JObj (rename_idle_time l), ''v'' \<mapsto> JStr ''1.3'')"
  using assms
  by (auto simp: migrate_1_2_to_1_3_def lifecycle_object_def split: option.splits if_splits)

lemma migrate_from_1_2:
  assumes "map_of vals ''v'' = Some (JStr ''1.2'')" and "lifecycle_object vals l" and "n \<le> 3"
  shows "\<exists>w. migrate_loop n vals = Inr w \<and>
    map_of w = (map_of vals)(''lifecycle'' \<mapsto> JObj (rename_idle_time l), ''v'' \<mapsto> JStr ''1.3'')"
proof -
  obtain w where w: "migrate_1_2_to_1_3 vals = Inr w"
      "map_of w = (map_of vals)(''lifecycle'' \<mapsto> JObj (rename_idle_time l), ''v'' \<mapsto> JStr ''1.3'')"
    using migrate_1_2_to_1_3_ok [OF assms(2)] by blast
  have "migrate_loop n vals = migrate_loop (Suc n) w"
    using migrate_loop_step [OF assms(1), of migrate_1_2_to_1_3 n] assms(3) w(1)
    by (simp add: migrations_def)
  also have "\<dots> = Inr w"
    by (rule migrate_loop_current) (simp add: w(2))
  finally show ?thesis using w(2) by blast
qed

lemma migrate_from_1_1:
  assumes "map_of vals ''v'' = Some (JStr ''1.1'')" and "lifecycle_object vals l" and "n \<le> 2"
  shows "\<exists>w. migrate_loop n vals = Inr w \<and>
    map_of w = (map_of vals)(''lifecycle'' \<mapsto> JObj (rename_idle_time l), ''v'' \<mapsto> JStr ''1.3'')"
proof -
  obtain u where u: "migrate_1_1_to_1_2 vals = Inr u"
      "map_of u = (map_of vals)(''v'' \<mapsto> JStr ''1.2'')"
    using migrate_1_1_to_1_2_ok by blast
  have "migrate_loop n vals = migrate_loop (Suc n) u"
    using migrate_loop_step [OF assms(1), of migrate_1_1_to_1_2 n] assms(3) u(1)
    by (simp add: migrations_def)
  moreover have "lifecycle_object u l"
    using assms(2) by (simp add: lifecycle_object_def u(2))
  ultimately show ?thesis
    using migrate_from_1_2 [of u l "Suc n"] assms(3) u(2) by (auto simp: fun_upd_twist)
qed

lemma migrate_from_1_0:
  assumes "map_of vals ''v'' = Some (JStr ''1.0'')" and "map_of vals ''name'' = Some (JStr nm)"
    and "lifecycle_object vals l" and "n \<le> 1"
  shows "\<exists>w. migrate_loop n vals = Inr w \<and>
    map_of w = (map_of vals)(''pretty_name'' \<mapsto> JStr (title_from False nm),
      ''lifecycle'' \<mapsto> JObj (rename_idle_time l), ''v'' \<mapsto> JStr ''1.3'')"
proof -
  obtain u where u: "migrate_1_0_to_1_1 vals = Inr u"
      "map_of u = (map_of vals)(''v'' \<mapsto> JStr ''1.1'', ''pretty_name'' \<mapsto> JStr (title_from False nm))"
    using migrate_1_0_to_1_1_ok [OF assms(2)] by blast
  have "migrate_loop n vals = migrate_loop (Suc n) u"
    using migrate_loop_step [OF assms(1), of migrate_1_0_to_1_1 n] assms(4) u(1)
    by (simp add: migrations_def)
  moreover have "lifecycle_object u l"
    using assms(3) by (simp add: lifecycle_object_def u(2))
  ultimately show ?thesis
    using migrate_from_1_1 [of u l "Suc n"] assms(4) u(2) by (auto simp: fun_upd_twist)
qed

text \<open>
  Every migration raises the version along 1.0, 1.1, 1.2, 1.3, so \<open>steps_left\<close> goes down in each
  round and the counter never passes the number of migrations.
\<close>

definition steps_left :: "dict \<Rightarrow> nat" where
  "steps_left vals =
     (case map_of vals ''v'' of
        Some (JStr s) \<Rightarrow>
          (if s = ''1.0'' then 3 else if s = ''1.1'' then 2 else if s = ''1.2'' then 1 else 0)
      | _ \<Rightarrow> 0)"

lemma steps_left_le: "steps_left vals \<le> 3"
  by (auto simp: steps_left_def split: option.splits json.splits)

lemma migration_step:
  assumes "map_of vals ''v'' = Some v" and "migration_for v = Inr m" and "m vals = Inr w"
  shows "steps_left w < steps_left vals"
  using assms
  by (auto simp: migration_for_def migrations_def migrate_1_0_to_1_1_def migrate_1_1_to_1_2_def
      migrate_1_2_to_1_3_def steps_left_def Let_def
      split: json.splits option.splits if_splits)

lemma migration_not_stuck:
  assumes "migration_for v = Inr m"
  shows "m vals \<noteq> Inl MigrationStuck"
  using assms
  by (auto simp: migration_for_def migrations_def migrate_1_0_to_1_1_def migrate_1_1_to_1_2_def
      migrate_1_2_to_1_3_def Let_def split: json.splits option.splits if_splits)

lemma migration_for_not_stuck: "migration_for v \<noteq> Inl MigrationStuck"
  by (auto simp: migration_for_def split: json.splits option.splits)

lemma migrate_loop_not_stuck:
  "n + steps_left vals \<le> 3 \<Longrightarrow> migrate_loop n vals \<noteq> Inl MigrationStuck"
proof (induction n vals rule: migrate_loop.induct)
  case (1 n vals)
  have len: "length migrations = 3" by (simp add: migrations_def)
  show ?case
  proof (cases "map_of vals ''v''")
    case None
    then show ?thesis by (subst migrate_loop.simps) simp
  next
    case (Some v)
    have "migrate_loop (Suc n) w \<noteq> Inl MigrationStuck"
      if "v \<noteq> JStr CURRENT_VERSION" "migration_for v = Inr m" "m vals = Inr w" for m w
      using "1.IH" [OF Some that(1) _ that(2,3)] migration_step [OF Some that(2,3)] "1.prems" len
      by simp
    then show ?thesis
      using "1.prems" len Some migration_for_not_stuck migration_not_stuck
      by (subst migrate_loop.simps) (auto split: sum.splits)
  qed
qed

section \<open>Properties\<close>

text \<open>
  Metadata of every published version (1.0 to 1.3) migrates: if the document has a known
  version, a string name and a lifecycle that is an object or empty, \<open>AppMeta.migrate\<close> returns a
  document of version 1.3 in which every key other than the version, the pretty name and the
  lifecycle is untouched.
\<close>

theorem migrate_known_versions:
  assumes "map_of vals ''v'' = Some (JStr ver)"
    and "ver \<in> {''1.0'', ''1.1'', ''1.2'', ''1.3''}"
    and "map_of vals ''name'' = Some (JStr nm)" and "lifecycle_object vals l"
  shows "\<exists>w. migrate (JObj vals) = Inr w \<and> map_of w ''v'' = Some (JStr ''1.3'') \<and>
    (\<forall>k. k \<notin> {''v'', ''pretty_name'', ''lifecycle''} \<longrightarrow> map_of w k = map_of vals k)"
  using assms migrate_from_1_0 [of vals nm l 0] migrate_from_1_1 [of vals l 0]
    migrate_from_1_2 [of vals l 0] migrate_loop_current [of vals 0]
  by (auto simp: migrate_def)

theorem migrate_known_versions_witness:
  "\<exists>w. migrate (JObj [(''v'', JStr ''1.0''), (''name'', JStr ''immich'')]) = Inr w
    \<and> map_of w ''v'' = Some (JStr ''1.3'')"
  using migrate_known_versions [of "[(''v'', JStr ''1.0''), (''name'', JStr ''immich'')]"
      "''1.0''" "''immich''" "[]"]
  by (auto simp: lifecycle_object_def)

text \<open>
  C27. The migration loop always ends without tripping its own guard: whatever document is given,
  the result is never the "migration seems to be stuck" exception.
\<close>

theorem migrate_never_stuck: "migrate j \<noteq> Inl MigrationStuck"
proof (cases j)
  case (JObj vals)
  have "migrate_loop 0 vals \<noteq> Inl MigrationStuck"
    by (rule migrate_loop_not_stuck) (simp add: steps_left_le)
  then show ?thesis by (simp add: migrate_def JObj)
qed (simp_all add: migrate_def)

text \<open>
  The 1.3 lifecycle rework: in a version 1.2 document whose lifecycle is not always-on, the
  value of \<open>idle_time_for_shutdown\<close> becomes \<open>idle_for_pause\<close>, the old key is gone, and every other
  lifecycle field, \<open>idle_for_stop\<close> among them, is as before.
\<close>

theorem migrate_idle_time:
  assumes "map_of vals ''v'' = Some (JStr ''1.2'')"
    and "map_of vals ''lifecycle'' = Some (JObj l)"
    and "map_of l ''idle_time_for_shutdown'' = Some (JInt t)"
    and "map_of l ''always_on'' = None"
  shows "\<exists>w m. migrate (JObj vals) = Inr w \<and> map_of w ''lifecycle'' = Some (JObj m)
    \<and> map_of m ''idle_for_pause'' = Some (JInt t)
    \<and> map_of m ''idle_time_for_shutdown'' = None
    \<and> (\<forall>k. k \<notin> {''idle_for_pause'', ''idle_time_for_shutdown''} \<longrightarrow> map_of m k = map_of l k)"
proof -
  have "l \<noteq> []" using assms(3) by auto
  then have "lifecycle_object vals l" using assms(2) by (simp add: lifecycle_object_def)
  then obtain w where w: "migrate_loop 0 vals = Inr w"
      "map_of w ''lifecycle'' = Some (JObj (rename_idle_time l))"
    using migrate_from_1_2 [OF assms(1), of l 0] by auto
  have "rename_idle_time l = dict_set (dict_del l ''idle_time_for_shutdown'') ''idle_for_pause'' (JInt t)"
    using assms(3,4) by (simp add: rename_idle_time_def Let_def)
  with w show ?thesis
    using py_dict.move [OF assms(3), of "''idle_for_pause''"] by (auto simp: migrate_def)
qed

theorem migrate_idle_time_witness:
  "\<exists>w m. migrate (JObj [(''v'', JStr ''1.2''),
       (''lifecycle'', JObj [(''idle_time_for_shutdown'', JInt 60)])]) = Inr w
     \<and> map_of w ''lifecycle'' = Some (JObj m) \<and> map_of m ''idle_for_pause'' = Some (JInt 60)"
  using migrate_idle_time [of "[(''v'', JStr ''1.2''),
       (''lifecycle'', JObj [(''idle_time_for_shutdown'', JInt 60)])]"
      "[(''idle_time_for_shutdown'', JInt 60)]" 60]
  by auto

text \<open>
  The conversion of \<open>Profile.from_shard\<close> is total and keeps the order: \<open>VMSize\<close> of the
  lower-cased backend value exists for every backend size, and two backend sizes compare like
  their converted sizes, so a size check against the profile means what the controller meant.
\<close>

theorem vm_size_conversion_order:
  "\<exists>va vb. vm_size_of (lower (backend_vm_value a)) = Inr va
     \<and> vm_size_of (lower (backend_vm_value b)) = Inr vb
     \<and> (backend_vm_le a b \<longleftrightarrow> va \<le> vb)"
proof -
  have conv: "\<exists>v. vm_size_of (lower (backend_vm_value c)) = Inr v \<and> vm_index v = backend_vm_idx c" for c
    by (cases c) (simp_all add: vm_size_of_def lower_def lower_char_def backend_vm_idx_def
        vm_size_order_def Let_def)
  obtain va vb where "vm_size_of (lower (backend_vm_value a)) = Inr va" "vm_index va = backend_vm_idx a"
      and "vm_size_of (lower (backend_vm_value b)) = Inr vb" "vm_index vb = backend_vm_idx b"
    using conv by metis
  then show ?thesis by (auto simp: backend_vm_le_def less_eq_vm_size_def vm_size_le_def)
qed

end
