(* ===== verification/Database.thy ===== *)
theory Database
  imports Json App_Meta
begin

text \<open>
  The query modules under \<open>database/\<close>.  A table is the list of its rows; a query is an action on the
  table.  PostgreSQL does not promise an order for \<open>SELECT\<close> without \<open>ORDER BY\<close>; the list is the
  order it happened to return, and no property depends on it.  The generic operations come first,
  with the locale \<open>keyed_table\<close> that states what a primary key gives their clients; then one
  section per table with the columns of \<open>migrations/shard-core-0001-init.sql\<close>.
\<close>

section \<open>Generic tables\<close>

definition tbl_ok :: "('r \<Rightarrow> 'k) \<Rightarrow> 'r list \<Rightarrow> bool" where
  "tbl_ok key t \<longleftrightarrow> distinct (map key t)"

definition tbl_find :: "('r \<Rightarrow> 'k) \<Rightarrow> 'k \<Rightarrow> 'r list \<Rightarrow> 'r option" where
  "tbl_find key k t = find (\<lambda>r. key r = k) t"

definition tbl_insert :: "('r \<Rightarrow> 'k) \<Rightarrow> 'r \<Rightarrow> ('r list, 'r) act" where
  "tbl_insert key r t =
     (if tbl_find key (key r) t \<noteq> None then (Inl UniqueViolation, t) else (Inr r, t @ [r]))"

text \<open>\<open>UPDATE ... WHERE key = k RETURNING *\<close> and its \<open>fetchone\<close>.\<close>

definition tbl_update :: "('r \<Rightarrow> 'k) \<Rightarrow> 'k \<Rightarrow> ('r \<Rightarrow> 'r) \<Rightarrow> ('r list, 'r option) act" where
  "tbl_update key k f t =
     (let t' = map (\<lambda>r. if key r = k then f r else r) t in
      (Inr (map_option f (tbl_find key k t)), t'))"

definition tbl_delete :: "('r \<Rightarrow> bool) \<Rightarrow> ('r list, nat) act" where
  "tbl_delete p t = (Inr (length (filter p t)), filter (\<lambda>r. \<not> p r) t)"

text \<open>\<open>INSERT ... ON CONFLICT (key) DO UPDATE\<close>, and \<open>... DO NOTHING\<close>\<close>

definition tbl_upsert :: "('r \<Rightarrow> 'k) \<Rightarrow> 'r \<Rightarrow> ('r list, 'r) act" where
  "tbl_upsert key r t =
     (Inr r, if tbl_find key (key r) t \<noteq> None then map (\<lambda>q. if key q = key r then r else q) t
             else t @ [r])"

definition tbl_insert_ignore :: "('r \<Rightarrow> 'k) \<Rightarrow> 'r \<Rightarrow> ('r list, unit) act" where
  "tbl_insert_ignore key r t = (Inr (), if tbl_find key (key r) t \<noteq> None then t else t @ [r])"

text \<open>The lookup laws of a table with a primary key.\<close>

locale keyed_table =
  fixes key :: "'r \<Rightarrow> 'k"
    and lookup :: "'k \<Rightarrow> 'r list \<Rightarrow> 'r option"
    and ins :: "'r \<Rightarrow> ('r list, 'r) act"
    and upd :: "'k \<Rightarrow> ('r \<Rightarrow> 'r) \<Rightarrow> ('r list, 'r option) act"
    and del :: "'k \<Rightarrow> ('r list, nat) act"
    and ok :: "'r list \<Rightarrow> bool"
  assumes lookup_key: "lookup k t = Some r \<Longrightarrow> key r = k"
    and lookup_ins: "ins r t = (Inr q, t') \<Longrightarrow>
      lookup k t' = (if k = key r then Some r else lookup k t)"
    and ins_fail: "lookup (key r) t \<noteq> None \<Longrightarrow> ins r t = (Inl UniqueViolation, t)"
    and ins_fresh: "lookup (key r) t = None \<Longrightarrow> \<exists>t'. ins r t = (Inr r, t')"
    and lookup_upd: "(\<And>r. key (f r) = key r) \<Longrightarrow>
      lookup k (snd (upd j f t)) = (if k = j then map_option f (lookup j t) else lookup k t)"
    and upd_result: "fst (upd j f t) = Inr (map_option f (lookup j t))"
    and lookup_del: "lookup k (snd (del j t)) = (if k = j then None else lookup k t)"
    and ok_ins: "ok t \<Longrightarrow> ok (snd (ins r t))"
    and ok_upd: "(\<And>r. key (f r) = key r) \<Longrightarrow> ok t \<Longrightarrow> ok (snd (upd j f t))"
    and ok_del: "ok t \<Longrightarrow> ok (snd (del j t))"
begin

lemma insert_then_delete:
  assumes "ins r t = (Inr q, t')" and "lookup (key r) t = None"
  shows "lookup k (snd (del (key r) t')) = lookup k t"
  using assms by (simp add: lookup_del lookup_ins [OF assms(1)])

lemma update_twice:
  assumes "\<And>r. key (f r) = key r" and "\<And>r. key (g r) = key r"
  shows "lookup k (snd (upd j g (snd (upd j f t)))) = lookup k (snd (upd j (g \<circ> f) t))"
  using assms by (simp add: lookup_upd option.map_comp)

lemma update_after_delete:
  assumes "\<And>r. key (f r) = key r"
  shows "fst (upd j f (snd (del j t))) = Inr None"
    and "lookup k (snd (upd j f (snd (del j t)))) = lookup k (snd (del j t))"
  using assms by (simp_all add: upd_result lookup_upd lookup_del)

lemma second_insert_fails:
  assumes "ins r t = (Inr q, t')" and "key r' = key r"
  shows "ins r' t' = (Inl UniqueViolation, t')"
  by (rule ins_fail) (simp add: lookup_ins [OF assms(1)] assms(2))

end

lemma tbl_find_key: "tbl_find key k t = Some r \<Longrightarrow> key r = k"
  by (auto simp: tbl_find_def dest: find_SomeD)

lemma tbl_find_None_iff: "tbl_find key k t = None \<longleftrightarrow> k \<notin> key ` set t"
  by (auto simp: tbl_find_def find_None_all)

lemma tbl_find_map:
  assumes "\<And>r. key (f r) = key r"
  shows "tbl_find key k (map (\<lambda>r. if key r = j then f r else r) t) =
    (if k = j then map_option f (tbl_find key j t) else tbl_find key k t)"
  using assms by (induction t) (auto simp: tbl_find_def)

lemma tbl_find_filter:
  "tbl_find key k (filter (\<lambda>r. key r \<noteq> j) t) = (if k = j then None else tbl_find key k t)"
  by (induction t) (auto simp: tbl_find_def)

lemma tbl_find_snoc:
  "tbl_find key k (t @ [r]) =
     (case tbl_find key k t of Some q \<Rightarrow> Some q | None \<Rightarrow> if key r = k then Some r else None)"
  by (simp add: tbl_find_def find_append split: option.split)

lemma tbl_keyed_table:
  "keyed_table key (tbl_find key) (tbl_insert key) (tbl_update key)
     (\<lambda>k. tbl_delete (\<lambda>r. key r = k)) (tbl_ok key)"
proof
  show "tbl_ok key (snd (tbl_insert key r t))" if "tbl_ok key t" for r t
    using that
    by (auto simp: tbl_ok_def tbl_insert_def tbl_find_def find_None_iff image_iff)
  show "tbl_ok key (snd (tbl_update key j f t))" if "\<And>r. key (f r) = key r" "tbl_ok key t" for j f t
  proof -
    have "map key (map (\<lambda>r. if key r = j then f r else r) t) = map key t"
      using that(1) by simp
    then show ?thesis using that(2) by (simp add: tbl_ok_def tbl_update_def Let_def del: map_map)
  qed
  show "tbl_ok key (snd (tbl_delete (\<lambda>r. key r = j) t))" if "tbl_ok key t" for j t
    using that by (simp add: tbl_ok_def tbl_delete_def distinct_map_filter)
next
  show "tbl_find key k t' = (if k = key r then Some r else tbl_find key k t)"
    if "tbl_insert key r t = (Inr q, t')" for r t q t' k
    using that by (auto simp: tbl_insert_def tbl_find_snoc split: if_splits option.split)
  show "tbl_insert key r t = (Inl UniqueViolation, t)" if "tbl_find key (key r) t \<noteq> None" for r t
    using that by (simp add: tbl_insert_def)
  show "\<exists>t'. tbl_insert key r t = (Inr r, t')" if "tbl_find key (key r) t = None" for r t
    using that by (simp add: tbl_insert_def)
  show "tbl_find key k (snd (tbl_update key j f t))
      = (if k = j then map_option f (tbl_find key j t) else tbl_find key k t)"
    if "\<And>r. key (f r) = key r" for f k j t
    using tbl_find_map [of key f k j t, OF that] by (simp add: tbl_update_def Let_def)
next
  show "key r = k" if "tbl_find key k t = Some r" for k t r
    using that by (rule tbl_find_key)
  show "fst (tbl_update key j f t) = Inr (map_option f (tbl_find key j t))" for j f t
    by (simp add: tbl_update_def Let_def)
  show "tbl_find key k (snd (tbl_delete (\<lambda>r. key r = j) t))
      = (if k = j then None else tbl_find key k t)" for k j t
    by (simp add: tbl_delete_def tbl_find_filter)
qed

section \<open>\<open>LIKE\<close> patterns\<close>

function like :: "string \<Rightarrow> string \<Rightarrow> bool" where
  "like [] s = (s = [])"
| "like (p # ps) s =
     (if p = CHR ''%'' then like ps s \<or> (case s of [] \<Rightarrow> False | c # t \<Rightarrow> like (p # ps) t)
      else if p = CHR 0x5C then
        (case ps of [] \<Rightarrow> False | e # es \<Rightarrow> (case s of [] \<Rightarrow> False | c # t \<Rightarrow> c = e \<and> like es t))
      else (case s of [] \<Rightarrow> False | c # t \<Rightarrow> (p = CHR ''_'' \<or> c = p) \<and> like ps t))"
  by pat_completeness auto
termination
  by (relation "measure (\<lambda>(p, s). length p + length s)") auto

definition wildcard_free :: "string \<Rightarrow> bool" where
  "wildcard_free p \<longleftrightarrow> list_all (\<lambda>c. c \<noteq> CHR ''%'' \<and> c \<noteq> CHR ''_'' \<and> c \<noteq> CHR 0x5C) p"

declare like.simps(2) [simp del]

lemma like_percent [simp]: "like ''%'' s"
  by (induction s) (simp_all add: like.simps(2) [of _ "[]"])

lemma like_literal:
  "p \<noteq> CHR ''%'' \<Longrightarrow> p \<noteq> CHR ''_'' \<Longrightarrow> p \<noteq> CHR 0x5C \<Longrightarrow>
     like (p # ps) s \<longleftrightarrow> (case s of [] \<Rightarrow> False | c # t \<Rightarrow> c = p \<and> like ps t)"
  by (cases s) (simp_all add: like.simps(2) [of p ps])

lemma like_prefix: "wildcard_free p \<Longrightarrow> like (p @ ''%'') s \<longleftrightarrow> starts_with p s"
proof (induction p arbitrary: s)
  case Nil
  show ?case by simp
next
  case (Cons c p)
  then show ?case
    by (cases s) (auto simp: wildcard_free_def starts_with_def like_literal)
qed

section \<open>installed_apps\<close>

record app_row =
  ia_name :: string
  ia_reason :: installation_reason
  ia_status :: app_status
  ia_last_access :: "real option"

definition apps_get_all :: "(app_row list, app_row list) act" where
  "apps_get_all = gets (\<lambda>t. t)"

definition apps_get_by_name :: "string \<Rightarrow> (app_row list, app_row option) act" where
  "apps_get_by_name n = gets (tbl_find ia_name n)"

definition apps_insert :: "app_row \<Rightarrow> (app_row list, app_row) act" where
  "apps_insert = tbl_insert ia_name"

definition apps_update_status :: "string \<Rightarrow> app_status \<Rightarrow> (app_row list, app_row option) act" where
  "apps_update_status n st = tbl_update ia_name n (\<lambda>r. r\<lparr>ia_status := st\<rparr>)"

definition apps_update_last_access :: "string \<Rightarrow> real \<Rightarrow> (app_row list, app_row option) act" where
  "apps_update_last_access n t = tbl_update ia_name n (\<lambda>r. r\<lparr>ia_last_access := Some t\<rparr>)"

definition apps_contains :: "string \<Rightarrow> (app_row list, bool) act" where
  "apps_contains n = gets (\<lambda>t. tbl_find ia_name n t \<noteq> None)"

definition apps_remove :: "string \<Rightarrow> (app_row list, unit) act" where
  "apps_remove n = seq (tbl_delete (\<lambda>r. ia_name r = n)) (ret ())"

definition apps_count :: "(app_row list, nat) act" where
  "apps_count = gets length"

interpretation apps_table:
  keyed_table ia_name "tbl_find ia_name" "tbl_insert ia_name" "tbl_update ia_name"
    "\<lambda>k. tbl_delete (\<lambda>r. ia_name r = k)" "tbl_ok ia_name"
  by (rule tbl_keyed_table)

section \<open>identities\<close>

record identity_row =
  id_id :: string
  id_name :: "string option"
  id_email :: "string option"
  id_description :: "string option"
  id_private_key :: "string option"
  id_is_default :: bool

text \<open>A text column takes a string or null; another value makes the statement fail.\<close>

definition text_cell :: "json \<Rightarrow> string option result" where
  "text_cell v = (case v of JStr s \<Rightarrow> Inr (Some s) | JNull \<Rightarrow> Inr None | _ \<Rightarrow> Inl (OtherError ''DataError''))"

definition set_identity_column :: "string \<Rightarrow> json \<Rightarrow> (identity_row \<Rightarrow> identity_row) result" where
  "set_identity_column k v =
     (if k = ''name'' then bind_res (text_cell v) (\<lambda>c. Inr (id_name_update (\<lambda>_. c)))
      else if k = ''email'' then bind_res (text_cell v) (\<lambda>c. Inr (id_email_update (\<lambda>_. c)))
      else if k = ''description'' then bind_res (text_cell v) (\<lambda>c. Inr (id_description_update (\<lambda>_. c)))
      else if k = ''private_key'' then bind_res (text_cell v) (\<lambda>c. Inr (id_private_key_update (\<lambda>_. c)))
      else if k = ''is_default'' then
        (case v of JBool b \<Rightarrow> Inr (id_is_default_update (\<lambda>_. b)) | _ \<Rightarrow> Inl (OtherError ''DataError''))
      else Inl (ValueError k))"

text \<open>The loop over \<open>data.items()\<close>: the first column that is not updatable raises.\<close>

fun set_clauses :: "(string \<Rightarrow> json \<Rightarrow> ('r \<Rightarrow> 'r) result) \<Rightarrow> dict \<Rightarrow> ('r \<Rightarrow> 'r) result" where
  "set_clauses col [] = Inr (\<lambda>r. r)"
| "set_clauses col ((k, v) # d) =
     bind_res (col k v) (\<lambda>f. bind_res (set_clauses col d) (\<lambda>g. Inr (\<lambda>r. g (f r))))"

definition identities_get_all :: "(identity_row list, identity_row list) act" where
  "identities_get_all = gets (\<lambda>t. t)"

definition identities_get_by_id :: "string \<Rightarrow> (identity_row list, identity_row option) act" where
  "identities_get_by_id i = gets (tbl_find id_id i)"

definition identities_get_default :: "(identity_row list, identity_row option) act" where
  "identities_get_default = gets (find id_is_default)"

definition name_ilike :: "string \<Rightarrow> string option \<Rightarrow> bool" where
  "name_ilike n v = (case v of None \<Rightarrow> False | Some s \<Rightarrow> like (lower (''%'' @ n @ ''%'')) (lower s))"

definition identities_search_by_name :: "string \<Rightarrow> (identity_row list, identity_row list) act" where
  "identities_search_by_name n = gets (filter (\<lambda>r. name_ilike n (id_name r)))"

definition identities_insert :: "identity_row \<Rightarrow> (identity_row list, identity_row) act" where
  "identities_insert = tbl_insert id_id"

definition identities_update :: "string \<Rightarrow> dict \<Rightarrow> (identity_row list, identity_row option) act" where
  "identities_update i data =
     bnd (lift_res (set_clauses set_identity_column data)) (\<lambda>f.
       if data = [] then identities_get_by_id i else tbl_update id_id i f)"

definition identities_count :: "(identity_row list, nat) act" where
  "identities_count = gets length"

interpretation identities_table:
  keyed_table id_id "tbl_find id_id" "tbl_insert id_id" "tbl_update id_id"
    "\<lambda>k. tbl_delete (\<lambda>r. id_id r = k)" "tbl_ok id_id"
  by (rule tbl_keyed_table)

section \<open>terminals\<close>

datatype icon = Icon_UNKNOWN | Icon_SMARTPHONE | Icon_TABLET | Icon_NOTEBOOK | Icon_DESKTOP

record terminal_row =
  tm_id :: string
  tm_name :: string
  tm_icon :: icon
  tm_last_connection :: "real option"

datatype terminal_column = Set_name string | Set_icon icon | Set_last_connection real

fun set_terminal_column :: "terminal_column \<Rightarrow> terminal_row \<Rightarrow> terminal_row" where
  "set_terminal_column (Set_name n) r = r\<lparr>tm_name := n\<rparr>"
| "set_terminal_column (Set_icon i) r = r\<lparr>tm_icon := i\<rparr>"
| "set_terminal_column (Set_last_connection t) r = r\<lparr>tm_last_connection := Some t\<rparr>"

definition terminals_get_all :: "(terminal_row list, terminal_row list) act" where
  "terminals_get_all = gets (\<lambda>t. t)"

definition terminals_get_by_id :: "string \<Rightarrow> (terminal_row list, terminal_row option) act" where
  "terminals_get_by_id i = gets (tbl_find tm_id i)"

definition terminals_get_by_name :: "string \<Rightarrow> (terminal_row list, terminal_row option) act" where
  "terminals_get_by_name n = gets (find (\<lambda>r. tm_name r = n))"

definition terminals_insert :: "terminal_row \<Rightarrow> (terminal_row list, terminal_row) act" where
  "terminals_insert = tbl_insert tm_id"

definition terminals_update ::
    "string \<Rightarrow> terminal_column list \<Rightarrow> (terminal_row list, terminal_row option) act" where
  "terminals_update i data =
     (if data = [] then terminals_get_by_id i
      else tbl_update tm_id i (fold set_terminal_column data))"

definition terminals_remove :: "string \<Rightarrow> (terminal_row list, unit) act" where
  "terminals_remove i = seq (tbl_delete (\<lambda>r. tm_id r = i)) (ret ())"

definition terminals_count :: "(terminal_row list, nat) act" where
  "terminals_count = gets length"

interpretation terminals_table:
  keyed_table tm_id "tbl_find tm_id" "tbl_insert tm_id" "tbl_update tm_id"
    "\<lambda>k. tbl_delete (\<lambda>r. tm_id r = k)" "tbl_ok tm_id"
  by (rule tbl_keyed_table)

section \<open>peers\<close>

record peer_row =
  pe_id :: string
  pe_name :: "string option"
  pe_public_bytes_b64 :: "string option"
  pe_is_reachable :: "bool option"

definition set_peer_column :: "string \<Rightarrow> json \<Rightarrow> (peer_row \<Rightarrow> peer_row) result" where
  "set_peer_column k v =
     (if k = ''name'' then bind_res (text_cell v) (\<lambda>c. Inr (pe_name_update (\<lambda>_. c)))
      else if k = ''public_bytes_b64'' then
        bind_res (text_cell v) (\<lambda>c. Inr (pe_public_bytes_b64_update (\<lambda>_. c)))
      else if k = ''is_reachable'' then
        (case v of
           JBool b \<Rightarrow> Inr (pe_is_reachable_update (\<lambda>_. Some b))
         | JNull \<Rightarrow> Inr (pe_is_reachable_update (\<lambda>_. None))
         | _ \<Rightarrow> Inl (OtherError ''DataError''))
      else Inl (ValueError k))"

definition peers_get_all :: "(peer_row list, peer_row list) act" where
  "peers_get_all = gets (\<lambda>t. t)"

definition peers_get_by_id_prefix :: "string \<Rightarrow> (peer_row list, peer_row option) act" where
  "peers_get_by_id_prefix p = gets (find (\<lambda>r. like (p @ ''%'') (pe_id r)))"

definition peers_search_by_name :: "string \<Rightarrow> (peer_row list, peer_row list) act" where
  "peers_search_by_name n = gets (filter (\<lambda>r. name_ilike n (pe_name r)))"

definition peers_insert :: "peer_row \<Rightarrow> (peer_row list, peer_row) act" where
  "peers_insert = tbl_insert pe_id"

definition peers_upsert :: "peer_row \<Rightarrow> (peer_row list, peer_row) act" where
  "peers_upsert = tbl_upsert pe_id"

definition peers_update_by_id :: "string \<Rightarrow> dict \<Rightarrow> (peer_row list, peer_row option) act" where
  "peers_update_by_id i data =
     bnd (lift_res (set_clauses set_peer_column data)) (\<lambda>f.
       if data = [] then ret None else tbl_update pe_id i f)"

definition peers_update_by_id_prefix :: "string \<Rightarrow> dict \<Rightarrow> (peer_row list, peer_row option) act" where
  "peers_update_by_id_prefix p data =
     bnd (lift_res (set_clauses set_peer_column data)) (\<lambda>f.
       if data = [] then ret None
       else (\<lambda>t. (Inr (map_option f (find (\<lambda>r. like (p @ ''%'') (pe_id r)) t)),
                  map (\<lambda>r. if like (p @ ''%'') (pe_id r) then f r else r) t)))"

definition peers_remove_by_id_prefix :: "string \<Rightarrow> (peer_row list, nat) act" where
  "peers_remove_by_id_prefix p = tbl_delete (\<lambda>r. like (p @ ''%'') (pe_id r))"

interpretation peers_table:
  keyed_table pe_id "tbl_find pe_id" "tbl_insert pe_id" "tbl_update pe_id"
    "\<lambda>k. tbl_delete (\<lambda>r. pe_id r = k)" "tbl_ok pe_id"
  by (rule tbl_keyed_table)

section \<open>tours\<close>

datatype tour_status = SEEN | UNSEEN

record tour_row =
  to_name :: string
  to_status :: tour_status

definition tours_get_all :: "(tour_row list, tour_row list) act" where
  "tours_get_all = gets (\<lambda>t. t)"

definition tours_get_by_name :: "string \<Rightarrow> (tour_row list, tour_row option) act" where
  "tours_get_by_name n = gets (tbl_find to_name n)"

definition tours_upsert :: "tour_row \<Rightarrow> (tour_row list, tour_row) act" where
  "tours_upsert = tbl_upsert to_name"

definition tours_truncate :: "(tour_row list, unit) act" where
  "tours_truncate = modify (\<lambda>_. [])"

section \<open>Tables with a \<open>SERIAL\<close> key\<close>

text \<open>
  \<open>se_last\<close> is the last number the sequence behind the key has issued.  An \<open>INSERT\<close> without the key
  takes the next number; if a row has it already, the statement fails and the number is used up.
\<close>

record 'r serial =
  se_rows :: "'r list"
  se_last :: int

definition empty_serial :: "'r serial" where
  "empty_serial = \<lparr>se_rows = [], se_last = 0\<rparr>"

definition serial_insert :: "('r \<Rightarrow> int) \<Rightarrow> (int \<Rightarrow> 'r) \<Rightarrow> ('r serial, 'r) act" where
  "serial_insert key mk t =
     (let n = se_last t + 1; t' = t\<lparr>se_last := n\<rparr> in
      if tbl_find key n (se_rows t) \<noteq> None then (Inl UniqueViolation, t')
      else (Inr (mk n), t'\<lparr>se_rows := se_rows t @ [mk n]\<rparr>))"

text \<open>\<open>INSERT\<close> with the key given, \<open>ON CONFLICT DO NOTHING\<close>\<close>

definition serial_insert_ignore :: "('r \<Rightarrow> int) \<Rightarrow> 'r \<Rightarrow> ('r serial, unit) act" where
  "serial_insert_ignore key r t =
     (Inr (), if tbl_find key (key r) (se_rows t) \<noteq> None then t else t\<lparr>se_rows := se_rows t @ [r]\<rparr>)"

text \<open>\<open>setval(seq, COALESCE(MAX(key), 1))\<close>\<close>

definition serial_setval :: "('r \<Rightarrow> int) \<Rightarrow> ('r serial, unit) act" where
  "serial_setval key =
     modify (\<lambda>t. t\<lparr>se_last := (if se_rows t = [] then 1 else Max (set (map key (se_rows t))))\<rparr>)"

text \<open>The rows have distinct keys, all of them issued.\<close>

definition serial_ok :: "('r \<Rightarrow> int) \<Rightarrow> 'r serial \<Rightarrow> bool" where
  "serial_ok key t \<longleftrightarrow> tbl_ok key (se_rows t) \<and> list_all (\<lambda>r. key r \<le> se_last t) (se_rows t)"

lemma serial_insert_fresh:
  assumes "serial_ok key t"
  shows "serial_insert key mk t =
    (Inr (mk (se_last t + 1)), \<lparr>se_rows = se_rows t @ [mk (se_last t + 1)], se_last = se_last t + 1\<rparr>)"
proof -
  have "tbl_find key (se_last t + 1) (se_rows t) = None"
    using assms by (force simp: serial_ok_def tbl_find_def find_None_all list_all_iff)
  then show ?thesis by (simp add: serial_insert_def Let_def)
qed

lemma serial_setval_ok:
  assumes "tbl_ok key (se_rows t)"
  shows "serial_ok key (snd (serial_setval key t))"
  using assms by (auto simp: serial_setval_def serial_ok_def modify_def list_all_iff)

section \<open>backups and app_usage_tracks\<close>

text \<open>
  The columns \<open>start_time\<close> and \<open>end_time\<close> of \<open>backups\<close> may be null, and a \<open>JSONB\<close> column holds any
  value.  The records are those of \<open>data_model/backup.py\<close>.
\<close>

record backup_stats =
  bs_directory :: string
  bs_start_time :: real
  bs_end_time :: real
  bs_rclone_stats :: dict

record backup_report =
  br_directories :: "backup_stats list"
  br_start_time :: real
  br_end_time :: real

definition backup_stats_dump :: "backup_stats \<Rightarrow> json" where
  "backup_stats_dump d =
     JObj [(''directory'', JStr (bs_directory d)), (''startTime'', JTime (bs_start_time d)),
           (''endTime'', JTime (bs_end_time d)), (''rclone_stats'', JObj (bs_rclone_stats d))]"

record backup_row =
  bk_id :: int
  bk_directories :: json
  bk_start_time :: "real option"
  bk_end_time :: "real option"

definition backups_insert :: "backup_report \<Rightarrow> (backup_row serial, backup_row) act" where
  "backups_insert report =
     serial_insert bk_id (\<lambda>n.
       \<lparr>bk_id = n, bk_directories = JArr (map backup_stats_dump (br_directories report)),
        bk_start_time = Some (br_start_time report), bk_end_time = Some (br_end_time report)\<rparr>)"

text \<open>\<open>ORDER BY end_time DESC LIMIT 1\<close>; null comes first in a descending order.\<close>

fun desc_before :: "real option \<Rightarrow> real option \<Rightarrow> bool" where
  "desc_before None (Some _) = True"
| "desc_before (Some x) (Some y) = (x > y)"
| "desc_before _ None = False"

fun latest_backup :: "backup_row list \<Rightarrow> backup_row option" where
  "latest_backup [] = None"
| "latest_backup (r # rs) =
     (case latest_backup rs of
        None \<Rightarrow> Some r
      | Some q \<Rightarrow> if desc_before (bk_end_time q) (bk_end_time r) then Some q else Some r)"

definition backups_get_latest :: "(backup_row serial, (json \<times> real option \<times> real option) option) act" where
  "backups_get_latest =
     gets (\<lambda>t. map_option (\<lambda>r. (bk_directories r, bk_start_time r, bk_end_time r))
                 (latest_backup (se_rows t)))"

record usage_row =
  us_id :: int
  us_timestamp :: real
  us_installed_apps :: json

definition usage_insert :: "real \<Rightarrow> json \<Rightarrow> (usage_row serial, usage_row) act" where
  "usage_insert timestamp apps =
     serial_insert us_id (\<lambda>n. \<lparr>us_id = n, us_timestamp = timestamp, us_installed_apps = apps\<rparr>)"

definition usage_search_by_time_range :: "real \<Rightarrow> real \<Rightarrow> (usage_row serial, usage_row list) act" where
  "usage_search_by_time_range start stop =
     gets (\<lambda>t. filter (\<lambda>r. start \<le> us_timestamp r \<and> us_timestamp r < stop) (se_rows t))"

definition usage_truncate :: "(usage_row serial, unit) act" where
  "usage_truncate = modify (\<lambda>t. t\<lparr>se_rows := []\<rparr>)"

lemma latest_backup_None [simp]: "latest_backup rs = None \<longleftrightarrow> rs = []"
  by (cases rs) (auto split: option.splits)

lemma latest_backup_max:
  assumes "latest_backup rs = Some r"
  shows "r \<in> set rs \<and> (\<forall>q \<in> set rs. \<not> desc_before (bk_end_time q) (bk_end_time r))"
  using assms
proof (induction rs arbitrary: r)
  case Nil
  then show ?case by simp
next
  case (Cons a rs)
  have irrefl: "\<not> desc_before x x" for x by (cases x) simp_all
  have neg_trans: "\<not> desc_before x y \<Longrightarrow> \<not> desc_before y z \<Longrightarrow> \<not> desc_before x z" for x y z
    by (cases x; cases y; cases z) simp_all
  have asym: "desc_before x y \<Longrightarrow> \<not> desc_before y x" for x y
    by (cases x; cases y) simp_all
  show ?case
  proof (cases "latest_backup rs")
    case None
    with Cons.prems show ?thesis by (simp add: irrefl)
  next
    case (Some q)
    have IH: "q \<in> set rs" "\<And>x. x \<in> set rs \<Longrightarrow> \<not> desc_before (bk_end_time x) (bk_end_time q)"
      using Cons.IH [OF Some] by auto
    show ?thesis
    proof (cases "desc_before (bk_end_time q) (bk_end_time a)")
      case True
      then have "r = q" using Cons.prems Some by simp
      then show ?thesis using IH asym [OF True] by simp
    next
      case False
      then have "r = a" using Cons.prems Some by simp
      moreover have "\<not> desc_before (bk_end_time x) (bk_end_time a)" if "x \<in> set rs" for x
        by (rule neg_trans [OF IH(2) [OF that] False])
      ultimately show ?thesis using irrefl by simp
    qed
  qed
qed

section \<open>kv_store\<close>

definition kv_get_value :: "string \<Rightarrow> (dict, json) act" where
  "kv_get_value k = bnd (gets (\<lambda>t. map_of t k)) (\<lambda>v.
     case v of None \<Rightarrow> raise (KeyError k) | Some x \<Rightarrow> ret x)"

definition kv_set_value :: "string \<Rightarrow> json \<Rightarrow> (dict, unit) act" where
  "kv_set_value k v = modify (\<lambda>t. dict_set t k v)"

definition kv_remove_value :: "string \<Rightarrow> (dict, bool) act" where
  "kv_remove_value k t = (Inr (map_of t k \<noteq> None), dict_del t k)"

end
