(* ===== verification/File_System.thy ===== *)
theory File_System
  imports Prelude
begin

text \<open>
  The part of \<open>pathlib\<close>, \<open>shutil\<close> and \<open>open\<close> that the program uses.  An absolute path is the list
  of its components; the file system maps a path to a directory or a file with its content.
  Symbolic links are not modelled: nothing in the program creates one.
\<close>

type_synonym path = "string list"

datatype node = Dir | File string

type_synonym fs = "path \<Rightarrow> node option"

section \<open>Pure paths\<close>

text \<open>\<open>Path(s).parts\<close> without the root: empty components and dots disappear.\<close>

definition path_comps :: "string \<Rightarrow> string list" where
  "path_comps s = filter (\<lambda>c. c \<noteq> [] \<and> c \<noteq> ''.'') (split_on CHR ''/'' s)"

definition is_absolute :: "string \<Rightarrow> bool" where
  "is_absolute s \<longleftrightarrow> starts_with ''/'' s"

definition path_parts :: "string \<Rightarrow> string list" where
  "path_parts s = (if is_absolute s then [''/''] else []) @ path_comps s"

text \<open>\<open>Path(s).name\<close>\<close>

definition path_name :: "string \<Rightarrow> string" where
  "path_name s = (if path_comps s = [] then [] else last (path_comps s))"

text \<open>\<open>base / s\<close>: an absolute right operand replaces the left one.\<close>

definition path_join :: "path \<Rightarrow> string \<Rightarrow> path" where
  "path_join base s = (if is_absolute s then path_comps s else base @ path_comps s)"

text \<open>\<open>resolve()\<close>: a double dot removes the component before it.\<close>

fun resolve_from :: "path \<Rightarrow> path \<Rightarrow> path" where
  "resolve_from acc [] = acc"
| "resolve_from acc (c # cs) =
     (if c = ''..'' then resolve_from (butlast acc) cs else resolve_from (acc @ [c]) cs)"

definition resolve :: "path \<Rightarrow> path" where
  "resolve p = resolve_from [] p"

text \<open>\<open>p.parent\<close> and \<open>q in p.parents\<close>\<close>

definition parent :: "path \<Rightarrow> path" where
  "parent p = butlast p"

definition in_parents :: "path \<Rightarrow> path \<Rightarrow> bool" where
  "in_parents q p \<longleftrightarrow> length q < length p \<and> take (length q) p = q"

text \<open>\<open>str(path)\<close> below a root directory\<close>

definition path_str :: "path \<Rightarrow> string" where
  "path_str p = (if p = [] then ''/'' else concat (map (\<lambda>c. CHR ''/'' # c) p))"

lemma in_parents_iff: "in_parents q p \<longleftrightarrow> (\<exists>r. r \<noteq> [] \<and> p = q @ r)"
  by (auto simp: in_parents_def) (metis append_take_drop_id drop_eq_Nil leD)

lemma resolve_from_no_dots: "''..'' \<notin> set cs \<Longrightarrow> resolve_from acc cs = acc @ cs"
  by (induction cs arbitrary: acc) auto

lemma resolve_no_dots: "''..'' \<notin> set p \<Longrightarrow> resolve p = p"
  by (simp add: resolve_def resolve_from_no_dots)

section \<open>Operations\<close>

definition fs_exists :: "fs \<Rightarrow> path \<Rightarrow> bool" where
  "fs_exists fs p \<longleftrightarrow> fs p \<noteq> None"

definition fs_is_file :: "fs \<Rightarrow> path \<Rightarrow> bool" where
  "fs_is_file fs p \<longleftrightarrow> (case fs p of Some (File _) \<Rightarrow> True | _ \<Rightarrow> False)"

definition fs_is_dir :: "fs \<Rightarrow> path \<Rightarrow> bool" where
  "fs_is_dir fs p \<longleftrightarrow> fs p = Some Dir"

definition fs_read :: "fs \<Rightarrow> path \<Rightarrow> string result" where
  "fs_read fs p =
     (case fs p of
        Some (File c) \<Rightarrow> Inr c
      | Some Dir \<Rightarrow> Inl OSError
      | None \<Rightarrow> (if fs_is_file fs (parent p) then Inl OSError else Inl FileNotFoundError))"

text \<open>\<open>mkdir(parents=True, exist_ok=True)\<close>, from the top down.\<close>

fun fs_mkdirs_from :: "path \<Rightarrow> path \<Rightarrow> fs \<Rightarrow> exn option \<times> fs" where
  "fs_mkdirs_from acc [] fs = (None, fs)"
| "fs_mkdirs_from acc (c # cs) fs =
     (let q = acc @ [c] in
      case fs q of
        None \<Rightarrow> fs_mkdirs_from q cs (fs(q \<mapsto> Dir))
      | Some Dir \<Rightarrow> fs_mkdirs_from q cs fs
      | Some (File _) \<Rightarrow> (Some FileExistsError, fs))"

definition fs_mkdirs :: "path \<Rightarrow> (fs, unit) act" where
  "fs_mkdirs p fs =
     (case fs_mkdirs_from [] p fs of (None, fs') \<Rightarrow> (Inr (), fs') | (Some e, fs') \<Rightarrow> (Inl e, fs'))"

text \<open>\<open>open(p, "wb").write(c)\<close>\<close>

definition fs_write :: "path \<Rightarrow> string \<Rightarrow> (fs, unit) act" where
  "fs_write p c fs =
     (if fs p = Some Dir then (Inl OSError, fs)
      else if p \<noteq> [] \<and> parent p \<noteq> [] \<and> fs (parent p) \<noteq> Some Dir then (Inl FileNotFoundError, fs)
      else (Inr (), fs(p \<mapsto> File c)))"

definition fs_unlink :: "path \<Rightarrow> (fs, unit) act" where
  "fs_unlink p fs =
     (case fs p of
        Some (File _) \<Rightarrow> (Inr (), fs(p := None))
      | Some Dir \<Rightarrow> (Inl OSError, fs)
      | None \<Rightarrow> (Inl FileNotFoundError, fs))"

text \<open>The removal of a whole directory\<close>

definition fs_rmtree :: "path \<Rightarrow> fs \<Rightarrow> fs" where
  "fs_rmtree p fs = (if fs p = Some Dir then (\<lambda>q. if starts_with p q then None else fs q) else fs)"

text \<open>
  What \<open>shutil.rmtree(p, ignore_errors=True)\<close> does when the paths \<open>left\<close> cannot be deleted: they stay,
  and with them the directories they are in.
\<close>

definition fs_rmtree_leaving :: "path list \<Rightarrow> path \<Rightarrow> fs \<Rightarrow> fs" where
  "fs_rmtree_leaving left p fs =
     (if fs p = Some Dir
      then (\<lambda>q. if starts_with p q \<and> \<not> list_ex (starts_with q) left then None else fs q)
      else fs)"

text \<open>\<open>shutil.move(src, dst)\<close> of a file, and the atomic \<open>replace\<close>\<close>

definition fs_move :: "path \<Rightarrow> path \<Rightarrow> (fs, unit) act" where
  "fs_move src dst fs =
     (case fs src of
        Some (File c) \<Rightarrow>
          (if fs dst = Some Dir then (Inl OSError, fs) else (Inr (), fs(src := None, dst \<mapsto> File c)))
      | Some Dir \<Rightarrow> (Inl OSError, fs)
      | None \<Rightarrow> (Inl FileNotFoundError, fs))"

section \<open>What an operation may touch\<close>

text \<open>Creating directories only turns absent prefixes of the path into directories.\<close>

lemma fs_mkdirs_from_changes:
  "fs_mkdirs_from acc cs fs = (r, fs') \<Longrightarrow> fs' q \<noteq> fs q \<Longrightarrow>
     fs q = None \<and> fs' q = Some Dir \<and> (\<exists>n. q = acc @ take n cs \<and> n \<le> length cs \<and> n \<noteq> 0)"
proof (induction acc cs fs arbitrary: r rule: fs_mkdirs_from.induct)
  case (1 acc fs)
  then show ?case by simp
next
  case (2 acc c cs fs)
  show ?case
  proof (cases "fs (acc @ [c])")
    case None
    let ?fs1 = "fs(acc @ [c] \<mapsto> Dir)"
    have step: "fs_mkdirs_from (acc @ [c]) cs ?fs1 = (r, fs')"
      using "2.prems"(1) None by (simp add: Let_def)
    show ?thesis
    proof (cases "fs' q = ?fs1 q")
      case True
      then show ?thesis using "2.prems"(2) None
        by (intro conjI exI [of _ 1]) (auto split: if_splits)
    next
      case False
      from "2.IH"(1) [OF refl None step False] obtain n where
        "?fs1 q = None" "fs' q = Some Dir" "q = (acc @ [c]) @ take n cs" "n \<le> length cs" by blast
      then show ?thesis by (intro conjI exI [of _ "Suc n"]) (auto split: if_splits)
    qed
  next
    case (Some nd)
    show ?thesis
    proof (cases nd)
      case Dir
      have step: "fs_mkdirs_from (acc @ [c]) cs fs = (r, fs')"
        using "2.prems"(1) Some Dir by (simp add: Let_def)
      from "2.IH"(2) [OF refl Some Dir step "2.prems"(2)] obtain n where
        "fs q = None" "fs' q = Some Dir" "q = (acc @ [c]) @ take n cs" "n \<le> length cs" by blast
      then show ?thesis by (intro conjI exI [of _ "Suc n"]) auto
    next
      case (File x)
      then show ?thesis using "2.prems" Some by (simp add: Let_def)
    qed
  qed
qed

lemma fs_mkdirs_changes:
  assumes "fs_mkdirs p fs = (r, fs')" and "fs' q \<noteq> fs q"
  shows "fs q = None \<and> fs' q = Some Dir \<and> q \<noteq> [] \<and> (\<exists>n. q = take n p)"
proof -
  obtain r' where "fs_mkdirs_from [] p fs = (r', fs')"
    using assms(1) by (auto simp: fs_mkdirs_def split: prod.splits option.splits)
  from fs_mkdirs_from_changes [OF this assms(2)] show ?thesis by auto
qed

lemma fs_write_changes:
  assumes "fs_write p c fs = (r, fs')" and "fs' q \<noteq> fs q"
  shows "q = p"
  using assms by (auto simp: fs_write_def split: if_splits)

lemma fs_rmtree_gone: "fs p = Some Dir \<Longrightarrow> starts_with p q \<Longrightarrow> fs_rmtree p fs q = None"
  by (simp add: fs_rmtree_def)

lemma fs_rmtree_other: "\<not> starts_with p q \<Longrightarrow> fs_rmtree p fs q = fs q"
  by (simp add: fs_rmtree_def)

end
