(* ===== verification/Compose_Command.thy ===== *)
theory Compose_Command
  imports File_System
begin

text \<open>
  \<open>util/subprocess.py\<close>: running a program and building the compose command that is pinned to one
  app.  What a process does is not in the repository: a run is described by its outcome.
\<close>

datatype outcome =
    Exited int string string  \<comment> \<open>return code, stdout, stderr\<close>
  | No_Such_Program
  | Timed_Out

definition COMPOSE_FILE_NAME :: string where
  "COMPOSE_FILE_NAME = ''docker-compose.yml''"

definition CORE_PROJECT_NAME :: string where
  "CORE_PROJECT_NAME = ''core''"

text \<open>\<open>subprocess\<close>: stdout of a run that exits with 0, \<open>SubprocessError\<close> with both streams otherwise.\<close>

definition subprocess_result :: "string \<Rightarrow> outcome \<Rightarrow> string result" where
  "subprocess_result process_repr oc =
     (case oc of
        Exited rc out err \<Rightarrow>
          (if rc \<noteq> 0
           then Inl (SubprocessError (''['' @ process_repr @ '' exited with '' @ int_str rc @ '']'' @
                  [CHR 0x0A] @ ''[stdout]'' @ [CHR 0x0A] @ out @ ''[stderr]'' @ [CHR 0x0A] @ err))
           else Inr out)
      | No_Such_Program \<Rightarrow> Inl FileNotFoundError
      | Timed_Out \<Rightarrow> Inl OSError)"

text \<open>\<open>_detect_compose_command\<close>, from the outcome of \<open>docker compose version\<close>.\<close>

definition detect_compose_command :: "outcome \<Rightarrow> string list" where
  "detect_compose_command oc =
     (case oc of
        Exited rc out err \<Rightarrow> (if rc = 0 then [''docker'', ''compose''] else [''docker-compose''])
      | No_Such_Program \<Rightarrow> [''docker-compose'']
      | Timed_Out \<Rightarrow> [''docker-compose''])"

definition valid_project_char :: "char \<Rightarrow> bool" where
  "valid_project_char c \<longleftrightarrow>
     (let n = (of_char c :: nat) in 97 \<le> n \<and> n \<le> 122) \<or> is_digit c \<or> c = CHR ''_'' \<or> c = CHR ''-''"

definition normalize_project_name :: "string \<Rightarrow> string" where
  "normalize_project_name name =
     dropWhile (\<lambda>c. c \<in> set ''_-'') (filter valid_project_char (lower name))"

definition app_compose_command :: "string list \<Rightarrow> fs \<Rightarrow> path \<Rightarrow> string list result" where
  "app_compose_command compose fs app_dir =
     (let compose_file = app_dir @ [COMPOSE_FILE_NAME] in
      if \<not> fs_is_file fs compose_file then Inl ComposeFileNotFound
      else
        (let project_name = normalize_project_name (last app_dir) in
         if project_name = [] then Inl ComposeProjectNotAllowed
         else if project_name = CORE_PROJECT_NAME then Inl ComposeProjectNotAllowed
         else Inr (compose @ [''-f'', path_str compose_file, ''-p'', project_name,
                              ''--project-directory'', path_str app_dir])))"

section \<open>Lemmas\<close>

lemma valid_project_char_lower [simp]: "valid_project_char c \<Longrightarrow> lower_char c = c"
  by (auto simp: valid_project_char_def lower_char_def Let_def is_digit_def)

lemma lower_valid: "list_all valid_project_char s \<Longrightarrow> lower s = s"
  by (induction s) (auto simp: lower_def)

lemma normalize_valid: "list_all valid_project_char (normalize_project_name name)"
  unfolding normalize_project_name_def list_all_iff
  by (auto dest!: set_dropWhileD)

lemma normalize_hd:
  "normalize_project_name name \<noteq> [] \<Longrightarrow> hd (normalize_project_name name) \<notin> {CHR ''_'', CHR ''-''}"
  unfolding normalize_project_name_def using hd_dropWhile [of "\<lambda>c. c \<in> set ''_-''"] by auto

section \<open>Properties\<close>

text \<open>
  Normalisation is a projection: a normalised project name consists of \<open>[a-z0-9_-]\<close>, does not
  begin with an underscore or a dash, and normalising it again changes nothing, so two apps share
  a compose project exactly when their normalised names are equal.
\<close>

theorem normalize_project_name_idempotent:
  "normalize_project_name (normalize_project_name name) = normalize_project_name name"
proof -
  let ?n = "normalize_project_name name"
  have "filter valid_project_char (lower ?n) = ?n"
    using normalize_valid [of name] by (simp add: lower_valid list_all_iff)
  moreover have "dropWhile (\<lambda>c. c \<in> set ''_-'') ?n = ?n"
    using normalize_hd [of name] by (cases ?n) auto
  ultimately show ?thesis
    by (simp add: normalize_project_name_def [of ?n])
qed

text \<open>
  An app command can never reach the core stack: whenever \<open>app_compose_command\<close> returns a
  command, the app's own compose file exists, the command pins \<open>-f\<close> to it, \<open>-p\<close> to a project that
  is non-empty, made of \<open>[a-z0-9_-]\<close> and different from the core project, and the project directory
  to the app directory; in every other case it raises instead of returning an unpinned command.
\<close>

theorem app_compose_command_pinned:
  assumes "app_compose_command compose fs app_dir = Inr cmd"
  shows "\<exists>project. cmd = compose @ [''-f'', path_str (app_dir @ [''docker-compose.yml'']), ''-p'', project,
             ''--project-directory'', path_str app_dir]
     \<and> fs_is_file fs (app_dir @ [''docker-compose.yml''])
     \<and> project = normalize_project_name (last app_dir)
     \<and> project \<noteq> ''core'' \<and> project \<noteq> [] \<and> list_all valid_project_char project"
  using assms normalize_valid [of "last app_dir"]
  by (auto simp: app_compose_command_def Let_def COMPOSE_FILE_NAME_def CORE_PROJECT_NAME_def
      split: if_splits)

theorem app_compose_command_pinned_witness:
  "\<exists>cmd. app_compose_command [''docker'', ''compose'']
        (\<lambda>p. if p = [''core'', ''immich'', ''docker-compose.yml''] then Some (File []) else None)
        [''core'', ''immich''] = Inr cmd \<and> ''immich'' \<in> set cmd"
proof -
  let ?fs = "\<lambda>p. if p = [''core'', ''immich'', ''docker-compose.yml''] then Some (File []) else None"
  let ?cmd = "[''docker'', ''compose'', ''-f'', ''/core/immich/docker-compose.yml'', ''-p'', ''immich'',
      ''--project-directory'', ''/core/immich'']"
  have "app_compose_command [''docker'', ''compose''] ?fs [''core'', ''immich''] = Inr ?cmd"
    by code_simp
  then show ?thesis
    using app_compose_command_pinned [of "[''docker'', ''compose'']" ?fs "[''core'', ''immich'']" ?cmd]
    by auto
qed

end
