(* ===== verification/App_Zip.thy ===== *)
theory App_Zip
  imports App_Meta File_System
begin

text \<open>
  \<open>service/app_installation/app_zip.py\<close>: checking and unpacking an app archive.  What \<open>zipfile\<close>
  reads from the file is an \<open>archive\<close>: the entries in order with their contents; a file that is no archive
  at all is \<open>None\<close>.
\<close>

text \<open>
  An entry that can be read, one that cannot be opened, and one whose decompression fails
  (\<open>BadZipFile\<close>) after the given part.
\<close>

datatype zip_content = Whole string | Unreadable | Broken string

type_synonym archive = "(string \<times> zip_content) list"

definition REQUIRED_FILES :: "string list" where
  "REQUIRED_FILES = [''app_meta.json'', ''docker-compose.yml.template'']"

text \<open>\<open>APP_NAME_PATTERN.fullmatch\<close>\<close>

definition valid_app_name :: "string \<Rightarrow> bool" where
  "valid_app_name n =
     (case n of
        [] \<Rightarrow> False
      | c # cs \<Rightarrow> (is_alpha c \<or> is_digit c) \<and> length cs \<le> 63
                \<and> list_all (\<lambda>d. is_alpha d \<or> is_digit d \<or> d = CHR ''_'' \<or> d = CHR ''-'') cs)"

text \<open>\<open>ZipInfo.is_dir\<close>\<close>

definition is_dir_entry :: "string \<Rightarrow> bool" where
  "is_dir_entry n \<longleftrightarrow> ends_with ''/'' n"

definition is_archiver_cruft :: "string \<Rightarrow> bool" where
  "is_archiver_cruft name \<longleftrightarrow> starts_with ''__MACOSX/'' name \<or> path_name name = ''.DS_Store''"

definition illegal_member :: "string \<Rightarrow> bool" where
  "illegal_member name \<longleftrightarrow>
     starts_with ''/'' name \<or> ''..'' \<in> set (path_parts name) \<or> is_absolute name"

definition member_names :: "archive \<Rightarrow> string list result" where
  "member_names z =
     (let names = filter (\<lambda>n. \<not> is_dir_entry n \<and> \<not> is_archiver_cruft n) (map fst z) in
      if names = [] then Inl (InvalidAppZip ''empty'')
      else if list_ex illegal_member names then Inl (InvalidAppZip ''illegal path'')
      else Inr names)"

text \<open>\<open>_find_root\<close>: the set of first components has one element when all of them are equal.\<close>

definition find_root :: "string list \<Rightarrow> string result" where
  "find_root names =
     (if ''app_meta.json'' \<in> set names then Inr []
      else
        (let top_level = remdups (map (\<lambda>n. hd (split_on CHR ''/'' n)) names) in
         case top_level of
           [t] \<Rightarrow> (let rt = t @ ''/'' in
                  if rt @ ''app_meta.json'' \<in> set names then Inr rt
                  else Inl (InvalidAppZip ''no app_meta.json''))
         | _ \<Rightarrow> Inl (InvalidAppZip ''no app_meta.json'')))"

text \<open>\<open>zip_ref.read(name)\<close>: of several entries with one name, the last one.\<close>

definition zip_read :: "archive \<Rightarrow> string \<Rightarrow> string result" where
  "zip_read z n =
     (case map_of (rev z) n of
        None \<Rightarrow> Inl (KeyError n)
      | Some (Whole c) \<Rightarrow> Inr c
      | Some _ \<Rightarrow> Inl BadZipFile)"

definition parse_app_meta :: "meta_parser \<Rightarrow> string \<Rightarrow> app_meta result" where
  "parse_app_meta P raw =
     (case load_meta P raw of Inl _ \<Rightarrow> Inl (InvalidAppZip ''app_meta.json is invalid'') | Inr m \<Rightarrow> Inr m)"

definition validate_app_zip :: "meta_parser \<Rightarrow> archive option \<Rightarrow> app_meta result" where
  "validate_app_zip P zf =
     (case zf of
        None \<Rightarrow> Inl (InvalidAppZip ''not a valid zip archive'')
      | Some z \<Rightarrow>
          bind_res (member_names z) (\<lambda>names.
          bind_res (find_root names) (\<lambda>rt.
          if list_ex (\<lambda>r. rt @ r \<notin> set names) REQUIRED_FILES
          then Inl (InvalidAppZip ''required file missing'')
          else (case zip_read z (rt @ ''app_meta.json'') of
                  Inl BadZipFile \<Rightarrow> Inl (InvalidAppZip ''not a valid zip archive'')
                | Inl e \<Rightarrow> Inl e
                | Inr raw \<Rightarrow>
                    bind_res (parse_app_meta P raw) (\<lambda>app_meta.
                    if \<not> valid_app_name (am_name app_meta)
                    then Inl (InvalidAppZip ''invalid app name'')
                    else Inr app_meta)))))"

text \<open>
  \<open>with zip_ref.open(name) as source, open(target, "wb") as f: copyfileobj(source, f)\<close>: what could be
  decompressed before a failure is in the target.
\<close>

definition copy_member :: "archive \<Rightarrow> string \<Rightarrow> path \<Rightarrow> (fs, unit) act" where
  "copy_member z n target =
     (case map_of (rev z) n of
        None \<Rightarrow> raise (KeyError n)
      | Some (Whole c) \<Rightarrow> fs_write target c
      | Some Unreadable \<Rightarrow> raise BadZipFile
      | Some (Broken c) \<Rightarrow> seq (fs_write target c) (raise BadZipFile))"

text \<open>One round of the loop of \<open>extract_app_zip\<close>.\<close>

definition extract_member :: "archive \<Rightarrow> path \<Rightarrow> string \<Rightarrow> string \<Rightarrow> (fs, unit) act" where
  "extract_member z target_dir rt name =
     (let relative = drop (length rt) name;
          target = resolve (path_join target_dir relative)
      in if relative = [] \<or> \<not> in_parents (resolve target_dir) target
         then raise (InvalidAppZip ''illegal path'')
         else seq (fs_mkdirs (parent target)) (copy_member z name target))"

definition extract_app_zip :: "archive option \<Rightarrow> path \<Rightarrow> (fs, unit) act" where
  "extract_app_zip zf target_dir =
     (case zf of
        None \<Rightarrow> raise BadZipFile
      | Some z \<Rightarrow>
          bnd (lift_res (member_names z)) (\<lambda>names.
          bnd (lift_res (find_root names)) (\<lambda>rt.
          for_each (extract_member z target_dir rt) names)))"

section \<open>Lemmas\<close>

lemma find_root_Inr:
  assumes "find_root names = Inr rt"
  shows "rt @ ''app_meta.json'' \<in> set names"
    and "n \<in> set names \<Longrightarrow> rt = [] \<or> rt = takeWhile (\<lambda>c. c \<noteq> CHR ''/'') n @ ''/''"
proof -
  show "rt @ ''app_meta.json'' \<in> set names"
    using assms by (auto simp: find_root_def Let_def split: if_splits list.splits)
  assume n: "n \<in> set names"
  show "rt = [] \<or> rt = takeWhile (\<lambda>c. c \<noteq> CHR ''/'') n @ ''/''"
  proof (cases "''app_meta.json'' \<in> set names")
    case True
    then show ?thesis using assms by (simp add: find_root_def)
  next
    case False
    then obtain t where t: "remdups (map (\<lambda>n. hd (split_on CHR ''/'' n)) names) = [t]"
        and rt: "rt = t @ ''/''"
      using assms by (auto simp: find_root_def Let_def split: if_splits list.splits)
    from t have "set (map (\<lambda>n. hd (split_on CHR ''/'' n)) names) = {t}"
      by (metis empty_set list.simps(15) set_remdups)
    with n have "hd (split_on CHR ''/'' n) = t" by auto
    with rt show ?thesis by (simp add: hd_split_on)
  qed
qed

text \<open>The frame of the extraction: what lies outside the target directory stays as it is.\<close>

definition below_only :: "path \<Rightarrow> fs \<Rightarrow> fs \<Rightarrow> bool" where
  "below_only d fs fs' \<longleftrightarrow> (fs d = Some Dir \<longrightarrow> fs' d = Some Dir \<and> (\<forall>q. \<not> in_parents d q \<longrightarrow> fs' q = fs q))"

text \<open>Directories above an existing directory exist.\<close>

definition parents_exist :: "fs \<Rightarrow> path \<Rightarrow> bool" where
  "parents_exist fs d \<longleftrightarrow> (\<forall>n \<le> length d. n \<noteq> 0 \<longrightarrow> fs (take n d) = Some Dir)"

definition confined :: "path \<Rightarrow> fs \<Rightarrow> fs \<Rightarrow> bool" where
  "confined d fs fs' \<longleftrightarrow>
     (parents_exist fs d \<longrightarrow> parents_exist fs' d \<and> (\<forall>q. \<not> in_parents d q \<longrightarrow> fs' q = fs q))"

interpretation confined: frame "confined d"
  by unfold_locales (auto simp: confined_def)

lemma parents_exist_below:
  assumes "\<And>q. \<not> in_parents d q \<Longrightarrow> fs' q = fs q" and "parents_exist fs d"
  shows "parents_exist fs' d"
proof -
  have "\<not> in_parents d (take n d)" for n by (simp add: in_parents_def)
  with assms show ?thesis by (simp add: parents_exist_def)
qed

lemma confined_mkdirs:
  assumes "in_parents d t"
  shows "moves (confined d) (fs_mkdirs (parent t))"
proof (rule movesI)
  fix fs
  obtain r fs' where m: "fs_mkdirs (parent t) fs = (r, fs')" by fastforce
  have "fs' q = fs q" if "parents_exist fs d" "\<not> in_parents d q" for q
  proof (rule ccontr)
    assume ch: "fs' q \<noteq> fs q"
    from fs_mkdirs_changes [OF m ch] obtain n where none: "fs q = None" and "q \<noteq> []"
        and q: "q = take n (parent t)"
      by blast
    obtain u where t: "t = q @ u"
    proof
      have "q = take (min n (length t - 1)) t"
        using q by (simp add: parent_def butlast_conv_take)
      then show "t = q @ drop (min n (length t - 1)) t"
        by (metis append_take_drop_id)
    qed
    obtain r where "t = d @ r" using assms in_parents_iff by blast
    with t have "q @ u = d @ r" by simp
    then obtain v where "q = d @ v \<or> q @ v = d"
      by (auto simp: append_eq_append_conv2)
    moreover have "q = d @ v \<Longrightarrow> v = []" using that(2) in_parents_iff by blast
    ultimately obtain v where d: "d = q @ v" by (metis append_Nil2)
    have "fs (take (length q) d) = Some Dir"
      using that(1) [unfolded parents_exist_def, rule_format, of "length q"] \<open>q \<noteq> []\<close> d by simp
    with d none show False by simp
  qed
  then show "confined d fs (snd (fs_mkdirs (parent t) fs))"
    using parents_exist_below by (simp add: confined_def m)
qed

lemma confined_write:
  assumes "in_parents d t"
  shows "moves (confined d) (fs_write t c)"
proof (rule movesI)
  fix fs
  obtain r fs' where w: "fs_write t c fs = (r, fs')" by fastforce
  have "fs' q = fs q" if "\<not> in_parents d q" for q
    using fs_write_changes [OF w] that assms by blast
  then show "confined d fs (snd (fs_write t c fs))"
    using parents_exist_below by (simp add: confined_def w)
qed

lemma confined_extract_member:
  assumes "''..'' \<notin> set d"
  shows "moves (confined d) (extract_member z d rt name)"
  using assms
  by (auto simp: extract_member_def copy_member_def Let_def resolve_no_dots
      intro!: confined.moves_rules confined_mkdirs confined_write split: option.split zip_content.split)

text \<open>Where a member goes, and the invariant of the extraction loop: what is done is in place.\<close>

definition member_target :: "path \<Rightarrow> string \<Rightarrow> string \<Rightarrow> path" where
  "member_target d rt n = resolve (path_join d (drop (length rt) n))"

definition placed :: "archive \<Rightarrow> path \<Rightarrow> string \<Rightarrow> string list \<Rightarrow> fs \<Rightarrow> bool" where
  "placed z d rt ns fs \<longleftrightarrow>
     (\<forall>n \<in> set ns. \<exists>n' \<in> set ns. \<exists>c. member_target d rt n' = member_target d rt n
        \<and> zip_read z n' = Inr c \<and> fs (member_target d rt n) = Some (File c))"

lemma extract_member_placed:
  assumes "extract_member z d rt n fs = (Inr (), fs')" and "placed z d rt ns fs"
  shows "placed z d rt (ns @ [n]) fs'"
proof -
  let ?t = "member_target d rt n"
  from assms(1) obtain fs1 c where mk: "fs_mkdirs (parent ?t) fs = (Inr (), fs1)"
      and c: "zip_read z n = Inr c" and w: "fs_write ?t c fs1 = (Inr (), fs')"
    by (auto simp: extract_member_def copy_member_def zip_read_def Let_def member_target_def act_simps
        split: if_splits prod.splits sum.splits option.splits zip_content.splits)
  have keep: "fs1 q = Some (File x)" if "fs q = Some (File x)" for q x
    using fs_mkdirs_changes [OF mk, of q] that by (cases "fs1 q = fs q") auto
  have fs': "fs' = fs1(?t \<mapsto> File c)"
    using w by (auto simp: fs_write_def split: if_splits)
  show ?thesis
    unfolding placed_def
  proof
    fix m
    assume m: "m \<in> set (ns @ [n])"
    show "\<exists>n' \<in> set (ns @ [n]). \<exists>c. member_target d rt n' = member_target d rt m
        \<and> zip_read z n' = Inr c \<and> fs' (member_target d rt m) = Some (File c)"
    proof (cases "member_target d rt m = ?t")
      case True
      with c fs' show ?thesis by auto
    next
      case False
      with m have "m \<in> set ns" by auto
      with assms(2) False fs' keep show ?thesis unfolding placed_def by fastforce
    qed
  qed
qed

lemma extract_members_placed:
  "for_each (extract_member z d rt) ms fs = (Inr (), fs') \<Longrightarrow> placed z d rt ns fs \<Longrightarrow>
     placed z d rt (ns @ ms) fs'"
proof (induction ms arbitrary: ns fs)
  case Nil
  then show ?case by (simp add: act_simps)
next
  case (Cons m ms)
  then obtain fs1 where "extract_member z d rt m fs = (Inr (), fs1)"
      "for_each (extract_member z d rt) ms fs1 = (Inr (), fs')"
    by (auto simp: seq_Inr_iff)
  then have "placed z d rt ((ns @ [m]) @ ms) fs'"
    using Cons extract_member_placed by blast
  then show ?case by simp
qed

lemmas zip_witness_simps =
  validate_app_zip_def member_names_def is_dir_entry_def ends_with_def is_archiver_cruft_def
  starts_with_def path_name_def path_comps_def illegal_member_def path_parts_def is_absolute_def
  find_root_def Let_def REQUIRED_FILES_def zip_read_def parse_app_meta_def load_meta_def
  model_validate_def migrate_def migrate_loop_current validate_combinations_def
  default_lifecycle_def valid_app_name_def is_alpha_def is_digit_def

section \<open>Properties\<close>

text \<open>
  C26. No archive can write outside its target: whatever the member names are, absolute, with double
  dots or anything else, and whether the extraction succeeds or raises half way, every path that
  does not lie strictly below the (existing) target directory keeps its content.
\<close>

theorem extract_app_zip_confined:
  assumes "extract_app_zip zf d fs = (r, fs')"
    and "''..'' \<notin> set d" and "parents_exist fs d" and "\<not> in_parents d q"
  shows "fs' q = fs q"
proof -
  have "moves (confined d) (extract_app_zip zf d)"
    using assms(2)
    by (auto simp: extract_app_zip_def split: option.split
        intro!: confined.moves_rules confined_extract_member)
  from movesD [OF this assms(1)] assms(3,4) show ?thesis by (simp add: confined_def)
qed

theorem extract_app_zip_confined_witness:
  "snd (extract_app_zip (Some [(''app_meta.json'', Whole ''x''), (''sub//../y'', Whole ''y'')]) [''a'']
      [[''a''] \<mapsto> Dir, [''b''] \<mapsto> File ''k'']) [''b''] = Some (File ''k'')"
proof -
  let ?z = "Some [(''app_meta.json'', Whole ''x''), (''sub//../y'', Whole ''y'')]"
  let ?fs = "[[''a''] \<mapsto> Dir, [''b''] \<mapsto> File ''k''] :: fs"
  have "snd (extract_app_zip ?z [''a''] ?fs) [''b''] = ?fs [''b'']"
    by (rule extract_app_zip_confined [OF prod.collapse [symmetric]])
      (auto simp: parents_exist_def in_parents_def le_Suc_eq)
  then show ?thesis by simp
qed

text \<open>
  An accepted upload is fit to install: when \<open>validate_app_zip\<close> returns metadata, both required
  files are members of the archive under one common prefix, no member it will unpack is absolute
  or has a double dot, and the app name matches \<open>[a-zA-Z0-9][a-zA-Z0-9_-]{0,63}\<close>.
\<close>

theorem validate_app_zip_sound:
  assumes "validate_app_zip P (Some z) = Inr m"
  shows "valid_app_name (am_name m)
    \<and> (\<exists>names rt. member_names z = Inr names \<and> find_root names = Inr rt
        \<and> {rt @ ''app_meta.json'', rt @ ''docker-compose.yml.template''} \<subseteq> set names
        \<and> (\<forall>n \<in> set names. \<not> illegal_member n))"
proof -
  from assms obtain names rt where names: "member_names z = Inr names"
      and rt: "find_root names = Inr rt"
      and req: "\<not> list_ex (\<lambda>r. rt @ r \<notin> set names) REQUIRED_FILES"
      and name: "valid_app_name (am_name m)"
    by (auto simp: validate_app_zip_def split: if_splits sum.splits exn.splits)
  have "\<forall>n \<in> set names. \<not> illegal_member n"
    using names by (auto simp: member_names_def Let_def list_ex_iff split: if_splits)
  with name names rt req show ?thesis by (auto simp: REQUIRED_FILES_def)
qed

theorem validate_app_zip_sound_witness:
  "\<exists>P z m. validate_app_zip P (Some z) = Inr m \<and> valid_app_name (am_name m)"
proof -
  let ?m = "\<lparr>am_v = ''1.3'', am_app_version = ''1'', am_upstream_repo = None, am_homepage = None,
      am_name = ''notes'', am_pretty_name = ''Notes'', am_icon = ''i'', am_entrypoints = [],
      am_paths = [], am_lifecycle = default_lifecycle, am_minimum_portal_size = VM_XS,
      am_store_info = None\<rparr>"
  let ?P = "\<lparr>json_loads = (\<lambda>_. Some (JObj [(''v'', JStr ''1.3'')])), decode_fields = (\<lambda>_. Some ?m)\<rparr>"
  let ?z = "[(''d/app_meta.json'', Whole ''x''), (''d/docker-compose.yml.template'', Whole ''y'')]"
  have "validate_app_zip ?P (Some ?z) = Inr ?m"
    by (simp add: zip_witness_simps)
  then show ?thesis
    using validate_app_zip_sound by blast
qed

text \<open>
  A successful extraction is complete: afterwards every member of the archive that is not a
  directory or archiver cruft is a regular file at its place below the target, and its content is
  that of a member with this place (the last one written, should two names resolve to one path).
\<close>

theorem extract_app_zip_complete:
  assumes "extract_app_zip (Some z) d fs = (Inr (), fs')" and "member_names z = Inr names"
    and "find_root names = Inr rt" and "n \<in> set names"
  shows "\<exists>n' \<in> set names. \<exists>c. member_target d rt n' = member_target d rt n \<and> zip_read z n' = Inr c
    \<and> fs' (member_target d rt n) = Some (File c)"
proof -
  have "for_each (extract_member z d rt) names fs = (Inr (), fs')"
    using assms(1-3) by (simp add: extract_app_zip_def act_simps)
  from extract_members_placed [OF this, of "[]"] assms(4) show ?thesis
    by (simp add: placed_def)
qed

theorem extract_app_zip_complete_witness:
  "snd (extract_app_zip (Some [(''d/app_meta.json'', Whole ''x'')]) [''a''] [[''a''] \<mapsto> Dir])
     [''a'', ''app_meta.json''] = Some (File ''x'')"
proof -
  let ?z = "[(''d/app_meta.json'', Whole ''x'')]"
  let ?fs = "[[''a''] \<mapsto> Dir] :: fs"
  have run: "extract_app_zip (Some ?z) [''a''] ?fs = (Inr (), snd (extract_app_zip (Some ?z) [''a''] ?fs))"
    by (simp add: extract_app_zip_def extract_member_def copy_member_def resolve_def path_join_def in_parents_def
        fs_mkdirs_def fs_write_def parent_def act_simps zip_witness_simps)
  have "member_names ?z = Inr [''d/app_meta.json'']" and "find_root [''d/app_meta.json''] = Inr ''d/''"
    by (simp_all add: zip_witness_simps)
  from extract_app_zip_complete [OF run this, of "''d/app_meta.json''"]
  show ?thesis
    by (simp add: member_target_def resolve_def path_join_def zip_witness_simps)
qed

end
