(* ===== verification/State.thy ===== *)
theory State
  imports Human_Encoding Database File_System Compose_Command App_Zip
begin

text \<open>
  The state of a running shard and the services it calls.  \<open>shard\<close> holds the database tables, the
  module-level variables of the services (caches, queues, throttles, locks, counters), the disk
  and \<open>sh_env\<close>, the part of the world outside the repository.  \<open>ext\<close> bundles the settings and the
  third-party code as functions of that outside world: clocks, processes, HTTP, JWT, keys,
  templates, random numbers.  Nothing is assumed of them here; a property that relies on
  documented behaviour of one of them says so in its hypotheses.
\<close>

section \<open>settings.py\<close>

record lifecycle_settings =
  refresh_interval :: int
  default_idle_for_pause :: int
  default_idle_for_stop :: int
  psi_threshold :: real
  pause_enabled :: bool

definition default_lifecycle_settings :: lifecycle_settings where
  "default_lifecycle_settings =
     \<lparr>refresh_interval = 30, default_idle_for_pause = 60, default_idle_for_stop = 10800,
      psi_threshold = 10, pause_enabled = False\<rparr>"

record registry_settings =
  reg_uri :: string
  reg_username :: string
  reg_password :: string

record settings =
  path_root :: path
  path_root_host :: string
  dns_zone :: string
  dns_prefix_length :: int
  backup_dirs :: "string list"
  disable_ssl :: bool
  app_store_base_url :: string
  app_store_container :: string
  registries :: "registry_settings list"
  lifecycle_cfg :: lifecycle_settings
  initial_apps :: "string list"
  max_update_frequency :: int
  pruning_max_age :: int
  pruning_enabled :: bool
  telemetry_enabled :: bool
  management_api_url :: string
  controller_base_url :: string
  pairing_code_deadline :: int
  jwt_secret_length :: int
  acme_email :: string
  telemetry_interval :: int
  tracking_schedule :: string
  reporting_schedule :: string
  pruning_schedule :: string
  backup_schedule :: string
  backup_max_random_delay :: int

section \<open>What the state holds\<close>

record safe_identity =
  si_domain :: string
  si_id :: string
  si_public_key_pem :: string

datatype task_type = Install_From_Store | Install_From_Zip | Uninstall | Reinstall

record install_task =
  it_app_name :: string
  it_task_type :: task_type

text \<open>A message on the websocket queue; the payload of the updates is the list it was built from.\<close>

datatype payload =
    P_Empty
  | P_Object dict
  | P_Apps "(app_row \<times> app_meta option) list"
  | P_Terminals "terminal_row list"
  | P_Terminal terminal_row

record ws_message =
  message_type :: string
  message :: payload

record pause_counters =
  pm_transitions :: "(string \<times> (string \<times> nat) list) list"
  pm_pause_latencies :: "real list"
  pm_unpause_latencies :: "real list"
  pm_psi_snapshots :: "real list"

definition no_pause_counters :: pause_counters where
  "no_pause_counters =
     \<lparr>pm_transitions = [], pm_pause_latencies = [], pm_unpause_latencies = [], pm_psi_snapshots = []\<rparr>"

record disk_usage =
  total_gb :: real
  free_gb :: real
  disk_space_low :: bool

text \<open>\<open>sh_ran\<close> is a history variable: the argument lists of the processes started so far.\<close>

record 'e shard =
  sh_apps :: "app_row list"
  sh_identities :: "identity_row list"
  sh_terminals :: "terminal_row list"
  sh_peers :: "peer_row list"
  sh_tours :: "tour_row list"
  sh_backups :: "backup_row serial"
  sh_usage :: "usage_row serial"
  sh_kv :: dict
  sh_app_cache :: "(string \<times> app_row option) list"
  sh_identity_cache :: "safe_identity option"
  sh_last_access :: "(string \<times> real) list"
  sh_start_calls :: "(string \<times> real) list"
  sh_background :: "string list"
  sh_tasks :: "install_task list"
  sh_worker_started :: bool
  sh_current_task :: "install_task option"
  sh_sockets :: "nat list"
  sh_ip_cache :: "(string \<times> string) list"
  sh_icon_cache :: "(string \<times> string) list"
  sh_splash :: "string option"
  sh_ws_queue :: "ws_message list"
  sh_pause_metrics :: pause_counters
  sh_no_of_requests :: nat
  sh_last_send :: real
  sh_disk_usage :: disk_usage
  sh_locks :: "string list"
  sh_backup_lock :: bool
  sh_backup_tasks :: "(path list \<times> string \<times> string) list"
  sh_backup_running :: "(path list \<times> string \<times> string) option"
  sh_fs :: fs
  sh_ran :: "string list list"
  sh_env :: 'e

section \<open>Services outside the repository\<close>

record http_response =
  status_code :: nat
  body_text :: string
  body_json :: "json option"

text \<open>
  The fields of \<open>ShardResponse\<close> (\<open>data_model/backend/shard_model.py\<close>) the shard reads; \<open>sb_subscription\<close>
  keeps the summary as the dictionary it is dumped to.
\<close>

record shard_base =
  sb_machine_id :: "string option"
  sb_owner_name :: "string option"
  sb_owner_email :: "string option"
  sb_vm_size :: backend_vm_size
  sb_max_vm_size :: "backend_vm_size option"
  sb_time_created :: real
  sb_time_assigned :: "real option"
  sb_delete_after :: "real option"
  sb_shared_secret :: "string option"
  sb_volume_size_gb :: "int option"
  sb_subscription :: "dict option"
  sb_billing_enabled :: bool
  sb_paypal_client_id :: "string option"
  sb_paypal_environment :: "string option"

text \<open>A request as the handlers read it: header names in lower case, and the body.\<close>

record http_request =
  rq_headers :: "(string \<times> string) list"
  rq_body :: string

text \<open>
  \<open>x_cache_first\<close> is the order in which blinker calls the two receivers of \<open>on_apps_update\<close>, a
  set it iterates over; \<open>x_receiver_order\<close> is the order of the three receivers of
  \<open>on_request_to_app\<close>.
\<close>

record 'e ext =
  cfg :: settings
  x_time :: "'e \<Rightarrow> real \<times> 'e"
  x_monotonic :: "'e \<Rightarrow> real \<times> 'e"
  x_choices :: "nat \<Rightarrow> nat \<Rightarrow> 'e \<Rightarrow> nat list \<times> 'e"
  x_token_urlsafe :: "int \<Rightarrow> 'e \<Rightarrow> string \<times> 'e"
  x_run :: "string list \<Rightarrow> 'e \<Rightarrow> outcome \<times> 'e"
  x_process_repr :: "string list \<Rightarrow> string"
  x_compose_version :: outcome
  x_host_read :: "path \<Rightarrow> 'e \<Rightarrow> string result \<times> 'e"
  x_host_write :: "path \<Rightarrow> string \<Rightarrow> 'e \<Rightarrow> unit result \<times> 'e"
  x_host_is_dir :: "path \<Rightarrow> 'e \<Rightarrow> bool"
  x_disk_usage :: "path \<Rightarrow> 'e \<Rightarrow> (nat \<times> nat) result \<times> 'e"
  x_httpx_get :: "string \<Rightarrow> 'e \<Rightarrow> http_response result \<times> 'e"
  x_requests_get :: "string \<Rightarrow> 'e \<Rightarrow> http_response result \<times> 'e"
  x_signed_request :: "string \<Rightarrow> string \<Rightarrow> json \<Rightarrow> string \<Rightarrow> string \<Rightarrow> 'e \<Rightarrow> http_response result \<times> 'e"
  x_verify_signature :: "(string \<Rightarrow> string result) \<Rightarrow> http_request \<Rightarrow> string result"
  x_jwt_encode :: "dict \<Rightarrow> string \<Rightarrow> string"
  x_jwt_decode :: "string \<Rightarrow> string \<Rightarrow> dict option"
  x_new_private_key :: "'e \<Rightarrow> string \<times> 'e"
  x_public_pem :: "string \<Rightarrow> string result"
  x_load_public :: "string \<Rightarrow> string result"
  x_decode_shard :: "string \<Rightarrow> json \<Rightarrow> shard_base option"
  x_sha512 :: "string \<Rightarrow> bytes"
  x_email_valid :: "string \<Rightarrow> bool"
  x_render :: "string \<Rightarrow> (string \<times> (string \<times> string) list) list \<Rightarrow> string result"
  x_yaml_dump :: "json \<Rightarrow> string"
  x_open_zip :: "string \<Rightarrow> archive option"
  x_parser :: meta_parser
  x_cache_first :: bool
  x_receiver_order :: "nat list"
  x_container_status :: "string \<Rightarrow> 'e \<Rightarrow> string option"
  x_container_ips :: "'e \<Rightarrow> (string \<times> string option) list result"
  x_upload_blob :: "string \<Rightarrow> string \<Rightarrow> 'e \<Rightarrow> unit result \<times> 'e"
  x_ws_send :: "nat \<Rightarrow> ws_message \<Rightarrow> 'e \<Rightarrow> unit result \<times> 'e"
  x_today :: "'e \<Rightarrow> (int \<times> int \<times> int) \<times> 'e"
  x_sleep :: "real \<Rightarrow> 'e \<Rightarrow> 'e"
  x_next_exec :: "string \<Rightarrow> 'e \<Rightarrow> real"
  x_uniform :: "real \<Rightarrow> 'e \<Rightarrow> real \<times> 'e"
  x_isoformat :: "real \<Rightarrow> string"
  x_json_dumps :: "json \<Rightarrow> string"
  x_base64 :: "string \<Rightarrow> string"
  x_fromisoformat :: "string \<Rightarrow> real option"
  x_pg_timestamp :: "string \<Rightarrow> real option"
  x_wordlist :: "string result"
  x_cwd :: path
  x_listdir :: "path \<Rightarrow> fs \<Rightarrow> string list"
  x_rmtree_left :: "path \<Rightarrow> 'e \<Rightarrow> path list"
  x_guess_type :: "string \<Rightarrow> string option"
  x_template :: "string \<Rightarrow> dict \<Rightarrow> string result"
  x_print :: "string \<Rightarrow> 'e \<Rightarrow> 'e"
  x_ws_accept :: "nat \<Rightarrow> 'e \<Rightarrow> unit result \<times> 'e"
  x_cron_valid :: "string \<Rightarrow> bool"
  x_signed_forward :: "string \<Rightarrow> string \<Rightarrow> string \<Rightarrow> dict \<Rightarrow> dict \<Rightarrow> string \<Rightarrow> string \<Rightarrow> 'e \<Rightarrow> http_response result \<times> 'e"

section \<open>Access to the parts of the state\<close>

definition zoom :: "('s \<Rightarrow> 't) \<Rightarrow> (('t \<Rightarrow> 't) \<Rightarrow> 's \<Rightarrow> 's) \<Rightarrow> ('t, 'a) act \<Rightarrow> ('s, 'a) act" where
  "zoom get put m s = (case m (get s) of (r, t) \<Rightarrow> (r, put (\<lambda>_. t) s))"

abbreviation db_apps :: "(app_row list, 'a) act \<Rightarrow> ('e shard, 'a) act" where
  "db_apps \<equiv> zoom sh_apps sh_apps_update"

abbreviation db_identities :: "(identity_row list, 'a) act \<Rightarrow> ('e shard, 'a) act" where
  "db_identities \<equiv> zoom sh_identities sh_identities_update"

abbreviation db_terminals :: "(terminal_row list, 'a) act \<Rightarrow> ('e shard, 'a) act" where
  "db_terminals \<equiv> zoom sh_terminals sh_terminals_update"

abbreviation db_peers :: "(peer_row list, 'a) act \<Rightarrow> ('e shard, 'a) act" where
  "db_peers \<equiv> zoom sh_peers sh_peers_update"

abbreviation db_tours :: "(tour_row list, 'a) act \<Rightarrow> ('e shard, 'a) act" where
  "db_tours \<equiv> zoom sh_tours sh_tours_update"

abbreviation db_backups :: "(backup_row serial, 'a) act \<Rightarrow> ('e shard, 'a) act" where
  "db_backups \<equiv> zoom sh_backups sh_backups_update"

abbreviation db_usage :: "(usage_row serial, 'a) act \<Rightarrow> ('e shard, 'a) act" where
  "db_usage \<equiv> zoom sh_usage sh_usage_update"

abbreviation db_kv :: "(dict, 'a) act \<Rightarrow> ('e shard, 'a) act" where
  "db_kv \<equiv> zoom sh_kv sh_kv_update"

abbreviation on_fs :: "(fs, 'a) act \<Rightarrow> ('e shard, 'a) act" where
  "on_fs \<equiv> zoom sh_fs sh_fs_update"

text \<open>A call into the outside world.\<close>

definition world :: "('e \<Rightarrow> 'a \<times> 'e) \<Rightarrow> ('e shard, 'a) act" where
  "world f s = (case f (sh_env s) of (x, e) \<Rightarrow> (Inr x, s\<lparr>sh_env := e\<rparr>))"

definition world_res :: "('e \<Rightarrow> 'a result \<times> 'e) \<Rightarrow> ('e shard, 'a) act" where
  "world_res f = bnd (world f) lift_res"

definition now :: "'e ext \<Rightarrow> ('e shard, real) act" where
  "now X = world (x_time X)"

text \<open>\<open>database.get_value\<close>, \<open>set_value\<close> and \<open>remove_value\<close>\<close>

definition get_value :: "string \<Rightarrow> ('e shard, json) act" where
  "get_value k = db_kv (kv_get_value k)"

definition set_value :: "string \<Rightarrow> json \<Rightarrow> ('e shard, unit) act" where
  "set_value k v = db_kv (kv_set_value k v)"

definition remove_value :: "string \<Rightarrow> ('e shard, bool) act" where
  "remove_value k = db_kv (kv_remove_value k)"

text \<open>\<open>util/subprocess.py: subprocess(*args)\<close>\<close>

definition subprocess :: "'e ext \<Rightarrow> string list \<Rightarrow> ('e shard, string) act" where
  "subprocess X args =
     seq (modify (\<lambda>s. s\<lparr>sh_ran := sh_ran s @ [args]\<rparr>))
     (bnd (world (x_run X args)) (\<lambda>oc.
      lift_res (subprocess_result (x_process_repr X args) oc)))"

text \<open>
  \<open>async with lock: ...\<close>.  An action runs without interruption, so a lock it finds taken belongs
  to a suspended task; \<open>LockHeld\<close> stands for the wait.  The lock is released whatever happens.
\<close>

definition with_lock :: "string \<Rightarrow> ('e shard, 'a) act \<Rightarrow> ('e shard, 'a) act" where
  "with_lock n m s =
     (if n \<in> set (sh_locks s) then (Inl (LockHeld n), s)
      else case m (s\<lparr>sh_locks := n # sh_locks s\<rparr>) of
             (r, t) \<Rightarrow> (r, t\<lparr>sh_locks := remove1 n (sh_locks t)\<rparr>))"

text \<open>\<open>str.splitlines\<close> on output that only contains newlines, and Python's \<open>s[:n]\<close>.\<close>

definition splitlines :: "string \<Rightarrow> string list" where
  "splitlines s =
     (let ls = split_on CHR 0x0A s in if last ls = [] then butlast ls else ls)"

definition py_prefix :: "int \<Rightarrow> 'a list \<Rightarrow> 'a list" where
  "py_prefix n xs = (if n \<ge> 0 then take (nat n) xs else take (length xs - nat (- n)) xs)"

text \<open>
  A block \<open>async with db_conn()\<close> that does more after its statements: the statements \<open>work\<close> become
  visible to other connections when the block ends, after \<open>inside\<close>, and not at all if it raises.
\<close>

definition commit_after ::
    "('s \<Rightarrow> 't) \<Rightarrow> (('t \<Rightarrow> 't) \<Rightarrow> 's \<Rightarrow> 's) \<Rightarrow> ('t, 'a) act \<Rightarrow> ('a \<Rightarrow> ('s, 'b) act) \<Rightarrow> ('s, 'b) act" where
  "commit_after get put work inside s =
     (case work (get s) of
        (Inl e, _) \<Rightarrow> (Inl e, s)
      | (Inr x, t') \<Rightarrow>
          (case inside x s of
             (Inl e, s') \<Rightarrow> (Inl e, s')
           | (Inr y, s') \<Rightarrow> (Inr y, put (\<lambda>_. t') s')))"

section \<open>Frames on the state\<close>

text \<open>\<open>keeps f\<close>: the part \<open>f\<close> of the state is left alone.\<close>

definition keeps :: "('s \<Rightarrow> 'v) \<Rightarrow> 's \<Rightarrow> 's \<Rightarrow> bool" where
  "keeps f s t \<longleftrightarrow> f t = f s"

interpretation keeps: frame "keeps f"
  by unfold_locales (simp_all add: keeps_def)

lemma moves_keepsD: "moves (keeps f) m \<Longrightarrow> m s = (r, t) \<Longrightarrow> f t = f s"
  by (drule movesD) (simp_all add: keeps_def)

lemma moves_keeps_snd: "moves (keeps f) m \<Longrightarrow> f (snd (m s)) = f s"
  by (simp add: moves_def keeps_def)

lemma zoom_apply [act_simps]:
  "zoom get put m s = (case m (get s) of (r, t) \<Rightarrow> (r, put (\<lambda>_. t) s))"
  by (simp add: zoom_def)

lemma world_apply [act_simps]:
  "world f s = (case f (sh_env s) of (x, e) \<Rightarrow> (Inr x, s\<lparr>sh_env := e\<rparr>))"
  by (simp add: world_def)

lemma moves_keeps_zoom: "(\<And>x s. f (put x s) = f s) \<Longrightarrow> moves (keeps f) (zoom get put m)"
  by (simp add: moves_def keeps_def zoom_def split: prod.split)

lemma moves_keeps_modify: "(\<And>s. f (g s) = f s) \<Longrightarrow> moves (keeps f) (modify g)"
  by (simp add: moves_def keeps_def modify_def)

lemma moves_keeps_world: "(\<And>e s. f (s\<lparr>sh_env := e\<rparr>) = f s) \<Longrightarrow> moves (keeps f) (world g)"
  by (simp add: moves_def keeps_def world_def split: prod.split)

lemma moves_keeps_with_lock:
  assumes "\<And>l s. f (s\<lparr>sh_locks := l\<rparr>) = f s" and "moves (keeps f) m"
  shows "moves (keeps f) (with_lock n m)"
proof (rule movesI)
  fix s
  show "keeps f s (snd (with_lock n m s))"
    using assms(1) moves_keeps_snd [OF assms(2), of "s\<lparr>sh_locks := n # sh_locks s\<rparr>"]
    by (auto simp: keeps_def with_lock_def assms(1) split: prod.split)
qed

lemmas keeps_rules =
  keeps.moves_rules moves_keeps_zoom moves_keeps_modify moves_keeps_world moves_keeps_with_lock

text \<open>\<open>preserves P\<close>: if \<open>P\<close> holds before, it holds after.\<close>

definition preserves :: "('s \<Rightarrow> bool) \<Rightarrow> 's \<Rightarrow> 's \<Rightarrow> bool" where
  "preserves P s t \<longleftrightarrow> (P s \<longrightarrow> P t)"

interpretation preserves: frame "preserves P"
  by unfold_locales (auto simp: preserves_def)

lemma moves_preservesD: "moves (preserves P) m \<Longrightarrow> m s = (r, t) \<Longrightarrow> P s \<Longrightarrow> P t"
  by (drule (1) movesD) (simp add: preserves_def)

lemma moves_preserves_keeps: "moves (keeps f) m \<Longrightarrow> moves (preserves (\<lambda>s. Q (f s))) m"
  by (simp add: moves_def keeps_def preserves_def)

lemma moves_preserves_zoom:
  assumes "\<And>s x. get (put (\<lambda>_. x) s) = x" and "\<And>t. Q t \<Longrightarrow> Q (snd (m t))"
  shows "moves (preserves (\<lambda>s. Q (get s))) (zoom get put m)"
proof (rule movesI)
  fix s
  show "preserves (\<lambda>s. Q (get s)) s (snd (zoom get put m s))"
    using assms(2) [of "get s"] by (auto simp: preserves_def zoom_def assms(1) split: prod.split)
qed

text \<open>What the elementary operations leave alone.\<close>

lemma moves_keeps_subprocess:
  assumes "\<And>x s. f (s\<lparr>sh_ran := x\<rparr>) = f s" and "\<And>e s. f (s\<lparr>sh_env := e\<rparr>) = f s"
  shows "moves (keeps f) (subprocess X args)"
  unfolding subprocess_def using assms by (intro keeps_rules) auto

lemma moves_keeps_set_value:
  "(\<And>x s. f (sh_kv_update x s) = f s) \<Longrightarrow> moves (keeps f) (set_value k v)"
  by (simp add: set_value_def moves_keeps_zoom)

lemma moves_keeps_kv_other:
  "k \<noteq> j \<Longrightarrow> moves (keeps (\<lambda>s. map_of (sh_kv s) j)) (set_value k v)"
  by (simp add: moves_def keeps_def set_value_def kv_set_value_def zoom_def modify_def)

lemma moves_keeps_get_value: "moves (keeps f) (get_value k)"
  by (simp add: moves_def keeps_def get_value_def kv_get_value_def zoom_def bnd_def gets_def
      raise_def ret_def split: option.split)

lemma moves_keeps_world_res:
  "(\<And>e s. f (s\<lparr>sh_env := e\<rparr>) = f s) \<Longrightarrow> moves (keeps f) (world_res g)"
  unfolding world_res_def by (intro keeps.moves_bnd moves_keeps_world keeps.moves_lift_res)

lemma moves_keeps_now: "(\<And>e s. f (s\<lparr>sh_env := e\<rparr>) = f s) \<Longrightarrow> moves (keeps f) (now X)"
  by (simp add: now_def moves_keeps_world)

lemma get_value_state [simp]: "snd (get_value k s) = s"
  by (simp add: get_value_def kv_get_value_def act_simps split: option.split)

lemma get_value_apply [act_simps]:
  "get_value k s = (case map_of (sh_kv s) k of None \<Rightarrow> (Inl (KeyError k), s) | Some v \<Rightarrow> (Inr v, s))"
  by (simp add: get_value_def kv_get_value_def act_simps split: option.split)

lemma set_value_apply [act_simps]:
  "set_value k v s = (Inr (), s\<lparr>sh_kv := dict_set (sh_kv s) k v\<rparr>)"
  by (simp add: set_value_def kv_set_value_def act_simps)

lemma remove_value_apply [act_simps]:
  "remove_value k s = (Inr (map_of (sh_kv s) k \<noteq> None), s\<lparr>sh_kv := dict_del (sh_kv s) k\<rparr>)"
  by (simp add: remove_value_def kv_remove_value_def act_simps)

lemma now_apply [act_simps]:
  "now X s = (case x_time X (sh_env s) of (t, e) \<Rightarrow> (Inr t, s\<lparr>sh_env := e\<rparr>))"
  by (simp add: now_def act_simps)

section \<open>A concrete instance\<close>

text \<open>
  Settings, services and an empty shard on which the properties are evaluated.  The outside world
  is a clock that stands still; a token is the secret, a colon and the subject; processes succeed
  without output; the app store has no apps.
\<close>

definition sample_cfg :: settings where
  "sample_cfg =
     \<lparr>path_root = [''r''], path_root_host = ''/h'', dns_zone = ''z'', dns_prefix_length = 6,
      backup_dirs = [''core''], disable_ssl = False, app_store_base_url = ''s'',
      app_store_container = ''c'', registries = [], lifecycle_cfg = default_lifecycle_settings,
      initial_apps = [], max_update_frequency = 60, pruning_max_age = 24, pruning_enabled = False,
      telemetry_enabled = False, management_api_url = ''m'', controller_base_url = ''f'',
      pairing_code_deadline = 600, jwt_secret_length = 64,
      acme_email = ''e'', telemetry_interval = 300, tracking_schedule = ''t'', reporting_schedule = ''r'',
      pruning_schedule = ''p'', backup_schedule = ''b'', backup_max_random_delay = 0\<rparr>"

definition sample_encode :: "dict \<Rightarrow> string \<Rightarrow> string" where
  "sample_encode payload secret =
     ''ey'' @ secret @ '':'' @ (case map_of payload ''sub'' of Some (JStr s) \<Rightarrow> s | _ \<Rightarrow> [])"

definition sample_decode :: "string \<Rightarrow> string \<Rightarrow> dict option" where
  "sample_decode tok secret =
     (if starts_with (''ey'' @ secret @ '':'') tok
      then Some [(''sub'', JStr (drop (length secret + 3) tok))] else None)"

definition sample_meta :: app_meta where
  "sample_meta =
     \<lparr>am_v = ''1.3'', am_app_version = ''1'', am_upstream_repo = None, am_homepage = None,
      am_name = ''a'', am_pretty_name = ''A'', am_icon = ''i.svg'',
      am_entrypoints = [\<lparr>container_name = ''a'', container_port = 80, entrypoint_port = HTTPS_443\<rparr>],
      am_paths = [([], \<lparr>pp_access = PRIVATE, pp_headers = None\<rparr>),
                  (''/pub'', \<lparr>pp_access = PUBLIC, pp_headers = None\<rparr>)],
      am_lifecycle = default_lifecycle, am_minimum_portal_size = VM_XS, am_store_info = None\<rparr>"

definition sample_parser :: meta_parser where
  "sample_parser =
     \<lparr>json_loads = (\<lambda>s. if s = ''ok'' then Some (JObj [(''v'', JStr ''1.3'')])
                          else if s = ''bad'' then Some (JObj [(''v'', JStr ''9'')]) else None),
      decode_fields = (\<lambda>_. Some sample_meta)\<rparr>"

definition sample_ext :: "real ext" where
  "sample_ext =
     \<lparr>cfg = sample_cfg,
      x_time = (\<lambda>e. (e, e)), x_monotonic = (\<lambda>e. (e, e)),
      x_choices = (\<lambda>k n e. (replicate k 0, e)),
      x_token_urlsafe = (\<lambda>n e. (''secret'', e)),
      x_run = (\<lambda>args e. (Exited 0 [] [], e)), x_process_repr = (\<lambda>_. []),
      x_compose_version = Exited 0 [] [],
      x_host_read = (\<lambda>p e. (Inl FileNotFoundError, e)),
      x_host_write = (\<lambda>p c e. (Inr (), e)), x_host_is_dir = (\<lambda>p e. False),
      x_disk_usage = (\<lambda>p e. (Inr (0, 0), e)),
      x_httpx_get = (\<lambda>u e. (Inr \<lparr>status_code = 404, body_text = [], body_json = None\<rparr>, e)),
      x_requests_get = (\<lambda>u e. (Inr \<lparr>status_code = 404, body_text = [], body_json = None\<rparr>, e)),
      x_signed_request = (\<lambda>v u d i k e. (Inr \<lparr>status_code = 404, body_text = [], body_json = None\<rparr>, e)),
      x_verify_signature = (\<lambda>keys r. bind_res (keys (rq_body r)) (\<lambda>_. Inr (rq_body r))),
      x_jwt_encode = sample_encode, x_jwt_decode = sample_decode,
      x_new_private_key = (\<lambda>e. (''key'', e)), x_public_pem = Inr, x_load_public = Inr,
      x_decode_shard = (\<lambda>_ _. None), x_sha512 = (\<lambda>_. replicate 64 0),
      x_email_valid = (\<lambda>e. CHR 0x40 \<in> set e),
      x_render = (\<lambda>t d. Inr t), x_yaml_dump = (\<lambda>_. []), x_open_zip = (\<lambda>_. None),
      x_parser = sample_parser, x_cache_first = True,
      x_receiver_order = [0, 1, 2], x_container_status = (\<lambda>n e. None), x_container_ips = (\<lambda>e. Inr []),
      x_upload_blob = (\<lambda>u t e. (Inr (), e)), x_ws_send = (\<lambda>k m e. (Inr (), e)),
      x_today = (\<lambda>e. ((2024, 3, 15), e)), x_sleep = (\<lambda>t e. e), x_next_exec = (\<lambda>c e. e),
      x_uniform = (\<lambda>b e. (0, e)), x_isoformat = (\<lambda>t. ''t''), x_json_dumps = (\<lambda>j. ''j''),
      x_base64 = (\<lambda>b. b), x_fromisoformat = (\<lambda>s. None), x_pg_timestamp = (\<lambda>s. None),
      x_wordlist = Inr [], x_cwd = [''w''],
      x_listdir = (\<lambda>p fs. []), x_rmtree_left = (\<lambda>p e. []), x_guess_type = (\<lambda>n. None), x_template = (\<lambda>t d. Inr t),
      x_print = (\<lambda>t e. e), x_ws_accept = (\<lambda>k e. (Inr (), e)), x_cron_valid = (\<lambda>c. True),
      x_signed_forward = (\<lambda>v u d p h i k e. (Inr \<lparr>status_code = 404, body_text = [], body_json = None\<rparr>, e))\<rparr>"

definition sample_shard :: "real shard" where
  "sample_shard =
     \<lparr>sh_apps = [], sh_identities = [], sh_terminals = [], sh_peers = [], sh_tours = [],
      sh_backups = empty_serial, sh_usage = empty_serial, sh_kv = [], sh_app_cache = [], sh_identity_cache = None,
      sh_last_access = [], sh_start_calls = [], sh_background = [], sh_tasks = [],
      sh_worker_started = False, sh_current_task = None, sh_sockets = [], sh_ip_cache = [], sh_icon_cache = [],
      sh_splash = None, sh_ws_queue = [], sh_pause_metrics = no_pause_counters, sh_no_of_requests = 0,
      sh_last_send = 0, sh_disk_usage = \<lparr>total_gb = 0, free_gb = 0, disk_space_low = False\<rparr>,
      sh_locks = [], sh_backup_lock = False, sh_backup_tasks = [],
      sh_backup_running = None, sh_fs = (\<lambda>_. None), sh_ran = [], sh_env = 0\<rparr>"

end
