(* ===== verification/Signals.thy ===== *)
theory Signals
  imports State
begin

text \<open>
  The metadata of an installed app (\<open>get_app_metadata\<close> of \<open>service/app_tools.py\<close>), the websocket
  queue, and the signals of \<open>util/signals.py\<close> with their receivers in the order of the calls they
  make.  Every change of \<open>installed_apps\<close> is announced by \<open>on_apps_update\<close>, whose two receivers drop
  the authorisation cache and queue an \<open>apps_update\<close> message.
\<close>

section \<open>Metadata of installed apps\<close>

definition get_installed_apps_path :: "'e ext \<Rightarrow> path" where
  "get_installed_apps_path X = path_root (cfg X) @ [''core'', ''installed_apps'']"

definition app_dir :: "'e ext \<Rightarrow> string \<Rightarrow> path" where
  "app_dir X n = path_join (get_installed_apps_path X) n"

definition get_app_metadata :: "'e ext \<Rightarrow> fs \<Rightarrow> string \<Rightarrow> app_meta result" where
  "get_app_metadata X fs n =
     (let app_path = app_dir X n in
      if \<not> fs_exists fs app_path then Inl (MetadataNotFound n)
      else
        (case bind_res (fs_read fs (app_path @ [''app_meta.json''])) (load_meta (x_parser X)) of
           Inl FileNotFoundError \<Rightarrow> Inl (MetadataNotFound n)
         | Inl JSONDecodeError \<Rightarrow> Inl (MetadataNotFound n)
         | Inl e \<Rightarrow> Inl e
         | Inr m \<Rightarrow> Inr m))"

definition app_metadata :: "'e ext \<Rightarrow> string \<Rightarrow> ('e shard, app_meta) act" where
  "app_metadata X n = bnd (gets sh_fs) (\<lambda>fs. lift_res (get_app_metadata X fs n))"

text \<open>\<open>enrich_installed_app_with_meta\<close>: an app whose metadata is not there gets none.\<close>

definition enrich_installed_app_with_meta ::
    "'e ext \<Rightarrow> fs \<Rightarrow> app_row \<Rightarrow> (app_row \<times> app_meta option) result" where
  "enrich_installed_app_with_meta X fs a =
     (case get_app_metadata X fs (ia_name a) of
        Inl (MetadataNotFound _) \<Rightarrow> Inr (a, None)
      | Inl e \<Rightarrow> Inl e
      | Inr m \<Rightarrow> Inr (a, Some m))"

text \<open>A list comprehension whose body may raise.\<close>

fun collect_res :: "('a \<Rightarrow> 'b result) \<Rightarrow> 'a list \<Rightarrow> 'b list result" where
  "collect_res f [] = Inr []"
| "collect_res f (x # xs) = bind_res (f x) (\<lambda>y. bind_res (collect_res f xs) (\<lambda>ys. Inr (y # ys)))"

section \<open>The websocket queue\<close>

fun payload_or_empty :: "payload \<Rightarrow> payload" where
  "payload_or_empty (P_Object []) = P_Empty"
| "payload_or_empty (P_Apps []) = P_Empty"
| "payload_or_empty (P_Terminals []) = P_Empty"
| "payload_or_empty p = p"

definition broadcast_message :: "string \<Rightarrow> payload \<Rightarrow> ('e shard, unit) act" where
  "broadcast_message ty p =
     modify (\<lambda>s. s\<lparr>sh_ws_queue := sh_ws_queue s @ [\<lparr>message_type = ty, message = payload_or_empty p\<rparr>]\<rparr>)"

section \<open>on_apps_update\<close>

definition invalidate_app_cache :: "('e shard, unit) act" where
  "invalidate_app_cache = modify (\<lambda>s. s\<lparr>sh_app_cache := []\<rparr>)"

definition send_apps_update :: "'e ext \<Rightarrow> ('e shard, unit) act" where
  "send_apps_update X =
     bnd (db_apps apps_get_all) (\<lambda>all_apps.
     bnd (gets sh_fs) (\<lambda>fs.
     bnd (lift_res (collect_res (enrich_installed_app_with_meta X fs) all_apps)) (\<lambda>enriched.
       broadcast_message ''apps_update'' (P_Apps enriched))))"

definition on_apps_update :: "'e ext \<Rightarrow> ('e shard, unit) act" where
  "on_apps_update X =
     (if x_cache_first X then seq invalidate_app_cache (send_apps_update X)
      else seq (send_apps_update X) invalidate_app_cache)"

section \<open>The other signals\<close>

definition invalidate_identity_cache :: "('e shard, unit) act" where
  "invalidate_identity_cache = modify (\<lambda>s. s\<lparr>sh_identity_cache := None\<rparr>)"

definition on_identity_update :: "('e shard, unit) act" where
  "on_identity_update = invalidate_identity_cache"

definition send_terminals_update :: "('e shard, unit) act" where
  "send_terminals_update =
     bnd (db_terminals terminals_get_all) (\<lambda>ts. broadcast_message ''terminals_update'' (P_Terminals ts))"

definition on_terminals_update :: "('e shard, unit) act" where
  "on_terminals_update = send_terminals_update"

definition on_terminal_add :: "terminal_row \<Rightarrow> ('e shard, unit) act" where
  "on_terminal_add t = broadcast_message ''terminal_add'' (P_Terminal t)"

definition on_disk_usage_update :: "disk_usage \<Rightarrow> ('e shard, unit) act" where
  "on_disk_usage_update u =
     broadcast_message ''disk_usage_update''
       (P_Object [(''total_gb'', JFloat (total_gb u)), (''free_gb'', JFloat (free_gb u)),
                  (''disk_space_low'', JBool (disk_space_low u))])"

text \<open>\<open>util/misc.py: format_error\<close>, over the class name of an exception and its text.\<close>

definition format_error :: "string \<Rightarrow> string \<Rightarrow> string" where
  "format_error cls txt = (if txt \<noteq> [] then cls @ '': '' @ txt else cls)"

fun exn_class :: "exn \<Rightarrow> string" where
  "exn_class (KeyError _) = ''KeyError''"
| "exn_class (ValueError _) = ''ValueError''"
| "exn_class TypeError = ''TypeError''"
| "exn_class IndexError = ''IndexError''"
| "exn_class AttributeError = ''AttributeError''"
| "exn_class RuntimeError = ''RuntimeError''"
| "exn_class OSError = ''OSError''"
| "exn_class FileNotFoundError = ''FileNotFoundError''"
| "exn_class FileExistsError = ''FileExistsError''"
| "exn_class JSONDecodeError = ''JSONDecodeError''"
| "exn_class ValidationError = ''ValidationError''"
| "exn_class (SubprocessError _) = ''SubprocessError''"
| "exn_class ComposeFileNotFound = ''ComposeFileNotFound''"
| "exn_class ComposeProjectNotAllowed = ''ComposeProjectNotAllowed''"
| "exn_class (MetadataNotFound _) = ''MetadataNotFound''"
| "exn_class (AppDoesNotExist _) = ''AppDoesNotExist''"
| "exn_class (InvalidAppZip _) = ''InvalidAppZip''"
| "exn_class BadZipFile = ''BadZipFile''"
| "exn_class (BackupFailed _) = ''BackupFailedError''"
| "exn_class BackupInProgress = ''BackupInProgressError''"
| "exn_class _ = ''Exception''"

fun exn_text :: "exn \<Rightarrow> string" where
  "exn_text (KeyError k) = CHR 0x27 # k @ [CHR 0x27]"
| "exn_text (MetadataNotFound n) = n"
| "exn_text (AppDoesNotExist n) = n"
| "exn_text (SubprocessError m) = m"
| "exn_text (ValueError m) = m"
| "exn_text (InvalidAppZip m) = m"
| "exn_text (BackupFailed m) = m"
| "exn_text (OtherError m) = m"
| "exn_text _ = []"

definition on_app_install_error :: "exn \<Rightarrow> string \<Rightarrow> ('e shard, unit) act" where
  "on_app_install_error e n =
     broadcast_message ''app_install_error''
       (P_Object [(''name'', JStr n), (''error'', JStr (format_error (exn_class e) (exn_text e)))])"

definition on_backup_update :: "exn option \<Rightarrow> ('e shard, unit) act" where
  "on_backup_update eo =
     broadcast_message ''backup_update''
       (case eo of None \<Rightarrow> P_Empty
        | Some e \<Rightarrow> P_Object [(''error'', JStr (format_error (exn_class e) (exn_text e)))])"

text \<open>
  \<open>on_terminal_auth\<close>: the terminal's last connection is written and, by \<open>telemetry.record_request\<close>,
  the request counted; the two receivers touch different parts of the state.
\<close>

definition update_terminal_last_connection :: "'e ext \<Rightarrow> terminal_row \<Rightarrow> ('e shard, unit) act" where
  "update_terminal_last_connection X t =
     bnd (now X) (\<lambda>n. seq (db_terminals (terminals_update (tm_id t) [Set_last_connection n])) (ret ()))"

definition record_request :: "'e ext \<Rightarrow> ('e shard, unit) act" where
  "record_request X =
     (if \<not> telemetry_enabled (cfg X) then ret ()
      else modify (\<lambda>s. s\<lparr>sh_no_of_requests := sh_no_of_requests s + 1\<rparr>))"

definition on_terminal_auth :: "'e ext \<Rightarrow> terminal_row \<Rightarrow> ('e shard, unit) act" where
  "on_terminal_auth X t = seq (update_terminal_last_connection X t) (record_request X)"

section \<open>Lemmas\<close>

lemma collect_res_Inr:
  "collect_res f xs = Inr ys \<longleftrightarrow> map f xs = map Inr ys"
  by (induction xs arbitrary: ys) auto

lemma collect_res_Inl: "x \<in> set xs \<Longrightarrow> f x = Inl e \<Longrightarrow> \<exists>e'. collect_res f xs = Inl e'"
  by (induction xs) (auto simp: bind_res_def split: sum.splits)

text \<open>
  \<open>on_apps_update\<close> touches the cache and the queue only, whether it returns or raises; when it
  returns the cache is empty.
\<close>

lemma moves_keeps_broadcast:
  "(\<And>x s. f (s\<lparr>sh_ws_queue := x\<rparr>) = f s) \<Longrightarrow> moves (keeps f) (broadcast_message ty p)"
  by (simp add: broadcast_message_def moves_keeps_modify)

lemma send_apps_update_apply:
  "send_apps_update X s =
     (case collect_res (enrich_installed_app_with_meta X (sh_fs s)) (sh_apps s) of
        Inl e \<Rightarrow> (Inl e, s)
      | Inr ps \<Rightarrow> broadcast_message ''apps_update'' (P_Apps ps) s)"
  by (simp add: send_apps_update_def apps_get_all_def act_simps split: sum.split)

lemma moves_keeps_on_apps_update:
  assumes "\<And>x s. f (s\<lparr>sh_ws_queue := x\<rparr>) = f s" and "\<And>x s. f (s\<lparr>sh_app_cache := x\<rparr>) = f s"
  shows "moves (keeps f) (on_apps_update X)"
proof -
  have "moves (keeps f) (send_apps_update X)"
    by (rule movesI)
      (auto simp: send_apps_update_apply keeps_def broadcast_message_def act_simps assms(1) split: sum.split)
  moreover have "moves (keeps f) (invalidate_app_cache :: ('a shard, unit) act)"
    by (simp add: invalidate_app_cache_def moves_keeps_modify assms(2))
  ultimately show ?thesis
    unfolding on_apps_update_def by (intro keeps.moves_if keeps.moves_seq)
qed

lemma on_apps_update_clears:
  "on_apps_update X s = (Inr u, t) \<Longrightarrow> sh_app_cache t = []"
  by (auto simp: on_apps_update_def invalidate_app_cache_def broadcast_message_def send_apps_update_apply
      act_simps split: if_splits sum.splits prod.splits)

text \<open>All metadata of the installed apps can be loaded or is absent.\<close>

definition meta_loads :: "'e ext \<Rightarrow> fs \<Rightarrow> string \<Rightarrow> bool" where
  "meta_loads X fs n \<longleftrightarrow>
     (case get_app_metadata X fs n of Inl (MetadataNotFound _) \<Rightarrow> True | Inl _ \<Rightarrow> False | Inr _ \<Rightarrow> True)"

definition metadata_ok :: "'e ext \<Rightarrow> fs \<Rightarrow> app_row list \<Rightarrow> bool" where
  "metadata_ok X fs apps \<longleftrightarrow> list_all (meta_loads X fs) (map ia_name apps)"

lemma enrich_Inr_iff:
  "(\<exists>p. enrich_installed_app_with_meta X fs a = Inr p) \<longleftrightarrow> meta_loads X fs (ia_name a)"
  by (auto simp: enrich_installed_app_with_meta_def meta_loads_def split: sum.splits exn.splits)

lemma metadata_ok_collect:
  "metadata_ok X fs apps \<longleftrightarrow> (\<exists>ps. collect_res (enrich_installed_app_with_meta X fs) apps = Inr ps)"
proof (induction apps)
  case (Cons a apps)
  then show ?case
    using enrich_Inr_iff [of X fs a] by (auto simp: metadata_ok_def)
qed (simp add: metadata_ok_def)

lemma map_name_update [simp]:
  "(\<And>r. ia_name (f r) = ia_name r) \<Longrightarrow>
     map ia_name (map (\<lambda>r. if ia_name r = n then f r else r) apps) = map ia_name apps"
  by (induction apps) auto

lemma metadata_ok_cong: "map ia_name apps = map ia_name apps' \<Longrightarrow> metadata_ok X fs apps = metadata_ok X fs apps'"
  by (simp add: metadata_ok_def)

lemma on_apps_update_ok:
  assumes "metadata_ok X (sh_fs s) (sh_apps s)"
  shows "\<exists>ps. on_apps_update X s = (Inr (), s\<lparr>sh_app_cache := [],
      sh_ws_queue := sh_ws_queue s @ [\<lparr>message_type = ''apps_update'', message = payload_or_empty (P_Apps ps)\<rparr>]\<rparr>)"
proof -
  obtain ps where "collect_res (enrich_installed_app_with_meta X (sh_fs s)) (sh_apps s) = Inr ps"
    using assms metadata_ok_collect by blast
  then show ?thesis
    by (auto simp: on_apps_update_def invalidate_app_cache_def send_apps_update_apply
        broadcast_message_def act_simps intro!: exI [of _ ps])
qed

lemma on_apps_update_raises:
  assumes "\<not> metadata_ok X (sh_fs s) (sh_apps s)"
  shows "\<exists>e. fst (on_apps_update X s) = Inl e"
proof -
  obtain e where "collect_res (enrich_installed_app_with_meta X (sh_fs s)) (sh_apps s) = Inl e"
    using assms metadata_ok_collect [of X "sh_fs s" "sh_apps s"]
    by (cases "collect_res (enrich_installed_app_with_meta X (sh_fs s)) (sh_apps s)") auto
  then show ?thesis
    by (auto simp: on_apps_update_def invalidate_app_cache_def send_apps_update_apply act_simps)
qed

end
