(* ===== verification/Identity.thy ===== *)
theory Identity
  imports Signals
begin

text \<open>
  \<open>data_model/identity.py\<close>, the key handling of \<open>service/crypto.py\<close>, \<open>service/identity.py\<close>,
  \<open>service/signed_call.py\<close> and \<open>web/protected/identities.py\<close> without the avatars.  Key generation,
  PEM parsing, SHA-512 and the e-mail check are parameters.
\<close>

section \<open>crypto.py\<close>

text \<open>\<open>PublicKey(pem).to_bytes()\<close> and \<open>to_hash_id()\<close>\<close>

definition public_key_bytes :: "'e ext \<Rightarrow> string \<Rightarrow> string result" where
  "public_key_bytes X pem = x_load_public X pem"

definition to_hash_id :: "'e ext \<Rightarrow> string \<Rightarrow> string result" where
  "to_hash_id X key_bytes = encode default_encoding (x_sha512 X key_bytes)"

text \<open>\<open>PrivateKey(pem).get_public_key().to_bytes()\<close>\<close>

definition public_of_private :: "'e ext \<Rightarrow> string \<Rightarrow> string result" where
  "public_of_private X pem = x_public_pem X pem"

section \<open>data_model/identity.py\<close>

record identity =
  i_id :: string
  i_name :: string
  i_email :: "string option"
  i_description :: "string option"
  i_private_key :: string
  i_is_default :: bool

definition validate_email :: "'e ext \<Rightarrow> string option \<Rightarrow> string option result" where
  "validate_email X v =
     (case v of
        None \<Rightarrow> Inr None
      | Some e \<Rightarrow> if e \<noteq> [] \<and> \<not> x_email_valid X e then Inl ValidationError else Inr (Some e))"

text \<open>\<open>Identity(**row)\<close>: name and private key must be strings.\<close>

definition identity_of_row :: "'e ext \<Rightarrow> identity_row \<Rightarrow> identity result" where
  "identity_of_row X r =
     (case (id_name r, id_private_key r) of
        (Some n, Some k) \<Rightarrow>
          bind_res (validate_email X (id_email r)) (\<lambda>e.
            Inr \<lparr>i_id = id_id r, i_name = n, i_email = e, i_description = id_description r,
                 i_private_key = k, i_is_default = id_is_default r\<rparr>)
      | _ \<Rightarrow> Inl ValidationError)"

definition row_of_identity :: "identity \<Rightarrow> identity_row" where
  "row_of_identity i =
     \<lparr>id_id = i_id i, id_name = Some (i_name i), id_email = i_email i,
      id_description = i_description i, id_private_key = Some (i_private_key i),
      id_is_default = i_is_default i\<rparr>"

definition short_id :: "string \<Rightarrow> string" where
  "short_id i = take 6 i"

definition domain :: "'e ext \<Rightarrow> string \<Rightarrow> string" where
  "domain X i = lower (py_prefix (dns_prefix_length (cfg X)) i) @ ''.'' @ dns_zone (cfg X)"

definition public_key_pem :: "'e ext \<Rightarrow> identity \<Rightarrow> string result" where
  "public_key_pem X i = public_of_private X (i_private_key i)"

text \<open>\<open>Identity.create\<close>; the name may be null in an \<open>InputIdentity\<close>.\<close>

definition create_identity ::
    "'e ext \<Rightarrow> string option \<Rightarrow> string option \<Rightarrow> string option \<Rightarrow> ('e shard, identity) act" where
  "create_identity X name description email =
     bnd (world (x_new_private_key X)) (\<lambda>key.
     bnd (lift_res (public_of_private X key)) (\<lambda>pub.
     bnd (lift_res (to_hash_id X pub)) (\<lambda>h.
     lift_res (identity_of_row X
       \<lparr>id_id = h, id_name = name, id_email = email, id_description = description,
        id_private_key = Some key, id_is_default = False\<rparr>))))"

definition safe_of_identity :: "'e ext \<Rightarrow> identity \<Rightarrow> safe_identity result" where
  "safe_of_identity X i =
     bind_res (public_key_pem X i) (\<lambda>pem.
       Inr \<lparr>si_domain = domain X (i_id i), si_id = i_id i, si_public_key_pem = pem\<rparr>)"

record output_identity =
  oi_id :: string
  oi_name :: string
  oi_email :: "string option"
  oi_description :: "string option"
  oi_is_default :: bool
  oi_public_key_pem :: string
  oi_domain :: string

definition output_of_identity :: "'e ext \<Rightarrow> identity \<Rightarrow> output_identity result" where
  "output_of_identity X i =
     bind_res (public_key_pem X i) (\<lambda>pem.
       Inr \<lparr>oi_id = i_id i, oi_name = i_name i, oi_email = i_email i,
            oi_description = i_description i, oi_is_default = i_is_default i,
            oi_public_key_pem = pem, oi_domain = domain X (i_id i)\<rparr>)"

text \<open>\<open>Identity(**row)\<close> where the row may be missing: \<open>**None\<close> is a \<open>TypeError\<close>.\<close>

definition identity_of :: "'e ext \<Rightarrow> identity_row option \<Rightarrow> ('e shard, identity) act" where
  "identity_of X ro =
     (case ro of None \<Rightarrow> raise TypeError | Some r \<Rightarrow> lift_res (identity_of_row X r))"

section \<open>service/identity.py\<close>

definition get_default_identity :: "'e ext \<Rightarrow> ('e shard, identity) act" where
  "get_default_identity X = bnd (db_identities identities_get_default) (identity_of X)"

definition init_default_identity :: "'e ext \<Rightarrow> ('e shard, identity) act" where
  "init_default_identity X =
     bnd (db_identities identities_count) (\<lambda>n.
       if n = 0 then
         bnd (create_identity X (Some ''Shard Owner'')
           (Some (CHR 0x22 # ''Noone wants to manage their own server'' @
                  [CHR 0x22, CHR 0x0A, CHR 0x0A] @ ''Old outdated saying'')) None) (\<lambda>i.
         bnd (ret (i\<lparr>i_is_default := True\<rparr>)) (\<lambda>d.
         seq (db_identities (identities_insert (row_of_identity d)))
         (seq on_identity_update
         (ret d))))
       else bnd (db_identities identities_get_default) (identity_of X))"

definition make_default :: "string \<Rightarrow> ('e shard, unit) act" where
  "make_default i =
     seq (bnd (db_identities identities_get_default) (\<lambda>last.
          case last of
            None \<Rightarrow> raise (KeyError ''no default identity found'')
          | Some l \<Rightarrow>
              bnd (db_identities (identities_get_by_id i)) (\<lambda>new.
              case new of
                None \<Rightarrow> raise (KeyError i)
              | Some _ \<Rightarrow>
                  seq (db_identities (identities_update (id_id l) [(''is_default'', JBool False)]))
                  (seq (db_identities (identities_update i [(''is_default'', JBool True)]))
                  (ret ())))))
     on_identity_update"

definition update_identity :: "'e ext \<Rightarrow> string \<Rightarrow> dict \<Rightarrow> ('e shard, identity) act" where
  "update_identity X i data =
     bnd (db_identities (identities_update i data)) (\<lambda>updated.
     seq on_identity_update
     (identity_of X updated))"

section \<open>service/signed_call.py\<close>

definition get_signature_auth :: "'e ext \<Rightarrow> ('e shard, string \<times> string) act" where
  "get_signature_auth X =
     bnd (get_default_identity X) (\<lambda>i. ret (short_id (i_id i), i_private_key i))"

definition signed_request ::
    "'e ext \<Rightarrow> string \<Rightarrow> string \<Rightarrow> json \<Rightarrow> ('e shard, http_response) act" where
  "signed_request X verb url data =
     bnd (get_signature_auth X) (\<lambda>(key_id, key).
       world_res (x_signed_request X verb url data key_id key))"

text \<open>\<open>response.raise_for_status()\<close> of requests\<close>

definition raise_for_status :: "http_response \<Rightarrow> ('s, unit) act" where
  "raise_for_status r =
     (if 400 \<le> status_code r then raise (RequestsHTTPError (status_code r)) else ret ())"

section \<open>web/protected/identities.py\<close>

definition list_all_identities :: "'e ext \<Rightarrow> string option \<Rightarrow> ('e shard, identity list) act" where
  "list_all_identities X name =
     bnd (case name of
            Some n \<Rightarrow> if n \<noteq> [] then db_identities (identities_search_by_name n)
                      else db_identities identities_get_all
          | None \<Rightarrow> db_identities identities_get_all)
       (\<lambda>rows. lift_res (collect_res (identity_of_row X) rows))"

definition get_identity_by_id :: "'e ext \<Rightarrow> string \<Rightarrow> ('e shard, identity) act" where
  "get_identity_by_id X i =
     bnd (db_identities (identities_get_by_id i)) (\<lambda>row.
       case row of Some r \<Rightarrow> lift_res (identity_of_row X r) | None \<Rightarrow> raise (HTTPException 404))"

text \<open>
  \<open>PUT /identities\<close>.  The argument is \<open>i.model_dump(exclude_unset=True)\<close> of a validated
  \<open>InputIdentity\<close>: the fields the request set, each a string or null.
\<close>

record input_identity =
  ii_id :: "string option option"
  ii_name :: "string option option"
  ii_email :: "string option option"
  ii_description :: "string option option"

definition json_of_text :: "string option \<Rightarrow> json" where
  "json_of_text v = (case v of None \<Rightarrow> JNull | Some s \<Rightarrow> JStr s)"

definition set_fields :: "(string \<times> string option option) list \<Rightarrow> dict" where
  "set_fields fs = concat (map (\<lambda>(k, v). case v of None \<Rightarrow> [] | Some t \<Rightarrow> [(k, json_of_text t)]) fs)"

definition validate_input_identity :: "'e ext \<Rightarrow> input_identity \<Rightarrow> unit result" where
  "validate_input_identity X i =
     (case ii_email i of
        None \<Rightarrow> Inr ()
      | Some e \<Rightarrow> bind_res (validate_email X e) (\<lambda>_. Inr ()))"

definition put_identity :: "'e ext \<Rightarrow> input_identity \<Rightarrow> ('e shard, identity) act" where
  "put_identity X i =
     (case ii_id i of
        Some (Some (c # cs)) \<Rightarrow>
          bnd (db_identities (identities_get_by_id (c # cs))) (\<lambda>existing.
            if existing = None then raise (HTTPException 404)
            else update_identity X (c # cs)
                   (set_fields [(''name'', ii_name i), (''email'', ii_email i),
                                (''description'', ii_description i)]))
      | Some _ \<Rightarrow> raise TypeError
      | None \<Rightarrow>
          (case ii_name i of
             None \<Rightarrow> raise TypeError
           | Some n \<Rightarrow>
               bnd (create_identity X n (case ii_description i of None \<Rightarrow> None | Some d \<Rightarrow> d)
                      (case ii_email i of None \<Rightarrow> None | Some e \<Rightarrow> e)) (\<lambda>new.
               seq (db_identities (identities_insert (row_of_identity new)))
               (ret new))))"

definition make_identity_default :: "string \<Rightarrow> ('e shard, unit) act" where
  "make_identity_default i =
     try_except (make_default i)
       (\<lambda>e. case e of KeyError _ \<Rightarrow> raise (HTTPException 404) | _ \<Rightarrow> raise e)"

section \<open>Lemmas\<close>

definition one_default :: "identity_row list \<Rightarrow> bool" where
  "one_default t \<longleftrightarrow> tbl_ok id_id t \<and> length (filter id_is_default t) = 1"

lemma filter_key_unique:
  assumes "distinct (map key t)" and "r \<in> set t"
  shows "filter (\<lambda>q. key q = key r) t = [r]"
  using assms
proof (induction t)
  case (Cons q t)
  show ?case
  proof (cases "q = r")
    case True
    then have "filter (\<lambda>q. key q = key r) t = []"
      using Cons.prems by (auto simp: filter_empty_conv image_iff)
    with True show ?thesis by simp
  next
    case False
    then have "key q \<noteq> key r" and "r \<in> set t"
      using Cons.prems by (auto simp: image_iff)
    with Cons show ?thesis by simp
  qed
qed simp

lemma one_default_find:
  assumes "one_default t"
  obtains l where "find id_is_default t = Some l" and "l \<in> set t" and "id_is_default l"
    and "\<And>r. r \<in> set t \<Longrightarrow> id_is_default r \<Longrightarrow> r = l"
proof -
  from assms obtain l where l: "filter id_is_default t = [l]"
    by (auto simp: one_default_def length_Suc_conv)
  have members: "{r \<in> set t. id_is_default r} = {l}"
    using arg_cong [OF l, of set] by simp
  have unique: "r = l" if "r \<in> set t" "id_is_default r" for r
    using members that by blast
  have "l \<in> set t \<and> id_is_default l"
    using members by blast
  moreover have "find id_is_default t = Some l"
    using unique calculation find_SomeD [of id_is_default t]
    by (cases "find id_is_default t") (auto simp: find_None_all)
  ultimately show ?thesis using that unique by blast
qed

lemma tbl_find_member: "tbl_ok key t \<Longrightarrow> r \<in> set t \<Longrightarrow> tbl_find key (key r) t = Some r"
  by (simp add: tbl_ok_def tbl_find_def find_unique_key)

text \<open>Moving the default mark from the row \<open>l\<close> to the row with id \<open>i\<close>.\<close>

definition unmark :: "string \<Rightarrow> identity_row \<Rightarrow> identity_row" where
  "unmark k r = (if id_id r = k then r\<lparr>id_is_default := False\<rparr> else r)"

definition mark :: "string \<Rightarrow> identity_row \<Rightarrow> identity_row" where
  "mark k r = (if id_id r = k then r\<lparr>id_is_default := True\<rparr> else r)"

lemma mark_unmark_id [simp]: "id_id (mark k r) = id_id r" "id_id (unmark k r) = id_id r"
  by (simp_all add: mark_def unmark_def)

lemma make_default_apply:
  "make_default i s =
     (case find id_is_default (sh_identities s) of
        None \<Rightarrow> (Inl (KeyError ''no default identity found''), s)
      | Some l \<Rightarrow>
          (case tbl_find id_id i (sh_identities s) of
             None \<Rightarrow> (Inl (KeyError i), s)
           | Some _ \<Rightarrow> (Inr (), s\<lparr>sh_identities := map (mark i) (map (unmark (id_id l)) (sh_identities s)),
                                sh_identity_cache := None\<rparr>)))"
  by (simp add: make_default_def act_simps identities_get_default_def identities_get_by_id_def
      identities_update_def set_identity_column_def tbl_update_def on_identity_update_def
      invalidate_identity_cache_def Let_def mark_def [abs_def] unmark_def [abs_def] comp_def
      split: option.split)

lemma moved_mark:
  assumes "one_default t" and "find id_is_default t = Some l" and "tbl_find id_id i t = Some r"
  shows "one_default (map (mark i) (map (unmark (id_id l)) t))"
    and "tbl_find id_id i (map (mark i) (map (unmark (id_id l)) t)) = Some (r\<lparr>id_is_default := True\<rparr>)"
proof -
  have ok: "distinct (map id_id t)" using assms(1) by (simp add: one_default_def tbl_ok_def)
  obtain l' where l': "find id_is_default t = Some l'" "\<And>q. q \<in> set t \<Longrightarrow> id_is_default q \<Longrightarrow> q = l'"
    using one_default_find [OF assms(1)] by blast
  then have only: "\<And>q. q \<in> set t \<Longrightarrow> id_is_default q \<Longrightarrow> q = l" using assms(2) by simp
  have r: "r \<in> set t" "id_id r = i"
    using assms(3) by (auto simp: tbl_find_def dest: find_SomeD)
  let ?g = "\<lambda>q. mark i (unmark (id_id l) q)"
  have dflt: "id_is_default (?g q) \<longleftrightarrow> id_id q = i" if "q \<in> set t" for q
    using only [OF that] by (auto simp: mark_def unmark_def)
  have "filter (\<lambda>q. id_is_default (?g q)) t = filter (\<lambda>q. id_id q = id_id r) t"
    using dflt r(2) by (auto intro: filter_cong)
  then have "length (filter id_is_default (map ?g t)) = 1"
    using filter_key_unique [OF ok r(1)] by (simp add: filter_map comp_def)
  moreover have ids: "map id_id (map ?g t) = map id_id t" by simp
  ultimately show "one_default (map (mark i) (map (unmark (id_id l)) t))"
    using ok by (simp add: one_default_def tbl_ok_def comp_def)
  have "?g r \<in> set (map ?g t)" using r(1) by auto
  moreover have "tbl_ok id_id (map ?g t)" using ok ids by (simp add: tbl_ok_def comp_def)
  ultimately have "tbl_find id_id (id_id (?g r)) (map ?g t) = Some (?g r)"
    using tbl_find_member [of id_id "map ?g t" "?g r"] by blast
  then show "tbl_find id_id i (map (mark i) (map (unmark (id_id l)) t)) = Some (r\<lparr>id_is_default := True\<rparr>)"
    using r(2) by (auto simp: comp_def mark_def unmark_def split: if_splits)
qed

text \<open>A signed request reads the default identity and otherwise only touches the outside world.\<close>

lemma get_default_identity_state [simp]: "snd (get_default_identity X s) = s"
  by (simp add: get_default_identity_def identity_of_def identities_get_default_def act_simps
      split: option.split sum.split)

lemma moves_keeps_default_identity: "moves (keeps f) (get_default_identity X)"
  by (simp add: moves_def keeps_def)

lemma moves_keeps_signed_request:
  assumes "\<And>e s. f (s\<lparr>sh_env := e\<rparr>) = f s"
  shows "moves (keeps f) (signed_request X verb url data)"
  unfolding signed_request_def get_signature_auth_def
  by (intro keeps.moves_rules moves_keeps_default_identity moves_keeps_world_res assms)

section \<open>Properties\<close>

text \<open>
  \<open>make_default\<close> either moves the default mark to the requested identity, keeps exactly one
  default, changes nothing else of the table and drops the cached identity; or, if that identity
  does not exist, raises and changes nothing at all.
\<close>

theorem make_default_one:
  assumes "one_default (sh_identities s)"
  shows "case make_default i s of
      (Inr _, t) \<Rightarrow>
        one_default (sh_identities t) \<and> sh_identity_cache t = None
        \<and> (\<exists>r. tbl_find id_id i (sh_identities s) = Some r
             \<and> tbl_find id_id i (sh_identities t) = Some (r\<lparr>id_is_default := True\<rparr>))
        \<and> map (\<lambda>r. r\<lparr>id_is_default := False\<rparr>) (sh_identities t)
            = map (\<lambda>r. r\<lparr>id_is_default := False\<rparr>) (sh_identities s)
    | (Inl e, t) \<Rightarrow> e = KeyError i \<and> t = s \<and> tbl_find id_id i (sh_identities s) = None"
proof -
  obtain l where l: "find id_is_default (sh_identities s) = Some l"
    using one_default_find [OF assms] by blast
  show ?thesis
  proof (cases "tbl_find id_id i (sh_identities s)")
    case None
    then show ?thesis by (simp add: make_default_apply l)
  next
    case (Some r)
    have "map (\<lambda>r. r\<lparr>id_is_default := False\<rparr>) (map (mark i) (map (unmark (id_id l)) (sh_identities s)))
        = map (\<lambda>r. r\<lparr>id_is_default := False\<rparr>) (sh_identities s)"
      by (simp add: mark_def unmark_def)
    then show ?thesis
      using moved_mark [OF assms l Some] Some by (simp add: make_default_apply l)
  qed
qed

definition sample_identity :: "string \<Rightarrow> bool \<Rightarrow> identity_row" where
  "sample_identity i d =
     \<lparr>id_id = i, id_name = Some ''n'', id_email = None, id_description = None,
      id_private_key = Some ''key'', id_is_default = d\<rparr>"

definition two_identities :: "real shard" where
  "two_identities =
     sample_shard\<lparr>sh_identities := [sample_identity ''abcdef'' True, sample_identity ''ghijkl'' False]\<rparr>"

lemma two_identities_one_default: "one_default (sh_identities two_identities)"
  by (simp add: two_identities_def one_default_def tbl_ok_def sample_identity_def)

lemma make_default_one_witness:
  "one_default (sh_identities two_identities) \<and> fst (make_default ''ghijkl'' two_identities) = Inr () \<and>
   one_default (sh_identities (snd (make_default ''ghijkl'' two_identities)))"
  using make_default_one [OF two_identities_one_default, of "''ghijkl''"] two_identities_one_default
  by (simp add: make_default_apply two_identities_def sample_identity_def tbl_find_def mark_def unmark_def)

text \<open>
  Setting the name of the default identity to null: \<open>PUT /identities\<close> raises a
  \<open>ValidationError\<close> only after the update is stored, and from then on every read of the default
  identity raises one too.
\<close>

theorem put_identity_null_name:
  assumes "find id_is_default (sh_identities s) = Some l" and "one_default (sh_identities s)"
    and "id_id l \<noteq> []"
  shows "case put_identity X \<lparr>ii_id = Some (Some (id_id l)), ii_name = Some None, ii_email = None,
                              ii_description = None\<rparr> s of
      (r, t) \<Rightarrow> r = Inl ValidationError
        \<and> tbl_find id_id (id_id l) (sh_identities t) = Some (l\<lparr>id_name := None\<rparr>)
        \<and> fst (get_default_identity X t) = Inl ValidationError"
proof -
  obtain c cs where ne: "id_id l = c # cs" using assms(3) by (cases "id_id l") auto
  have l: "l \<in> set (sh_identities s)" "id_is_default l"
    using find_SomeD [OF assms(1)] by auto
  let ?f = "id_name_update (\<lambda>_. None) :: identity_row \<Rightarrow> identity_row"
  let ?t = "map (\<lambda>r. if id_id r = c # cs then ?f r else r) (sh_identities s)"
  have find: "tbl_find id_id (c # cs) (sh_identities s) = Some l"
    using tbl_find_member [of id_id "sh_identities s" l] assms(2) l(1) ne
    by (simp add: one_default_def)
  have "find id_is_default ?t = map_option (\<lambda>r. if id_id r = c # cs then ?f r else r) (Some l)"
    by (simp add: find_map_other assms(1))
  then have dflt: "find id_is_default ?t = Some (?f l)" by (simp add: ne)
  show ?thesis
    by (simp add: ne put_identity_def act_simps identities_get_by_id_def find set_fields_def
        json_of_text_def update_identity_def identities_update_def set_identity_column_def text_cell_def
        tbl_update_def on_identity_update_def invalidate_identity_cache_def identity_of_def
        identity_of_row_def get_default_identity_def identities_get_default_def dflt tbl_find_map)
qed

lemma put_identity_null_name_witness:
  "fst (put_identity sample_ext \<lparr>ii_id = Some (Some ''abcdef''), ii_name = Some None, ii_email = None,
     ii_description = None\<rparr> two_identities) = Inl ValidationError"
  using put_identity_null_name [of two_identities "sample_identity ''abcdef'' True" sample_ext]
    two_identities_one_default
  by (simp add: two_identities_def sample_identity_def split: prod.splits)

end
