(* ===== verification/Controller.thy ===== *)
theory Controller
  imports Identity
begin

text \<open>
  What the shard exchanges with the freeshard controller: \<open>data_model/profile.py\<close>,
  \<open>service/portal_controller.py\<close>, \<open>service/freeshard_controller.py\<close>, \<open>web/protected/management.py\<close> and
  the enrichment of the default identity (\<open>service/identity.py\<close>).  Responses are parsed by the
  parameter \<open>x_decode_shard\<close>, which takes the name of the pydantic model.
\<close>

section \<open>Reading validated fields\<close>

definition need :: "'a option \<Rightarrow> 'a result" where
  "need v = (case v of None \<Rightarrow> Inl ValidationError | Some x \<Rightarrow> Inr x)"

fun as_str :: "json \<Rightarrow> string option" where
  "as_str (JStr s) = Some s"
| "as_str _ = None"

fun as_time :: "json \<Rightarrow> real option" where
  "as_time (JTime t) = Some t"
| "as_time _ = None"

fun as_int :: "json \<Rightarrow> int option" where
  "as_int (JInt i) = Some i"
| "as_int _ = None"

fun as_bool :: "json \<Rightarrow> bool option" where
  "as_bool (JBool b) = Some b"
| "as_bool _ = None"

fun as_obj :: "json \<Rightarrow> dict option" where
  "as_obj (JObj d) = Some d"
| "as_obj _ = None"

definition as_vm_size :: "json \<Rightarrow> vm_size option" where
  "as_vm_size j = (case as_str j of None \<Rightarrow> None
     | Some s \<Rightarrow> (case vm_size_of s of Inl _ \<Rightarrow> None | Inr v \<Rightarrow> Some v))"

definition required :: "(json \<Rightarrow> 'a option) \<Rightarrow> dict \<Rightarrow> string \<Rightarrow> 'a result" where
  "required f d k = (case map_of d k of None \<Rightarrow> Inl ValidationError | Some j \<Rightarrow> need (f j))"

text \<open>A field of type \<open>Optional\<close>, with default null.\<close>

definition optional :: "(json \<Rightarrow> 'a option) \<Rightarrow> dict \<Rightarrow> string \<Rightarrow> 'a option result" where
  "optional f d k =
     (case map_of d k of
        None \<Rightarrow> Inr None
      | Some JNull \<Rightarrow> Inr None
      | Some j \<Rightarrow> bind_res (need (f j)) (\<lambda>x. Inr (Some x)))"

section \<open>data_model/profile.py\<close>

record profile =
  pf_vm_id :: string
  pf_owner :: "string option"
  pf_owner_email :: "string option"
  pf_time_created :: real
  pf_time_assigned :: "real option"
  pf_delete_after :: "real option"
  pf_vm_size :: vm_size
  pf_max_vm_size :: "vm_size option"
  pf_volume_size_gb :: "int option"
  pf_subscription :: "dict option"
  pf_billing_enabled :: bool
  pf_paypal_client_id :: "string option"
  pf_paypal_environment :: "string option"

definition convert_vm_size :: "backend_vm_size \<Rightarrow> vm_size result" where
  "convert_vm_size v = vm_size_of (lower (backend_vm_value v))"

definition from_shard :: "shard_base \<Rightarrow> profile result" where
  "from_shard s =
     bind_res (convert_vm_size (sb_vm_size s)) (\<lambda>size.
     bind_res (case sb_max_vm_size s of None \<Rightarrow> Inr None
               | Some m \<Rightarrow> bind_res (convert_vm_size m) (\<lambda>v. Inr (Some v))) (\<lambda>max_size.
     bind_res (need (sb_machine_id s)) (\<lambda>vm_id.
     Inr \<lparr>pf_vm_id = vm_id, pf_owner = sb_owner_name s, pf_owner_email = sb_owner_email s,
          pf_time_created = sb_time_created s, pf_time_assigned = sb_time_assigned s,
          pf_delete_after = sb_delete_after s, pf_vm_size = size, pf_max_vm_size = max_size,
          pf_volume_size_gb = sb_volume_size_gb s, pf_subscription = sb_subscription s,
          pf_billing_enabled = sb_billing_enabled s,
          pf_paypal_client_id = sb_paypal_client_id s,
          pf_paypal_environment = sb_paypal_environment s\<rparr>)))"

definition profile_dump :: "profile \<Rightarrow> json" where
  "profile_dump p = JObj
     [(''vm_id'', JStr (pf_vm_id p)),
      (''owner'', or_null JStr (pf_owner p)),
      (''owner_email'', or_null JStr (pf_owner_email p)),
      (''time_created'', JTime (pf_time_created p)),
      (''time_assigned'', or_null JTime (pf_time_assigned p)),
      (''delete_after'', or_null JTime (pf_delete_after p)),
      (''vm_size'', JStr (vm_value (pf_vm_size p))),
      (''max_vm_size'', or_null (\<lambda>v. JStr (vm_value v)) (pf_max_vm_size p)),
      (''volume_size_gb'', or_null JInt (pf_volume_size_gb p)),
      (''subscription'', or_null JObj (pf_subscription p)),
      (''billing_enabled'', JBool (pf_billing_enabled p)),
      (''paypal_client_id'', or_null JStr (pf_paypal_client_id p)),
      (''paypal_environment'', or_null JStr (pf_paypal_environment p))]"

definition profile_validate :: "json \<Rightarrow> profile result" where
  "profile_validate j =
     bind_res (need (as_obj j)) (\<lambda>d.
     bind_res (required as_str d ''vm_id'') (\<lambda>vm_id.
     bind_res (optional as_str d ''owner'') (\<lambda>owner.
     bind_res (optional as_str d ''owner_email'') (\<lambda>owner_email.
     bind_res (required as_time d ''time_created'') (\<lambda>time_created.
     bind_res (optional as_time d ''time_assigned'') (\<lambda>time_assigned.
     bind_res (optional as_time d ''delete_after'') (\<lambda>delete_after.
     bind_res (required as_vm_size d ''vm_size'') (\<lambda>size.
     bind_res (optional as_vm_size d ''max_vm_size'') (\<lambda>max_size.
     bind_res (optional as_int d ''volume_size_gb'') (\<lambda>volume.
     bind_res (optional as_obj d ''subscription'') (\<lambda>subscription.
     bind_res (if map_of d ''billing_enabled'' = None then Inr False
               else required as_bool d ''billing_enabled'') (\<lambda>billing.
     bind_res (optional as_str d ''paypal_client_id'') (\<lambda>client.
     bind_res (optional as_str d ''paypal_environment'') (\<lambda>environment.
     Inr \<lparr>pf_vm_id = vm_id, pf_owner = owner, pf_owner_email = owner_email,
          pf_time_created = time_created, pf_time_assigned = time_assigned,
          pf_delete_after = delete_after, pf_vm_size = size, pf_max_vm_size = max_size,
          pf_volume_size_gb = volume, pf_subscription = subscription,
          pf_billing_enabled = billing, pf_paypal_client_id = client,
          pf_paypal_environment = environment\<rparr>))))))))))))))"

definition set_profile :: "profile option \<Rightarrow> ('e shard, unit) act" where
  "set_profile po =
     set_value ''profile'' (case po of None \<Rightarrow> JStr ''None'' | Some p \<Rightarrow> profile_dump p)"

definition get_profile :: "('e shard, profile option) act" where
  "get_profile =
     bnd (get_value ''profile'') (\<lambda>v.
       if v = JStr ''None'' then ret None
       else bnd (lift_res (profile_validate v)) (\<lambda>p. ret (Some p)))"

section \<open>service/portal_controller.py\<close>

definition response_json :: "http_response \<Rightarrow> json result" where
  "response_json r = (case body_json r of None \<Rightarrow> Inl JSONDecodeError | Some j \<Rightarrow> Inr j)"

definition portal_call ::
    "'e ext \<Rightarrow> string \<Rightarrow> string \<Rightarrow> json \<Rightarrow> ('e shard, http_response) act" where
  "portal_call X path verb data =
     signed_request X verb (controller_base_url (cfg X) @ ''/api/'' @ path) data"

definition refresh_profile :: "'e ext \<Rightarrow> ('e shard, profile option) act" where
  "refresh_profile X =
     bnd (portal_call X ''shards/self'' ''GET'' JNull) (\<lambda>r.
     try_else (raise_for_status r)
       (\<lambda>e. case e of
              RequestsHTTPError _ \<Rightarrow>
                (if status_code r = 401 then seq (set_profile None) (ret None) else raise e)
            | _ \<Rightarrow> raise e)
       (\<lambda>_. bnd (lift_res (response_json r)) (\<lambda>j.
            bnd (lift_res (need (x_decode_shard X ''ShardResponse'' j))) (\<lambda>sh.
            bnd (lift_res (from_shard sh)) (\<lambda>p.
            seq (set_profile (Some p))
            (ret (Some p)))))))"

definition get_backup_sas_url :: "'e ext \<Rightarrow> ('e shard, string \<times> string) act" where
  "get_backup_sas_url X =
     bnd (portal_call X ''shard_backup/backup_sas_url'' ''GET'' JNull) (\<lambda>r.
     seq (raise_for_status r)
     (bnd (lift_res (response_json r)) (\<lambda>j.
      bnd (lift_res (need (as_obj j))) (\<lambda>d.
      bnd (lift_res (required as_str d ''sas_url'')) (\<lambda>u.
      bnd (lift_res (required as_str d ''container_name'')) (\<lambda>c.
      ret (u, c)))))))"

section \<open>service/freeshard_controller.py\<close>

definition STORE_KEY_SHARED_KEY :: string where
  "STORE_KEY_SHARED_KEY = ''freeshard_controller_shared_key''"

definition call_freeshard_controller ::
    "'e ext \<Rightarrow> string \<Rightarrow> string \<Rightarrow> json \<Rightarrow> ('e shard, http_response) act" where
  "call_freeshard_controller X path verb data =
     signed_request X verb (controller_base_url (cfg X) @ ''/'' @ path) data"

definition refresh_shared_secret :: "'e ext \<Rightarrow> ('e shard, json) act" where
  "refresh_shared_secret X =
     bnd (call_freeshard_controller X ''api/shards/self'' ''GET'' JNull) (\<lambda>r.
     bnd (lift_res (response_json r)) (\<lambda>j.
     bnd (lift_res (need (x_decode_shard X ''ShardDb'' j))) (\<lambda>sh.
     bnd (ret (or_null JStr (sb_shared_secret sh))) (\<lambda>secret.
     seq (set_value STORE_KEY_SHARED_KEY secret)
     (ret secret)))))"

definition validate_shared_secret :: "'e ext \<Rightarrow> string \<Rightarrow> ('e shard, unit) act" where
  "validate_shared_secret X secret =
     (if length secret < 8 then raise SharedSecretInvalid
      else try_else (get_value STORE_KEY_SHARED_KEY)
        (\<lambda>e. case e of
               KeyError _ \<Rightarrow> bnd (refresh_shared_secret X) (\<lambda>expected.
                 if JStr secret \<noteq> expected then raise SharedSecretInvalid else ret ())
             | _ \<Rightarrow> raise e)
        (\<lambda>expected.
           if JStr secret \<noteq> expected then
             bnd (refresh_shared_secret X) (\<lambda>expected.
               if JStr secret \<noteq> expected then raise SharedSecretInvalid else ret ())
           else ret ()))"

section \<open>identity.enrich_identity_from_profile and web/protected/management.py\<close>

definition text_field :: "string \<Rightarrow> string option \<Rightarrow> dict" where
  "text_field k v = (case v of None \<Rightarrow> [] | Some s \<Rightarrow> if s \<noteq> [] then [(k, JStr s)] else [])"

definition enrich_identity_from_profile :: "'e ext \<Rightarrow> ('e shard, unit) act" where
  "enrich_identity_from_profile X =
     bnd (refresh_profile X) (\<lambda>po.
       case po of
         None \<Rightarrow> ret ()
       | Some p \<Rightarrow>
           bnd (db_identities identities_get_default) (\<lambda>default.
             case default of
               None \<Rightarrow> ret ()
             | Some d \<Rightarrow>
                 (let update_data = text_field ''name'' (pf_owner p) @ text_field ''email'' (pf_owner_email p)
                  in if update_data \<noteq> [] then seq (update_identity X (id_id d) update_data) (ret ())
                     else ret ())))"

definition management_get_profile :: "'e ext \<Rightarrow> bool \<Rightarrow> ('e shard, profile option) act" where
  "management_get_profile X refresh =
     (if refresh then refresh_profile X
      else try_except get_profile
             (\<lambda>e. case e of KeyError _ \<Rightarrow> refresh_profile X | _ \<Rightarrow> raise e))"

definition call_management ::
    "'e ext \<Rightarrow> string \<Rightarrow> string \<Rightarrow> json \<Rightarrow> ('e shard, http_response) act" where
  "call_management X rest verb body = call_freeshard_controller X rest verb body"

section \<open>Properties\<close>

lemma vm_size_of_value [simp]: "vm_size_of (vm_value v) = Inr v"
  by (cases v) (simp_all add: vm_size_of_def)

lemma as_vm_size_value [simp]: "as_vm_size (JStr (vm_value v)) = Some v"
  by (simp add: as_vm_size_def)

lemma optional_or_null:
  assumes "map_of d k = Some (or_null g v)" and "\<And>x. f (g x) = Some x" and "\<And>x. g x \<noteq> JNull"
  shows "optional f d k = Inr v"
proof (cases v)
  case None
  then show ?thesis using assms(1) by (simp add: optional_def or_null_def)
next
  case (Some x)
  then have "map_of d k = Some (g x)" using assms(1) by (simp add: or_null_def)
  then show ?thesis
    using assms(2) [of x] assms(3) [of x] Some
    by (cases "g x") (simp_all add: optional_def need_def)
qed

lemmas optional_reads =
  optional_or_null [where g = JStr and f = as_str, simplified]
  optional_or_null [where g = JTime and f = as_time, simplified]
  optional_or_null [where g = JInt and f = as_int, simplified]
  optional_or_null [where g = JObj and f = as_obj, simplified]
  optional_or_null [where g = "\<lambda>v. JStr (vm_value v)" and f = as_vm_size, simplified]

lemma profile_validate_dump: "profile_validate (profile_dump p) = Inr p"
proof -
  obtain d where d: "profile_dump p = JObj d" by (simp add: profile_dump_def)
  then have d_def: "d = (case profile_dump p of JObj d \<Rightarrow> d)" by simp
  note look = d_def profile_dump_def
  have opt: "optional as_str d ''owner'' = Inr (pf_owner p)"
    "optional as_str d ''owner_email'' = Inr (pf_owner_email p)"
    "optional as_time d ''time_assigned'' = Inr (pf_time_assigned p)"
    "optional as_time d ''delete_after'' = Inr (pf_delete_after p)"
    "optional as_vm_size d ''max_vm_size'' = Inr (pf_max_vm_size p)"
    "optional as_int d ''volume_size_gb'' = Inr (pf_volume_size_gb p)"
    "optional as_obj d ''subscription'' = Inr (pf_subscription p)"
    "optional as_str d ''paypal_client_id'' = Inr (pf_paypal_client_id p)"
    "optional as_str d ''paypal_environment'' = Inr (pf_paypal_environment p)"
    by (rule optional_reads; simp add: look)+
  have req: "required as_str d ''vm_id'' = Inr (pf_vm_id p)"
    "required as_time d ''time_created'' = Inr (pf_time_created p)"
    "required as_vm_size d ''vm_size'' = Inr (pf_vm_size p)"
    "required as_bool d ''billing_enabled'' = Inr (pf_billing_enabled p)"
    "map_of d ''billing_enabled'' \<noteq> None"
    by (simp_all add: look required_def need_def)
  show ?thesis
    using req(5) by (simp add: profile_validate_def d need_def opt req)
qed

text \<open>
  A profile that was stored, or its absence, is read back unchanged from the key-value store,
  whatever was stored before.
\<close>

theorem profile_roundtrip:
  "fst (get_profile (snd (set_profile po s))) = Inr po"
proof (cases po)
  case None
  then show ?thesis by (simp add: set_profile_def get_profile_def act_simps)
next
  case (Some p)
  have "profile_dump p \<noteq> JStr ''None''" by (simp add: profile_dump_def)
  then show ?thesis
    using Some by (simp add: set_profile_def get_profile_def act_simps profile_validate_dump)
qed

text \<open>
  A management call is authorised exactly when its secret has eight characters or more and
  equals the stored one, or, when it does not equal it or none is stored, the one the controller
  then returns; in both cases the accepted secret is the stored one afterwards.
\<close>

theorem validate_shared_secret_sound:
  assumes "validate_shared_secret X secret s = (Inr (), t)"
  shows "8 \<le> length secret \<and> map_of (sh_kv t) STORE_KEY_SHARED_KEY = Some (JStr secret)
    \<and> (t = s \<or> fst (refresh_shared_secret X s) = Inr (JStr secret))"
proof -
  have len: "8 \<le> length secret"
    using assms by (auto simp: validate_shared_secret_def act_simps split: if_splits)
  have stored: "map_of (sh_kv u) STORE_KEY_SHARED_KEY = Some e"
    if "refresh_shared_secret X s = (Inr e, u)" for e u
    using that unfolding refresh_shared_secret_def
    by (auto simp: bnd_Inr_iff seq_Inr_iff act_atoms set_value_apply)
  show ?thesis
  proof (cases "map_of (sh_kv s) STORE_KEY_SHARED_KEY = Some (JStr secret)")
    case True
    then show ?thesis
      using assms len by (simp add: validate_shared_secret_def act_simps)
  next
    case False
    then have "bnd (refresh_shared_secret X)
        (\<lambda>e. if JStr secret \<noteq> e then raise SharedSecretInvalid else ret ()) s = (Inr (), t)"
      using assms len
      by (auto simp: validate_shared_secret_def act_simps(9) get_value_apply split: option.splits)
    then obtain e u where r: "refresh_shared_secret X s = (Inr e, u)"
      "(if JStr secret \<noteq> e then raise SharedSecretInvalid else ret ()) u = (Inr (), t)"
      by (auto simp: bnd_Inr_iff)
    then have "e = JStr secret" "u = t"
      by (auto simp: act_simps split: if_splits)
    then show ?thesis using len r(1) stored by simp
  qed
qed

lemma validate_shared_secret_sound_witness:
  "8 \<le> length ''12345678'' \<and>
   fst (validate_shared_secret sample_ext ''12345678''
     (sample_shard\<lparr>sh_kv := [(STORE_KEY_SHARED_KEY, JStr ''12345678'')]\<rparr>)) = Inr ()"
  using validate_shared_secret_sound [of sample_ext "''12345678''"
      "sample_shard\<lparr>sh_kv := [(STORE_KEY_SHARED_KEY, JStr ''12345678'')]\<rparr>"
      "sample_shard\<lparr>sh_kv := [(STORE_KEY_SHARED_KEY, JStr ''12345678'')]\<rparr>"]
  by (simp add: validate_shared_secret_def act_simps)

end
