(* ===== verification/Peers.thy ===== *)
theory Peers
  imports Controller
begin

text \<open>
  \<open>data_model/peer.py\<close>, \<open>service/peer.py\<close> and \<open>web/protected/peers.py\<close>: the table of other shards,
  the refresh of their metadata over HTTP and the verification of requests they sign.  Checking an
  HTTP signature is the parameter \<open>x_verify_signature\<close>, which gets the key resolver.
\<close>

section \<open>data_model/peer.py\<close>

definition must_be_long_enough :: "string \<Rightarrow> string result" where
  "must_be_long_enough v = (if length v < 6 then Inl ValidationError else Inr v)"

text \<open>\<open>Peer(**row)\<close>; a key that cannot be parsed is a \<open>ValueError\<close>, which pydantic wraps.\<close>

definition peer_of :: "'e ext \<Rightarrow> peer_row \<Rightarrow> peer_row result" where
  "peer_of X p =
     bind_res (must_be_long_enough (pe_id p)) (\<lambda>_.
       case pe_public_bytes_b64 p of
         None \<Rightarrow> Inr p
       | Some k \<Rightarrow>
           if k = [] then Inr p
           else (case bind_res (public_key_bytes X k) (to_hash_id X) of
                   Inl _ \<Rightarrow> Inl ValidationError
                 | Inr h \<Rightarrow> if starts_with (pe_id p) h then Inr p else Inl ValidationError))"

definition new_peer :: "string \<Rightarrow> string option \<Rightarrow> string option \<Rightarrow> peer_row" where
  "new_peer i n k = \<lparr>pe_id = i, pe_name = n, pe_public_bytes_b64 = k, pe_is_reachable = Some True\<rparr>"

section \<open>service/peer.py\<close>

definition get_peer_by_id :: "'e ext \<Rightarrow> string \<Rightarrow> ('e shard, peer_row) act" where
  "get_peer_by_id X i =
     bnd (db_peers (peers_get_by_id_prefix i)) (\<lambda>p.
       case p of Some p \<Rightarrow> lift_res (peer_of X p) | None \<Rightarrow> raise (KeyError i))"

definition parse_output_identity :: "json \<Rightarrow> output_identity result" where
  "parse_output_identity j =
     (case j of
        JObj d \<Rightarrow>
          bind_res (required as_str d ''id'') (\<lambda>i.
          bind_res (required as_str d ''name'') (\<lambda>n.
          bind_res (optional as_str d ''email'') (\<lambda>em.
          bind_res (optional as_str d ''description'') (\<lambda>ds.
          bind_res (required as_bool d ''is_default'') (\<lambda>df.
          bind_res (required as_str d ''public_key_pem'') (\<lambda>pem.
          bind_res (required as_str d ''domain'') (\<lambda>dom.
          Inr \<lparr>oi_id = i, oi_name = n, oi_email = em, oi_description = ds, oi_is_default = df,
               oi_public_key_pem = pem, oi_domain = dom\<rparr>)))))))
      | _ \<Rightarrow> Inl TypeError)"

definition output_identity_to_peer :: "'e ext \<Rightarrow> output_identity \<Rightarrow> peer_row result" where
  "output_identity_to_peer X i =
     bind_res (public_key_bytes X (oi_public_key_pem i)) (\<lambda>k.
       peer_of X (new_peer (oi_id i) (Some (oi_name i)) (Some k)))"

definition mark_unreachable :: "string \<Rightarrow> ('e shard, unit) act" where
  "mark_unreachable i = seq (db_peers (peers_update_by_id i [(''is_reachable'', JBool False)])) (ret ())"

definition peer_update_data :: "peer_row \<Rightarrow> dict" where
  "peer_update_data p =
     [(''name'', or_null JStr (pe_name p)), (''public_bytes_b64'', or_null JStr (pe_public_bytes_b64 p)),
      (''is_reachable'', or_null JBool (pe_is_reachable p))]"

text \<open>
  The second \<open>except\<close> clause names \<open>httpx.HTTPStatusError\<close>, while the response comes from \<open>requests\<close>.
\<close>

definition update_peer_meta :: "'e ext \<Rightarrow> peer_row \<Rightarrow> ('e shard, unit) act" where
  "update_peer_meta X peer =
     try_else (world_res (x_requests_get X
         (''https://'' @ short_id (pe_id peer) @ ''.freeshard.cloud/core/public/meta/whoareyou'')))
       (\<lambda>e. case e of RequestsConnectionError \<Rightarrow> mark_unreachable (pe_id peer) | _ \<Rightarrow> raise e)
       (\<lambda>response.
         try_else (raise_for_status response)
           (\<lambda>e. case e of HTTPXStatusError _ \<Rightarrow> mark_unreachable (pe_id peer) | _ \<Rightarrow> raise e)
           (\<lambda>_.
             bnd (lift_res (bind_res (response_json response) parse_output_identity)) (\<lambda>peer_identity.
             if \<not> starts_with (pe_id peer) (oi_id peer_identity)
             then raise (KeyError (oi_id peer_identity))
             else
               bnd (lift_res (output_identity_to_peer X peer_identity)) (\<lambda>updated_peer.
               seq (db_peers (peers_update_by_id (pe_id peer) (peer_update_data updated_peer)))
               (ret ())))))"

definition has_pubkey :: "peer_row \<Rightarrow> bool" where
  "has_pubkey p \<longleftrightarrow> (case pe_public_bytes_b64 p of None \<Rightarrow> False | Some k \<Rightarrow> k \<noteq> [])"

definition update_all_peer_pubkeys :: "'e ext \<Rightarrow> ('e shard, unit) act" where
  "update_all_peer_pubkeys X =
     bnd (db_peers peers_get_all) (\<lambda>all_peers.
     bnd (lift_res (collect_res (peer_of X) (filter has_pubkey all_peers))) (\<lambda>with_pubkey.
     gather (map (update_peer_meta X) with_pubkey)))"

text \<open>\<open>_PreloadedKR\<close>: a later peer with the same short id replaces an earlier one.\<close>

definition peers_by_prefix :: "peer_row list \<Rightarrow> (string \<times> peer_row) list" where
  "peers_by_prefix ps = fold (\<lambda>p d. dict_set d (short_id (pe_id p)) p) ps []"

definition resolve_public_key :: "(string \<times> peer_row) list \<Rightarrow> string \<Rightarrow> string result" where
  "resolve_public_key d key_id =
     (case map_of d key_id of
        None \<Rightarrow> Inl (KeyError key_id)
      | Some p \<Rightarrow> (case pe_public_bytes_b64 p of
                     None \<Rightarrow> Inl (KeyError key_id)
                   | Some k \<Rightarrow> if k = [] then Inl (KeyError key_id) else Inr k))"

definition header :: "http_request \<Rightarrow> string \<Rightarrow> string result" where
  "header rq k = (case map_of (rq_headers rq) k of None \<Rightarrow> Inl (KeyError k) | Some v \<Rightarrow> Inr v)"

definition verify_peer_auth :: "'e ext \<Rightarrow> http_request \<Rightarrow> ('e shard, peer_row) act" where
  "verify_peer_auth X rq =
     bnd (lift_res (header rq ''x-forwarded-method'')) (\<lambda>_.
     bnd (lift_res (header rq ''x-forwarded-proto'')) (\<lambda>_.
     bnd (lift_res (header rq ''x-forwarded-host'')) (\<lambda>_.
     bnd (lift_res (header rq ''x-forwarded-uri'')) (\<lambda>_.
     bnd (db_peers peers_get_all) (\<lambda>rows.
     bnd (lift_res (collect_res (peer_of X) rows)) (\<lambda>all_peers.
     bnd (lift_res (x_verify_signature X (resolve_public_key (peers_by_prefix all_peers)) rq)) (\<lambda>key_id.
     get_peer_by_id X key_id)))))))"

section \<open>web/protected/peers.py\<close>

definition list_all_peers :: "string option \<Rightarrow> ('e shard, peer_row list) act" where
  "list_all_peers name =
     (case name of
        Some n \<Rightarrow> if n \<noteq> [] then db_peers (peers_search_by_name n) else db_peers peers_get_all
      | None \<Rightarrow> db_peers peers_get_all)"

definition get_peer :: "'e ext \<Rightarrow> string \<Rightarrow> ('e shard, peer_row) act" where
  "get_peer X i =
     try_except (get_peer_by_id X i)
       (\<lambda>e. case e of KeyError _ \<Rightarrow> raise (HTTPException 404) | _ \<Rightarrow> raise e)"

text \<open>\<open>PUT /peers\<close> of an \<open>InputPeer\<close>; too short an id is refused with 422 before the handler.\<close>

definition put_peer :: "'e ext \<Rightarrow> string \<Rightarrow> string option \<Rightarrow> ('e shard, peer_row) act" where
  "put_peer X i name =
     (case must_be_long_enough i of
        Inl _ \<Rightarrow> raise (HTTPException 422)
      | Inr _ \<Rightarrow>
          bnd (db_peers (peers_get_by_id_prefix i)) (\<lambda>existing.
          seq (if existing \<noteq> None
               then seq (db_peers (peers_update_by_id_prefix i [(''name'', or_null JStr name)])) (ret ())
               else seq (db_peers (peers_insert (new_peer i name None))) (ret ()))
          (bnd (lift_res (peer_of X (new_peer i name None))) (\<lambda>peer.
           seq (update_peer_meta X peer)
           (ret peer)))))"

definition delete_peer :: "string \<Rightarrow> ('e shard, unit) act" where
  "delete_peer i = seq (db_peers (peers_remove_by_id_prefix i)) (ret ())"

section \<open>Lemmas\<close>

lemma like_percent_percent [simp]: "like ''%%'' s"
  by (induction s) (simp_all add: like.simps(2) [of _ "''%''"])

lemma wildcard_free_take: "wildcard_free p \<Longrightarrow> wildcard_free (take n p)"
  unfolding wildcard_free_def list_all_iff by (meson in_set_takeD)

lemma peers_by_prefix_fold:
  "map_of (fold (\<lambda>p d. dict_set d (short_id (pe_id p)) p) ps d) k = Some q \<Longrightarrow>
     (q \<in> set ps \<and> short_id (pe_id q) = k) \<or> map_of d k = Some q"
proof (induction ps arbitrary: d)
  case (Cons p ps)
  from Cons.IH [OF Cons.prems [simplified]] show ?case
    by (auto split: if_splits)
qed simp

lemma peers_by_prefix_Some:
  "map_of (peers_by_prefix ps) k = Some q \<Longrightarrow> q \<in> set ps \<and> short_id (pe_id q) = k"
  using peers_by_prefix_fold [of ps "[]" k q] by (simp add: peers_by_prefix_def)

lemma resolve_public_key_Inr:
  "resolve_public_key (peers_by_prefix ps) k = Inr key \<Longrightarrow>
     \<exists>q \<in> set ps. short_id (pe_id q) = k \<and> pe_public_bytes_b64 q = Some key \<and> key \<noteq> []"
  by (auto simp: resolve_public_key_def dest!: peers_by_prefix_Some split: option.splits if_splits)

lemma peer_of_Inr:
  "peer_of X p = Inr q \<longleftrightarrow>
     q = p \<and> 6 \<le> length (pe_id p) \<and>
     (\<forall>k. pe_public_bytes_b64 p = Some k \<longrightarrow> k \<noteq> [] \<longrightarrow>
        (\<exists>b h. public_key_bytes X k = Inr b \<and> to_hash_id X b = Inr h \<and> starts_with (pe_id p) h))"
  by (auto simp: peer_of_def must_be_long_enough_def bind_res_def split: option.splits sum.splits if_splits)

lemma collect_peers: "collect_res (peer_of X) rows = Inr ps \<Longrightarrow> ps = rows \<and> (\<forall>p \<in> set rows. peer_of X p = Inr p)"
proof (induction rows arbitrary: ps)
  case (Cons r rows)
  then show ?case using peer_of_Inr [of X r] by auto
qed simp

definition peers_valid :: "'e ext \<Rightarrow> peer_row list \<Rightarrow> bool" where
  "peers_valid X ps \<longleftrightarrow> tbl_ok pe_id ps \<and> list_all (\<lambda>p. peer_of X p = Inr p) ps"

lemma output_identity_to_peer_Inr:
  assumes "output_identity_to_peer X i = Inr p"
  shows "\<exists>k. public_key_bytes X (oi_public_key_pem i) = Inr k
    \<and> p = new_peer (oi_id i) (Some (oi_name i)) (Some k) \<and> peer_of X p = Inr p"
proof -
  from assms obtain k where k: "public_key_bytes X (oi_public_key_pem i) = Inr k"
      "peer_of X (new_peer (oi_id i) (Some (oi_name i)) (Some k)) = Inr p"
    by (auto simp: output_identity_to_peer_def)
  moreover have "p = new_peer (oi_id i) (Some (oi_name i)) (Some k)"
    using k(2) by (simp add: peer_of_Inr)
  ultimately show ?thesis by blast
qed

text \<open>The columns a successful refresh writes.\<close>

lemma peer_update_columns:
  "set_clauses set_peer_column (peer_update_data (new_peer i (Some n) (Some k))) =
     Inr (\<lambda>r. r\<lparr>pe_name := Some n, pe_public_bytes_b64 := Some k, pe_is_reachable := Some True\<rparr>)"
  by (simp add: peer_update_data_def new_peer_def set_peer_column_def text_cell_def or_null_def)

lemma tbl_ok_map:
  "(\<And>r. key (f r) = key r) \<Longrightarrow> tbl_ok key (map (\<lambda>r. if p r then f r else r) t) = tbl_ok key t"
proof -
  assume "\<And>r. key (f r) = key r"
  then have "map key (map (\<lambda>r. if p r then f r else r) t) = map key t" by simp
  then show ?thesis by (simp add: tbl_ok_def del: map_map)
qed

lemma peers_valid_refresh:
  assumes "peers_valid X ps" and "starts_with i (pe_id q)" and "peer_of X q = Inr q"
    and "q = new_peer j (Some n) (Some k)"
  shows "peers_valid X (snd (peers_update_by_id i (peer_update_data q) ps))"
proof -
  let ?f = "\<lambda>r. r\<lparr>pe_name := Some n, pe_public_bytes_b64 := Some k, pe_is_reachable := Some True\<rparr>"
  have "peer_of X (?f r) = Inr (?f r)" if "pe_id r = i" "peer_of X r = Inr r" for r
    using that assms(2-4) starts_with_trans [of i j]
    by (auto simp: peer_of_Inr new_peer_def)
  moreover have "tbl_ok pe_id (map (\<lambda>r. if pe_id r = i then ?f r else r) ps)"
    using assms(1) tbl_ok_map [of pe_id ?f "\<lambda>r. pe_id r = i" ps] by (simp add: peers_valid_def)
  moreover have "peer_update_data q \<noteq> []" by (simp add: peer_update_data_def)
  ultimately show ?thesis
    using assms(1)
    by (auto simp: peers_valid_def peers_update_by_id_def assms(4) peer_update_columns act_simps
        tbl_update_def Let_def list_all_iff)
qed

lemma peers_valid_map:
  assumes "peers_valid X ps"
    and "\<And>r. pe_id (f r) = pe_id r" and "\<And>r. pe_public_bytes_b64 (f r) = pe_public_bytes_b64 r"
  shows "peers_valid X (map (\<lambda>r. if p r then f r else r) ps)"
proof -
  have "peer_of X (f r) = Inr (f r)" if "peer_of X r = Inr r" for r
    using that assms(2,3) by (auto simp: peer_of_Inr)
  then show ?thesis
    using assms(1) tbl_ok_map [of pe_id f p ps] assms(2)
    by (auto simp: peers_valid_def list_all_iff)
qed

lemma peers_valid_unreachable:
  "peers_valid X ps \<Longrightarrow> peers_valid X (snd (peers_update_by_id i [(''is_reachable'', JBool False)] ps))"
  by (simp add: peers_update_by_id_def set_peer_column_def act_simps tbl_update_def Let_def peers_valid_map)

abbreviation valid_peers :: "'e ext \<Rightarrow> 'e shard \<Rightarrow> bool" where
  "valid_peers X s \<equiv> peers_valid X (sh_peers s)"

lemma preserves_mark_unreachable: "moves (preserves (valid_peers X)) (mark_unreachable i)"
  unfolding mark_unreachable_def
  by (intro preserves.moves_rules moves_preserves_zoom peers_valid_unreachable) simp_all

lemma preserves_world_res: "moves (preserves (valid_peers X)) (world_res g)"
  by (rule moves_preserves_keeps) (simp add: moves_keeps_world_res)

lemma preserves_refresh:
  assumes "starts_with i (oi_id j)"
  shows "moves (preserves (valid_peers X))
    (bnd (lift_res (output_identity_to_peer X j)) (\<lambda>q.
       seq (db_peers (peers_update_by_id i (peer_update_data q))) (ret ())) :: ('e shard, unit) act)"
proof (cases "output_identity_to_peer X j")
  case (Inl e)
  then show ?thesis by (simp add: moves_def preserves_def act_simps)
next
  case (Inr q)
  then obtain k where q: "q = new_peer (oi_id j) (Some (oi_name j)) (Some k)" "peer_of X q = Inr q"
    using output_identity_to_peer_Inr by blast
  have "moves (preserves (valid_peers X))
      (db_peers (peers_update_by_id i (peer_update_data q)) :: ('e shard, peer_row option) act)"
    by (rule moves_preserves_zoom, simp)
      (rule peers_valid_refresh [OF _ _ q(2) q(1)], use assms q(1) in \<open>simp_all add: new_peer_def\<close>)
  then have "moves (preserves (valid_peers X))
      (seq (db_peers (peers_update_by_id i (peer_update_data q))) (ret ()) :: ('e shard, unit) act)"
    by (intro preserves.moves_rules)
  then show ?thesis
    by (simp add: moves_def Inr bnd_def lift_res_def)
qed

lemma preserves_update_peer_meta: "moves (preserves (valid_peers X)) (update_peer_meta X p)"
proof -
  have split: "moves (preserves (valid_peers X))
     (if \<not> starts_with i (oi_id j) then raise e
      else bnd (lift_res (output_identity_to_peer X j)) (\<lambda>q.
             seq (db_peers (peers_update_by_id i (peer_update_data q))) (ret ())))" for i j e
    using preserves_refresh [of i j X] by (auto intro: preserves.moves_rules)
  show ?thesis
    unfolding update_peer_meta_def raise_for_status_def
    by (auto intro!: preserves.moves_bnd preserves.moves_try_else preserves_world_res split
        preserves_mark_unreachable preserves.moves_lift_res preserves.moves_if preserves.moves_ret
        preserves.moves_raise split: exn.split)
qed

lemma preserves_put_peer: "moves (preserves (valid_peers X)) (put_peer X i name)"
proof (cases "length i < 6")
  case True
  then show ?thesis
    by (simp add: put_peer_def must_be_long_enough_def preserves.moves_raise)
next
  case False
  have ins: "peers_valid X (snd (peers_insert (new_peer i name None) ps))" if "peers_valid X ps" for ps
  proof -
    have "tbl_ok pe_id (snd (tbl_insert pe_id (new_peer i name None) ps))"
      using that by (intro peers_table.ok_ins) (simp add: peers_valid_def)
    moreover have "peer_of X (new_peer i name None) = Inr (new_peer i name None)"
      using False by (simp add: peer_of_Inr new_peer_def)
    ultimately show ?thesis
      using that by (auto simp: peers_valid_def peers_insert_def tbl_insert_def)
  qed
  have upd: "peers_valid X (snd (peers_update_by_id_prefix i [(''name'', or_null JStr name)] ps))"
    if "peers_valid X ps" for ps
    using that
    by (auto simp: peers_update_by_id_prefix_def set_peer_column_def text_cell_def or_null_def act_simps
        peers_valid_map split: option.split)
  have get: "moves (preserves (valid_peers X)) (db_peers (peers_get_by_id_prefix i))"
    by (rule movesI) (simp add: preserves_def peers_get_by_id_prefix_def act_simps)
  show ?thesis
    unfolding put_peer_def must_be_long_enough_def
    using False
    by (auto intro!: preserves.moves_rules moves_preserves_zoom ins upd get preserves_update_peer_meta)
qed

lemma preserves_delete_peer: "moves (preserves (valid_peers X)) (delete_peer i)"
proof -
  have "peers_valid X (snd (peers_remove_by_id_prefix i ps))" if "peers_valid X ps" for ps
    using that
    by (auto simp: peers_valid_def peers_remove_by_id_prefix_def tbl_delete_def tbl_ok_def
        distinct_map_filter list_all_iff)
  then show ?thesis
    unfolding delete_peer_def by (intro preserves.moves_rules moves_preserves_zoom) simp_all
qed

section \<open>Properties\<close>

text \<open>
  C23. Every row of the peer table has an id of its own, of at least six characters, and a public
  key, if it has one, whose hash id starts with the row's id; \<open>PUT /peers\<close>, the metadata refresh and
  \<open>DELETE /peers\<close> keep this, whatever the other shard answers and whether they return or raise.
\<close>

theorem peer_table_stays_valid:
  assumes "valid_peers X s"
  shows "valid_peers X (snd (put_peer X i name s)) \<and> valid_peers X (snd (update_peer_meta X p s))
    \<and> valid_peers X (snd (update_all_peer_pubkeys X s)) \<and> valid_peers X (snd (delete_peer j s))"
proof -
  have "moves (preserves (valid_peers X)) (db_peers peers_get_all)"
    by (rule movesI) (simp add: preserves_def peers_get_all_def act_simps)
  then have "moves (preserves (valid_peers X)) (update_all_peer_pubkeys X)"
    unfolding update_all_peer_pubkeys_def
    by (auto intro!: preserves.moves_bnd preserves.moves_lift_res preserves.moves_gather
        preserves_update_peer_meta)
  then show ?thesis
    using assms preserves_put_peer [of X i name] preserves_update_peer_meta [of X p]
      preserves_delete_peer [of X j]
    by (simp add: moves_def preserves_def)
qed

definition sample_peer :: peer_row where
  "sample_peer = new_peer ''abcdef'' (Some ''p'') None"

lemma peer_table_stays_valid_witness:
  "valid_peers sample_ext (snd (put_peer sample_ext ''ghijkl'' None (sample_shard\<lparr>sh_peers := [sample_peer]\<rparr>)))"
  using peer_table_stays_valid [of sample_ext "sample_shard\<lparr>sh_peers := [sample_peer]\<rparr>" "''ghijkl''" None]
  by (simp add: peers_valid_def tbl_ok_def peer_of_Inr sample_peer_def new_peer_def)

text \<open>
  When the other shard cannot be reached, its row is marked unreachable; but when it answers
  with an HTTP error the handler for that does not match the exception of \<open>requests\<close>: the refresh
  raises, and the row still says what it said before.
\<close>

theorem update_peer_meta_failures:
  assumes "x_requests_get X (''https://'' @ short_id (pe_id p) @ ''.freeshard.cloud/core/public/meta/whoareyou'')
      (sh_env s) = (ans, e)"
  shows "(ans = Inl RequestsConnectionError \<longrightarrow>
       update_peer_meta X p s = (Inr (), s\<lparr>sh_env := e,
         sh_peers := map (\<lambda>r. if pe_id r = pe_id p then r\<lparr>pe_is_reachable := Some False\<rparr> else r) (sh_peers s)\<rparr>))
    \<and> (\<forall>r. ans = Inr r \<longrightarrow> 400 \<le> status_code r \<longrightarrow>
       update_peer_meta X p s = (Inl (RequestsHTTPError (status_code r)), s\<lparr>sh_env := e\<rparr>))"
  using assms
  by (auto simp: update_peer_meta_def world_res_def act_simps raise_for_status_def mark_unreachable_def
      peers_update_by_id_def set_peer_column_def tbl_update_def Let_def)

lemma update_peer_meta_failures_witness:
  "update_peer_meta sample_ext sample_peer (sample_shard\<lparr>sh_peers := [sample_peer]\<rparr>) =
     (Inl (RequestsHTTPError 404), sample_shard\<lparr>sh_peers := [sample_peer], sh_env := 0\<rparr>)"
  using update_peer_meta_failures [where X = sample_ext and p = sample_peer and
      s = "sample_shard\<lparr>sh_peers := [sample_peer]\<rparr>" and e = 0 and
      ans = "Inr \<lparr>status_code = 404, body_text = [], body_json = None\<rparr>"]
  by (simp add: sample_ext_def sample_shard_def)

text \<open>
  \<open>DELETE /peers\<close>: an id without \<open>LIKE\<close> wildcards removes exactly the peers whose id starts
  with it; the id \<open>%\<close> removes every peer.
\<close>

theorem delete_peer_prefix:
  shows "(wildcard_free i \<longrightarrow>
       delete_peer i s = (Inr (), s\<lparr>sh_peers := filter (\<lambda>p. \<not> starts_with i (pe_id p)) (sh_peers s)\<rparr>))
    \<and> delete_peer ''%'' s = (Inr (), s\<lparr>sh_peers := []\<rparr>)"
  by (simp add: delete_peer_def peers_remove_by_id_prefix_def tbl_delete_def act_simps like_prefix)

lemma delete_peer_prefix_witness:
  "delete_peer ''abc'' (sample_shard\<lparr>sh_peers := [sample_peer]\<rparr>) = (Inr (), sample_shard)"
  using delete_peer_prefix [where i = "''abc''" and s = "sample_shard\<lparr>sh_peers := [sample_peer]\<rparr>"]
  by (simp add: wildcard_free_def sample_peer_def new_peer_def starts_with_def sample_shard_def)

definition signature_resolves :: "'e ext \<Rightarrow> bool" where
  "signature_resolves X \<longleftrightarrow>
     (\<forall>keys r k. x_verify_signature X keys r = Inr k \<longrightarrow> (\<exists>key. keys k = Inr key))"

text \<open>A hash id has none of the wildcards of \<open>LIKE\<close>, since the alphabet of ids has none.\<close>

lemma lookup_all_chars_of: "lookup_all m gs = Inr s \<Longrightarrow> set s \<subseteq> snd ` set m"
proof (induction gs arbitrary: s)
  case (Cons g gs)
  then obtain c cs where c: "map_of m g = Some c" "lookup_all m gs = Inr cs" "s = c # cs"
    by (auto split: option.splits)
  then have "c \<in> snd ` set m" by (force dest: map_of_SomeD)
  then show ?case using c Cons.IH by simp
qed simp

lemma hash_id_wildcard_free:
  assumes "to_hash_id X b = Inr h"
  shows "wildcard_free h"
proof -
  have "list_all (\<lambda>c. c \<noteq> CHR ''%'' \<and> c \<noteq> CHR ''_'' \<and> c \<noteq> CHR 0x5C) (map snd (bits_to_char default_encoding))"
    by code_simp
  moreover have "set h \<subseteq> snd ` set (bits_to_char default_encoding)"
    using assms by (auto simp: to_hash_id_def encode_def dest: lookup_all_chars_of split: if_splits)
  ultimately show ?thesis by (fastforce simp: wildcard_free_def list_all_iff)
qed

lemma wildcard_free_prefix: "starts_with p s \<Longrightarrow> wildcard_free s \<Longrightarrow> wildcard_free p"
  by (metis starts_with_def wildcard_free_take)

text \<open>
  C22. What a request that authenticates as a peer was checked against, given only that the signature
  library returns a key id after the resolver returned a key for it: the signature holds under the stored
  key of some peer in the table, whose id is the beginning of the hash id of that key, and whose first
  six characters are those of the peer the request is taken for; nothing is changed.  If no two peers
  share their first six characters, it is the key of the very peer the request is taken for.  Nothing
  in the shard ensures that: when two do share them, the key of one can authenticate a request as the
  other, as the example below shows.
\<close>

theorem verify_peer_auth_sound:
  assumes "signature_resolves X" and "verify_peer_auth X rq s = (Inr p, t)"
  shows "t = s \<and> p \<in> set (sh_peers s) \<and>
    (\<exists>q key b h. q \<in> set (sh_peers s) \<and> short_id (pe_id q) = short_id (pe_id p)
       \<and> pe_public_bytes_b64 q = Some key \<and> public_key_bytes X key = Inr b \<and> to_hash_id X b = Inr h
       \<and> starts_with (pe_id q) h \<and> starts_with (short_id (pe_id p)) h
       \<and> resolve_public_key (peers_by_prefix (sh_peers s)) (short_id (pe_id p)) = Inr key
       \<and> x_verify_signature X (resolve_public_key (peers_by_prefix (sh_peers s))) rq = Inr (short_id (pe_id p))
       \<and> (distinct (map (short_id \<circ> pe_id) (sh_peers s)) \<longrightarrow> q = p))"
proof -
  obtain k where ps: "\<forall>q \<in> set (sh_peers s). peer_of X q = Inr q"
      and k: "x_verify_signature X (resolve_public_key (peers_by_prefix (sh_peers s))) rq = Inr k"
      and get: "get_peer_by_id X k s = (Inr p, t)"
    using assms(2)
    by (auto simp: verify_peer_auth_def bnd_Inr_iff act_atoms zoom_def peers_get_all_def dest!: collect_peers)
  obtain key where key: "resolve_public_key (peers_by_prefix (sh_peers s)) k = Inr key"
    using assms(1) k unfolding signature_resolves_def by blast
  then obtain q where q: "q \<in> set (sh_peers s)" "short_id (pe_id q) = k"
      "pe_public_bytes_b64 q = Some key" "key \<noteq> []"
    using resolve_public_key_Inr by blast
  obtain r where r: "find (\<lambda>r. like (k @ ''%'') (pe_id r)) (sh_peers s) = Some r" "peer_of X r = Inr p" "t = s"
    using get by (auto simp: get_peer_by_id_def peers_get_by_id_prefix_def act_simps split: option.splits)
  have "p = r" using r(2) unfolding peer_of_Inr by blast
  then have p: "p \<in> set (sh_peers s)" "like (k @ ''%'') (pe_id p)"
    using conjunct1 [OF find_SomeD [OF r(1)]] conjunct2 [OF find_SomeD [OF r(1)]] by simp_all
  have len: "6 \<le> length (pe_id q)" using ps q(1) by (auto simp: peer_of_Inr)
  obtain b h where h: "public_key_bytes X key = Inr b" "to_hash_id X b = Inr h" "starts_with (pe_id q) h"
    using ps q(1,3,4) by (fastforce simp: peer_of_Inr)
  have "starts_with k (pe_id q)" using q(2) len by (auto simp: starts_with_def short_id_def min_def)
  then have kh: "starts_with k h" using h(3) starts_with_trans by blast
  then have "wildcard_free k"
    using wildcard_free_prefix hash_id_wildcard_free [OF h(2)] by blast
  then have "starts_with k (pe_id p)" using p(2) like_prefix by blast
  then have same: "short_id (pe_id p) = k"
    using q(2) len by (auto simp: starts_with_def short_id_def)
  moreover have "q = p" if "distinct (map (short_id \<circ> pe_id) (sh_peers s))"
    using that p(1) q(1,2) same by (auto simp: distinct_map comp_def dest: inj_onD)
  ultimately show ?thesis
    using p(1) q r(3) k key h kh by blast
qed

lemma sample_signature_resolves: "signature_resolves sample_ext"
  by (auto simp: signature_resolves_def sample_ext_def)

lemma zero_digest_id: "encode default_encoding (replicate 64 0) = Inr (replicate 103 CHR ''a'')"
  by code_simp

lemma sample_hash_id: "to_hash_id sample_ext k = Inr (replicate 103 CHR ''a'')"
  by (simp only: to_hash_id_def sample_ext_def ext.simps zero_digest_id)

definition signing_peer :: peer_row where
  "signing_peer = new_peer ''aaaaaa'' None (Some ''k'')"

definition signed_by_peer :: http_request where
  "signed_by_peer =
     \<lparr>rq_headers = [(''x-forwarded-method'', ''GET''), (''x-forwarded-proto'', ''https''),
                   (''x-forwarded-host'', ''a.z''), (''x-forwarded-uri'', ''/'')],
      rq_body = ''aaaaaa''\<rparr>"

lemma signing_peer_of: "peer_of sample_ext signing_peer = Inr signing_peer"
proof -
  have "starts_with ''aaaaaa'' (replicate 103 CHR ''a'')" by code_simp
  moreover have "public_key_bytes sample_ext ''k'' = Inr ''k''"
    by (simp add: public_key_bytes_def sample_ext_def)
  ultimately show ?thesis
    by (simp add: peer_of_Inr signing_peer_def new_peer_def sample_hash_id)
qed

lemma signing_peer_like: "like (''aaaaaa'' @ ''%'') (pe_id signing_peer)"
  by (subst like_prefix) (simp_all add: wildcard_free_def signing_peer_def new_peer_def)

lemma signing_peer_accepted:
  "verify_peer_auth sample_ext signed_by_peer (sample_shard\<lparr>sh_peers := [signing_peer]\<rparr>)
     = (Inr signing_peer, sample_shard\<lparr>sh_peers := [signing_peer]\<rparr>)"
proof -
  have "short_id (pe_id signing_peer) = ''aaaaaa''" "pe_public_bytes_b64 signing_peer = Some ''k''"
    by (simp_all add: signing_peer_def new_peer_def short_id_def)
  then have "x_verify_signature sample_ext (resolve_public_key (peers_by_prefix [signing_peer])) signed_by_peer
      = Inr ''aaaaaa''"
    by (simp add: sample_ext_def signed_by_peer_def resolve_public_key_def peers_by_prefix_def)
  moreover have "find (\<lambda>r. like (''aaaaaa'' @ ''%'') (pe_id r)) [signing_peer] = Some signing_peer"
    using signing_peer_like by simp
  ultimately show ?thesis
    by (simp add: verify_peer_auth_def act_simps header_def signed_by_peer_def peers_get_all_def
        get_peer_by_id_def peers_get_by_id_prefix_def signing_peer_of)
qed

lemma verify_peer_auth_sound_witness:
  "\<exists>q key. q \<in> set [signing_peer] \<and> pe_public_bytes_b64 q = Some key
     \<and> resolve_public_key (peers_by_prefix [signing_peer]) (short_id (pe_id signing_peer)) = Inr key \<and> q = signing_peer"
  using verify_peer_auth_sound [OF sample_signature_resolves signing_peer_accepted] by auto

text \<open>
  Two peers that share their first six characters, as \<open>put_peer\<close> accepts them: the second has a key, the
  first has none, and a request signed with the key of the second is taken for one of the first.
\<close>

definition keyless_peer :: peer_row where
  "keyless_peer = new_peer ''aaaaaab'' None None"

definition keyed_peer :: peer_row where
  "keyed_peer = new_peer ''aaaaaaa'' None (Some ''k'')"

lemma key_of_another_peer:
  "verify_peer_auth sample_ext signed_by_peer (sample_shard\<lparr>sh_peers := [keyless_peer, keyed_peer]\<rparr>)
     = (Inr keyless_peer, sample_shard\<lparr>sh_peers := [keyless_peer, keyed_peer]\<rparr>)"
proof -
  have short: "short_id (pe_id keyless_peer) = ''aaaaaa''" "short_id (pe_id keyed_peer) = ''aaaaaa''"
    "pe_public_bytes_b64 keyed_peer = Some ''k''"
    by (simp_all add: keyless_peer_def keyed_peer_def new_peer_def short_id_def)
  have "starts_with ''aaaaaaa'' (replicate 103 CHR ''a'')" by code_simp
  moreover have "public_key_bytes sample_ext ''k'' = Inr ''k''"
    by (simp add: public_key_bytes_def sample_ext_def)
  ultimately have valid: "peer_of sample_ext keyed_peer = Inr keyed_peer" "peer_of sample_ext keyless_peer = Inr keyless_peer"
    by (simp_all add: peer_of_Inr keyed_peer_def keyless_peer_def new_peer_def sample_hash_id)
  have "resolve_public_key (peers_by_prefix [keyless_peer, keyed_peer]) ''aaaaaa'' = Inr ''k''"
    by (simp add: resolve_public_key_def peers_by_prefix_def short)
  then have "x_verify_signature sample_ext (resolve_public_key (peers_by_prefix [keyless_peer, keyed_peer])) signed_by_peer
      = Inr ''aaaaaa''"
    by (simp add: sample_ext_def signed_by_peer_def)
  moreover have "find (\<lambda>r. like (''aaaaaa'' @ ''%'') (pe_id r)) [keyless_peer, keyed_peer] = Some keyless_peer"
    by (subst like_prefix) (simp_all add: wildcard_free_def keyless_peer_def new_peer_def starts_with_def)
  ultimately show ?thesis
    by (simp add: verify_peer_auth_def act_simps header_def signed_by_peer_def peers_get_all_def
        get_peer_by_id_def peers_get_by_id_prefix_def valid)
qed

lemma put_peer_accepts_shared_prefix:
  "sh_peers (snd (put_peer sample_ext ''aaaaaaa'' None (sample_shard\<lparr>sh_peers := [keyless_peer]\<rparr>)))
     = [keyless_peer, new_peer ''aaaaaaa'' None None]"
  by code_simp

end
