(* ===== verification/Pairing.thy ===== *)
theory Pairing
  imports Controller
begin

text \<open>
  \<open>service/pairing.py\<close>, \<open>data_model/terminal.py\<close>, \<open>web/public/pair.py\<close>, \<open>web/protected/terminals.py\<close>
  and \<open>web/management/pairing_code.py\<close>: the one-time pairing code, the JWT that a paired terminal
  carries, and the table of terminals.  Encoding and decoding of a JWT are parameters.
\<close>

section \<open>Pairing codes\<close>

definition STORE_KEY_JWT_SECRET :: string where
  "STORE_KEY_JWT_SECRET = ''terminal_jwt_secret''"

definition STORE_KEY_PAIRING_CODE :: string where
  "STORE_KEY_PAIRING_CODE = ''pairing_code''"

record pairing_code =
  pc_code :: string
  pc_created :: real
  pc_valid_until :: real

definition pairing_code_dump :: "pairing_code \<Rightarrow> json" where
  "pairing_code_dump c = JObj
     [(''code'', JStr (pc_code c)), (''created'', JTime (pc_created c)),
      (''valid_until'', JTime (pc_valid_until c))]"

text \<open>\<open>PairingCode(**value)\<close>\<close>

definition pairing_code_of :: "json \<Rightarrow> pairing_code result" where
  "pairing_code_of j =
     (case j of
        JObj d \<Rightarrow>
          bind_res (required as_str d ''code'') (\<lambda>c.
          bind_res (required as_time d ''created'') (\<lambda>t.
          bind_res (required as_time d ''valid_until'') (\<lambda>u.
          Inr \<lparr>pc_code = c, pc_created = t, pc_valid_until = u\<rparr>)))
      | _ \<Rightarrow> Inl TypeError)"

text \<open>\<open>deadline or default\<close>: zero counts as missing.\<close>

definition effective_deadline :: "'e ext \<Rightarrow> int option \<Rightarrow> int" where
  "effective_deadline X deadline =
     (case deadline of None \<Rightarrow> pairing_code_deadline (cfg X)
      | Some d \<Rightarrow> if d = 0 then pairing_code_deadline (cfg X) else d)"

definition make_pairing_code :: "'e ext \<Rightarrow> int option \<Rightarrow> ('e shard, pairing_code) act" where
  "make_pairing_code X deadline =
     bnd (now X) (\<lambda>t.
     bnd (world (x_choices X 6 10)) (\<lambda>digits.
     bnd (ret \<lparr>pc_code = map digit_char digits, pc_created = t,
               pc_valid_until = t + of_int (effective_deadline X deadline)\<rparr>) (\<lambda>c.
     seq (set_value STORE_KEY_PAIRING_CODE (pairing_code_dump c))
     (ret c))))"

definition redeem_pairing_code :: "'e ext \<Rightarrow> string \<Rightarrow> ('e shard, unit) act" where
  "redeem_pairing_code X incoming_code =
     bnd (try_except
            (bnd (get_value STORE_KEY_PAIRING_CODE) (\<lambda>v. lift_res (pairing_code_of v)))
            (\<lambda>e. case e of KeyError _ \<Rightarrow> raise InvalidPairingCode | _ \<Rightarrow> raise e)) (\<lambda>existing.
     if pc_code existing \<noteq> incoming_code then raise InvalidPairingCode
     else bnd (now X) (\<lambda>t.
       if t > pc_valid_until existing then raise PairingCodeExpired
       else seq (remove_value STORE_KEY_PAIRING_CODE) (ret ())))"

section \<open>Terminal tokens\<close>

definition ensure_jwt_secret :: "'e ext \<Rightarrow> ('e shard, json) act" where
  "ensure_jwt_secret X =
     try_except (get_value STORE_KEY_JWT_SECRET)
       (\<lambda>e. case e of
              KeyError _ \<Rightarrow>
                bnd (world (x_token_urlsafe X (jwt_secret_length (cfg X)))) (\<lambda>secret.
                seq (set_value STORE_KEY_JWT_SECRET (JStr secret))
                (ret (JStr secret)))
            | _ \<Rightarrow> raise e)"

text \<open>The secret as a key: \<open>jwt\<close> rejects what is not a string.\<close>

definition secret_key :: "json \<Rightarrow> string result" where
  "secret_key v = (case v of JStr k \<Rightarrow> Inr k | _ \<Rightarrow> Inl TypeError)"

definition create_terminal_jwt :: "'e ext \<Rightarrow> string \<Rightarrow> ('e shard, string) act" where
  "create_terminal_jwt X terminal_id =
     bnd (ensure_jwt_secret X) (\<lambda>secret.
     bnd (now X) (\<lambda>t.
     bnd (lift_res (secret_key secret)) (\<lambda>k.
     ret (x_jwt_encode X [(''sub'', JStr terminal_id), (''iat'', JInt \<lfloor>t\<rfloor>)] k))))"

definition strip_bearer :: "string \<Rightarrow> string" where
  "strip_bearer token =
     (if starts_with ''Bearer '' token then drop (length ''Bearer '') token else token)"

definition verify_terminal_jwt :: "'e ext \<Rightarrow> string option \<Rightarrow> ('e shard, terminal_row) act" where
  "verify_terminal_jwt X token =
     (case token of
        None \<Rightarrow> raise InvalidJwt
      | Some tok \<Rightarrow>
          if tok = [] then raise InvalidJwt
          else
            bnd (ensure_jwt_secret X) (\<lambda>secret.
            bnd (lift_res (secret_key secret)) (\<lambda>k.
            case x_jwt_decode X (strip_bearer tok) k of
              None \<Rightarrow> raise InvalidJwt
            | Some decoded \<Rightarrow>
                bnd (lift_res (dict_item decoded ''sub'')) (\<lambda>sub.
                case sub of
                  JStr i \<Rightarrow>
                    bnd (db_terminals (terminals_get_by_id i)) (\<lambda>t.
                      case t of Some t \<Rightarrow> ret t | None \<Rightarrow> raise InvalidJwt)
                | _ \<Rightarrow> raise (OtherError ''DataError'')))))"

section \<open>Terminals\<close>

record input_terminal =
  it_name :: string
  it_icon :: icon

text \<open>\<open>Terminal.create(name)\<close>\<close>

definition create_terminal :: "'e ext \<Rightarrow> string \<Rightarrow> ('e shard, terminal_row) act" where
  "create_terminal X name =
     bnd (world (x_choices X 6 (length (char_to_bits default_encoding)))) (\<lambda>picks.
     bnd (lift_res (random_string default_encoding picks)) (\<lambda>i.
     bnd (now X) (\<lambda>t.
     ret \<lparr>tm_id = i, tm_name = name, tm_icon = Icon_UNKNOWN, tm_last_connection = Some t\<rparr>)))"

definition async_on_first_terminal_add :: "'e ext \<Rightarrow> ('e shard, unit) act" where
  "async_on_first_terminal_add X = enrich_identity_from_profile X"

text \<open>The result is the cookie: the token and the domain it is set for.\<close>

definition add_terminal ::
    "'e ext \<Rightarrow> string \<Rightarrow> input_terminal \<Rightarrow> ('e shard, string \<times> string) act" where
  "add_terminal X code terminal =
     seq (try_except (redeem_pairing_code X code)
            (\<lambda>e. case e of
                   PairingCodeExpired \<Rightarrow> raise (HTTPException 401)
                 | InvalidPairingCode \<Rightarrow> raise (HTTPException 401)
                 | _ \<Rightarrow> raise e))
     (bnd (create_terminal X (it_name terminal)) (\<lambda>new_terminal.
      seq (db_terminals (terminals_insert new_terminal))
      (bnd (db_terminals terminals_count) (\<lambda>n.
       bnd (db_identities identities_get_default) (\<lambda>row.
       bnd (identity_of X row) (\<lambda>default.
       bnd (create_terminal_jwt X (tm_id new_terminal)) (\<lambda>jwt.
       seq on_terminals_update
       (seq (on_terminal_add new_terminal)
       (seq (if n = 1 then async_on_first_terminal_add X else ret ())
       (ret (jwt, domain X (i_id default))))))))))))"

section \<open>web/protected/terminals.py\<close>

definition list_all_terminals :: "('e shard, terminal_row list) act" where
  "list_all_terminals = db_terminals terminals_get_all"

definition found_or_404 :: "'a option \<Rightarrow> ('s, 'a) act" where
  "found_or_404 v = (case v of None \<Rightarrow> raise (HTTPException 404) | Some x \<Rightarrow> ret x)"

definition get_terminal_by_id :: "string \<Rightarrow> ('e shard, terminal_row) act" where
  "get_terminal_by_id i = bnd (db_terminals (terminals_get_by_id i)) found_or_404"

definition get_terminal_by_name :: "string \<Rightarrow> ('e shard, terminal_row) act" where
  "get_terminal_by_name n = bnd (db_terminals (terminals_get_by_name n)) found_or_404"

text \<open>The signal is sent inside the connection block, before the update is committed.\<close>

definition edit_terminal :: "string \<Rightarrow> input_terminal \<Rightarrow> ('e shard, unit) act" where
  "edit_terminal i terminal =
     bnd (db_terminals (terminals_get_by_id i)) (\<lambda>t.
       case t of
         None \<Rightarrow> raise (HTTPException 404)
       | Some _ \<Rightarrow>
           commit_after sh_terminals sh_terminals_update
             (terminals_update i [Set_name (it_name terminal), Set_icon (it_icon terminal)])
             (\<lambda>_. on_terminals_update))"

definition delete_terminal_by_id :: "string \<Rightarrow> ('e shard, unit) act" where
  "delete_terminal_by_id i = seq (db_terminals (terminals_remove i)) on_terminals_update"

text \<open>Both endpoints that issue a code, for a terminal and for the controller.\<close>

definition new_pairing_code :: "'e ext \<Rightarrow> int option \<Rightarrow> ('e shard, pairing_code) act" where
  "new_pairing_code X deadline = make_pairing_code X deadline"

section \<open>Lemmas\<close>

lemma pairing_code_of_dump [simp]: "pairing_code_of (pairing_code_dump c) = Inr c"
  by (simp add: pairing_code_of_def pairing_code_dump_def required_def need_def)

lemma redeem_apply:
  "redeem_pairing_code X code s =
     (case map_of (sh_kv s) STORE_KEY_PAIRING_CODE of
        None \<Rightarrow> (Inl InvalidPairingCode, s)
      | Some v \<Rightarrow>
          (case pairing_code_of v of
             Inl e \<Rightarrow> ((case e of KeyError _ \<Rightarrow> Inl InvalidPairingCode | _ \<Rightarrow> Inl e), s)
           | Inr c \<Rightarrow>
               if pc_code c \<noteq> code then (Inl InvalidPairingCode, s)
               else (case x_time X (sh_env s) of
                  (t, e) \<Rightarrow>
                    if t > pc_valid_until c then (Inl PairingCodeExpired, s\<lparr>sh_env := e\<rparr>)
                    else (Inr (), s\<lparr>sh_env := e, sh_kv := dict_del (sh_kv s) STORE_KEY_PAIRING_CODE\<rparr>))))"
  by (simp add: redeem_pairing_code_def act_simps split: option.split sum.split exn.split prod.split)

lemma make_pairing_code_stores:
  assumes "make_pairing_code X d s = (Inr c, t)"
  shows "map_of (sh_kv t) STORE_KEY_PAIRING_CODE = Some (pairing_code_dump c)"
    and "pc_valid_until c = pc_created c + of_int (effective_deadline X d)"
    and "fst (x_time X (sh_env s)) = pc_created c"
  using assms by (auto simp: make_pairing_code_def act_simps split: prod.splits)

lemma ensure_secret_apply:
  "ensure_jwt_secret X s =
     (case map_of (sh_kv s) STORE_KEY_JWT_SECRET of
        Some v \<Rightarrow> (Inr v, s)
      | None \<Rightarrow> (case x_token_urlsafe X (jwt_secret_length (cfg X)) (sh_env s) of
                   (k, e) \<Rightarrow> (Inr (JStr k), s\<lparr>sh_env := e,
                      sh_kv := dict_set (sh_kv s) STORE_KEY_JWT_SECRET (JStr k)\<rparr>)))"
  by (simp add: ensure_jwt_secret_def act_simps split: option.split prod.split)

lemma secret_key_Inr: "secret_key v = Inr k \<longleftrightarrow> v = JStr k"
  by (cases v) (auto simp: secret_key_def)

lemma create_jwt_secret:
  assumes "create_terminal_jwt X i s = (Inr tok, t)"
  shows "\<exists>k n. map_of (sh_kv t) STORE_KEY_JWT_SECRET = Some (JStr k)
    \<and> tok = x_jwt_encode X [(''sub'', JStr i), (''iat'', JInt n)] k"
  using assms
  by (auto simp: create_terminal_jwt_def bnd_Inr_iff act_atoms now_apply ensure_secret_apply
      secret_key_Inr split: option.splits prod.splits)

text \<open>A token starts with neither nothing nor \<open>Bearer\<close>, and decodes with its own secret.\<close>

definition jwt_roundtrip :: "'e ext \<Rightarrow> bool" where
  "jwt_roundtrip X \<longleftrightarrow>
     (\<forall>i n k. let tok = x_jwt_encode X [(''sub'', JStr i), (''iat'', JInt n)] k in
        tok \<noteq> [] \<and> \<not> starts_with ''Bearer '' tok
        \<and> (\<exists>d. x_jwt_decode X tok k = Some d \<and> map_of d ''sub'' = Some (JStr i)))"

lemma sample_jwt_roundtrip: "jwt_roundtrip sample_ext"
  by (auto simp: jwt_roundtrip_def sample_ext_def sample_encode_def sample_decode_def starts_with_def
      eval_nat_numeral)

lemma strip_bearer_token:
  "\<not> starts_with ''Bearer '' tok \<Longrightarrow> tok' \<in> {tok, ''Bearer '' @ tok} \<Longrightarrow> strip_bearer tok' = tok"
  by (auto simp: strip_bearer_def starts_with_def)

text \<open>What the rest of the pairing endpoint leaves alone.\<close>

lemmas identity_action_defs =
  get_default_identity_def identity_of_def update_identity_def identities_update_def on_identity_update_def
  invalidate_identity_cache_def signed_request_def get_signature_auth_def raise_for_status_def

lemmas controller_action_defs =
  portal_call_def refresh_profile_def set_profile_def enrich_identity_from_profile_def
  call_freeshard_controller_def

lemmas keeps_atoms =
  moves_keeps_world_res moves_keeps_now moves_keeps_subprocess moves_keeps_get_value
  moves_keeps_broadcast

lemma enrich_keeps:
  fixes f :: "'e shard \<Rightarrow> 'v"
  assumes "\<And>x s. f (sh_identities_update x s) = f s" and "\<And>x s. f (sh_identity_cache_update x s) = f s"
    and "\<And>x s. f (sh_env_update x s) = f s"
    and "\<And>v. moves (keeps f) (set_value ''profile'' v :: ('e shard, unit) act)"
  shows "moves (keeps f) (enrich_identity_from_profile X)"
  unfolding identity_action_defs controller_action_defs
  using assms
  by (auto intro!: keeps_rules keeps_atoms split: exn.split)

lemma add_terminal_tail_keeps:
  fixes f :: "'e shard \<Rightarrow> 'v"
  assumes "\<And>x s. f (sh_identities_update x s) = f s" and "\<And>x s. f (sh_identity_cache_update x s) = f s"
    and "\<And>x s. f (sh_env_update x s) = f s" and "\<And>x s. f (sh_ws_queue_update x s) = f s"
    and "\<And>k v. k \<in> {''profile'', STORE_KEY_JWT_SECRET} \<Longrightarrow>
           moves (keeps f) (set_value k v :: ('e shard, unit) act)"
  shows "moves (keeps f) (create_terminal_jwt X i)" and "moves (keeps f) (on_terminal_add r)"
    and "moves (keeps f) (async_on_first_terminal_add X)"
proof -
  show "moves (keeps f) (create_terminal_jwt X i)"
    unfolding create_terminal_jwt_def ensure_jwt_secret_def
    using assms by (auto intro!: keeps_rules keeps_atoms split: exn.split)
  show "moves (keeps f) (on_terminal_add r)"
    using assms by (simp add: on_terminal_add_def moves_keeps_broadcast)
  show "moves (keeps f) (async_on_first_terminal_add X)"
    unfolding async_on_first_terminal_add_def using assms by (intro enrich_keeps) auto
qed

lemma send_terminals_update_apply:
  "send_terminals_update s =
     (Inr (), s\<lparr>sh_ws_queue := sh_ws_queue s @
        [\<lparr>message_type = ''terminals_update'', message = payload_or_empty (P_Terminals (sh_terminals s))\<rparr>]\<rparr>)"
  by (simp add: send_terminals_update_def broadcast_message_def terminals_get_all_def act_simps)

text \<open>A successful pairing, step by step: what comes after the terminal is inserted, and what it keeps.\<close>

abbreviation issue_token :: "'e ext \<Rightarrow> terminal_row \<Rightarrow> ('e shard, string \<times> string) act" where
  "issue_token X r \<equiv>
     bnd (db_terminals terminals_count) (\<lambda>n.
       bnd (db_identities identities_get_default) (\<lambda>row.
       bnd (identity_of X row) (\<lambda>default.
       bnd (create_terminal_jwt X (tm_id r)) (\<lambda>jwt.
       seq on_terminals_update
       (seq (on_terminal_add r)
       (seq (if n = 1 then async_on_first_terminal_add X else ret ())
       (ret (jwt, domain X (i_id default)))))))))"

lemma add_terminal_steps:
  assumes "add_terminal X code inp s = (Inr cookie, t)"
  obtains s1 s2 s3 r where "redeem_pairing_code X code s = (Inr (), s1)"
    and "create_terminal X (it_name inp) s1 = (Inr r, s2)"
    and "terminals_insert r (sh_terminals s2) = (Inr r, sh_terminals s3)"
    and "s3 = s2\<lparr>sh_terminals := sh_terminals s2 @ [r]\<rparr>"
    and "issue_token X r s3 = (Inr cookie, t)"
proof -
  obtain s1 r s2 q s3 where step: "redeem_pairing_code X code s = (Inr (), s1)"
      "create_terminal X (it_name inp) s1 = (Inr r, s2)"
      "db_terminals (terminals_insert r) s2 = (Inr q, s3)" "issue_token X r s3 = (Inr cookie, t)"
    using assms unfolding add_terminal_def
    by (auto simp: seq_Inr_iff bnd_Inr_iff try_except_def raise_def split: prod.splits sum.splits exn.splits)
  moreover have "terminals_insert r (sh_terminals s2) = (Inr r, sh_terminals s3)"
    and "s3 = s2\<lparr>sh_terminals := sh_terminals s2 @ [r]\<rparr>"
    using step(3) by (auto simp: zoom_def terminals_insert_def tbl_insert_def split: if_splits)
  ultimately show ?thesis using that by blast
qed

lemma issue_token_keeps:
  assumes "issue_token X r s = (q, t)"
  shows "sh_terminals t = sh_terminals s"
    and "map_of (sh_kv t) STORE_KEY_PAIRING_CODE = map_of (sh_kv s) STORE_KEY_PAIRING_CODE"
proof -
  have rest_keeps: "f t = f s"
    if "\<And>x s. f (sh_identities_update x s) = f s" "\<And>x s. f (sh_identity_cache_update x s) = f s"
      "\<And>x s. f (sh_env_update x s) = f s" "\<And>x s. f (sh_ws_queue_update x s) = f s"
      "\<And>k v. k \<in> {''profile'', STORE_KEY_JWT_SECRET} \<Longrightarrow> moves (keeps f) (set_value k v :: ('a shard, unit) act)"
      "moves (keeps f) (db_terminals terminals_count :: ('a shard, nat) act)"
      "moves (keeps f) (send_terminals_update :: ('a shard, unit) act)"
    for f :: "'a shard \<Rightarrow> 'v"
  proof -
    have "moves (keeps f) (issue_token X r)"
      unfolding on_terminals_update_def identity_of_def
      using that by (intro keeps.moves_bnd [OF that(6)] keeps_rules add_terminal_tail_keeps) auto
    then show ?thesis using assms by (rule moves_keepsD)
  qed
  have send: "moves (keeps f) (send_terminals_update :: ('a shard, unit) act)"
    if "\<And>x s. f (sh_ws_queue_update x s) = f s" for f :: "'a shard \<Rightarrow> 'v"
    by (simp add: moves_def keeps_def send_terminals_update_apply that)
  have count: "moves (keeps f) (db_terminals terminals_count :: ('a shard, nat) act)" for f :: "'a shard \<Rightarrow> 'v"
    by (simp add: moves_def keeps_def terminals_count_def act_simps)
  have kv: "moves (keeps (\<lambda>s. map_of (sh_kv s) STORE_KEY_PAIRING_CODE)) (set_value k v :: ('a shard, unit) act)"
    if "k \<in> {''profile'', STORE_KEY_JWT_SECRET}" for k v
    using that by (intro moves_keeps_kv_other) (auto simp: STORE_KEY_PAIRING_CODE_def STORE_KEY_JWT_SECRET_def)
  show "sh_terminals t = sh_terminals s"
    by (rule rest_keeps) (simp_all add: send count moves_keeps_set_value)
  show "map_of (sh_kv t) STORE_KEY_PAIRING_CODE = map_of (sh_kv s) STORE_KEY_PAIRING_CODE"
    by (rule rest_keeps) (simp_all add: send count kv)
qed

lemma redeemed:
  "redeem_pairing_code X code s = (Inr (), t) \<Longrightarrow>
     sh_terminals t = sh_terminals s \<and> map_of (sh_kv t) STORE_KEY_PAIRING_CODE = None"
  by (auto simp: redeem_apply split: option.splits sum.splits exn.splits if_splits prod.splits)

lemma created_terminal:
  "create_terminal X n s = (Inr r, t) \<Longrightarrow>
     sh_terminals t = sh_terminals s \<and> sh_kv t = sh_kv s \<and> tm_name r = n \<and> tm_icon r = Icon_UNKNOWN"
  by (auto simp: create_terminal_def bnd_Inr_iff act_atoms now_apply world_apply split: prod.splits)

section \<open>Properties\<close>

text \<open>
  A pairing code, as long as it is the one stored, is accepted exactly when the given code is
  equal to it and the clock has not passed its deadline; acceptance removes it, and a rejection
  leaves the store as it is.
\<close>

theorem redeem_issued_code:
  assumes "make_pairing_code X deadline s = (Inr c, t)"
    and "map_of (sh_kv u) STORE_KEY_PAIRING_CODE = map_of (sh_kv t) STORE_KEY_PAIRING_CODE"
  shows "redeem_pairing_code X code u =
    (if code \<noteq> pc_code c then (Inl InvalidPairingCode, u)
     else (case x_time X (sh_env u) of (n, e) \<Rightarrow>
       if n > pc_created c + of_int (effective_deadline X deadline)
       then (Inl PairingCodeExpired, u\<lparr>sh_env := e\<rparr>)
       else (Inr (), u\<lparr>sh_env := e, sh_kv := dict_del (sh_kv u) STORE_KEY_PAIRING_CODE\<rparr>)))"
  using make_pairing_code_stores [OF assms(1)] assms(2)
  by (auto simp: redeem_apply split: prod.split)

lemma redeem_issued_code_witness:
  "\<exists>c t. make_pairing_code sample_ext None sample_shard = (Inr c, t)
     \<and> fst (redeem_pairing_code sample_ext (pc_code c) t) = Inr ()"
proof -
  obtain c t where m: "make_pairing_code sample_ext None sample_shard = (Inr c, t)"
      "pc_created c = 0" "sh_env t = 0"
    by (simp add: make_pairing_code_def act_simps sample_ext_def sample_shard_def)
  then have "fst (redeem_pairing_code sample_ext (pc_code c) t) = Inr ()"
    using redeem_issued_code [OF m(1) refl, of "pc_code c"]
    by (simp add: sample_ext_def sample_cfg_def effective_deadline_def)
  with m(1) show ?thesis by blast
qed

text \<open>
  A code pairs once: after a successful redemption every further attempt, with any code, fails
  with \<open>InvalidPairingCode\<close> and changes nothing, until a new code is stored.
\<close>

theorem redeem_once:
  assumes "redeem_pairing_code X code s = (Inr (), t)"
    and "map_of (sh_kv u) STORE_KEY_PAIRING_CODE = map_of (sh_kv t) STORE_KEY_PAIRING_CODE"
  shows "redeem_pairing_code X code' u = (Inl InvalidPairingCode, u)"
proof -
  have "map_of (sh_kv t) STORE_KEY_PAIRING_CODE = None"
    using assms(1) by (auto simp: redeem_apply split: option.splits sum.splits exn.splits if_splits prod.splits)
  then show ?thesis using assms(2) by (simp add: redeem_apply)
qed

lemma redeem_once_witness:
  "\<exists>s t. redeem_pairing_code sample_ext ''123456'' s = (Inr (), t)
     \<and> redeem_pairing_code sample_ext ''123456'' t = (Inl InvalidPairingCode, t)"
proof -
  let ?c = "\<lparr>pc_code = ''123456'', pc_created = 0, pc_valid_until = 600\<rparr>"
  let ?s = "sample_shard\<lparr>sh_kv := [(STORE_KEY_PAIRING_CODE, pairing_code_dump ?c)]\<rparr>"
  have "redeem_pairing_code sample_ext ''123456'' ?s = (Inr (), sample_shard\<lparr>sh_kv := [], sh_env := 0\<rparr>)"
    by (simp add: redeem_apply sample_ext_def sample_shard_def dict_del_def)
  then show ?thesis using redeem_once [OF _ refl] by blast
qed

text \<open>
  Given that the JWT library decodes what it encoded with the same secret: a terminal's token,
  bare or after \<open>Bearer\<close>, is accepted while the secret is the same, for exactly as long as the
  terminal is in the table.  So deleting a terminal revokes its token.
\<close>

theorem terminal_jwt_accepted:
  assumes "jwt_roundtrip X" and "create_terminal_jwt X i s = (Inr tok, t)"
    and "map_of (sh_kv u) STORE_KEY_JWT_SECRET = map_of (sh_kv t) STORE_KEY_JWT_SECRET"
    and "tok' \<in> {tok, ''Bearer '' @ tok}"
  shows "verify_terminal_jwt X (Some tok') u =
    (case tbl_find tm_id i (sh_terminals u) of None \<Rightarrow> (Inl InvalidJwt, u) | Some r \<Rightarrow> (Inr r, u))"
proof -
  obtain k n where k: "map_of (sh_kv t) STORE_KEY_JWT_SECRET = Some (JStr k)"
      "tok = x_jwt_encode X [(''sub'', JStr i), (''iat'', JInt n)] k"
    using create_jwt_secret [OF assms(2)] by blast
  then obtain d where tok: "tok \<noteq> []" "\<not> starts_with ''Bearer '' tok"
      "x_jwt_decode X tok k = Some d" "map_of d ''sub'' = Some (JStr i)"
    using assms(1) unfolding jwt_roundtrip_def Let_def by blast
  have "tok' \<noteq> []" using assms(4) tok(1) by auto
  moreover have "x_jwt_decode X (strip_bearer tok') k = Some d"
    using strip_bearer_token [OF tok(2) assms(4)] tok(3) by simp
  ultimately show ?thesis
    using k(1) assms(3)
    by (simp add: verify_terminal_jwt_def act_simps ensure_secret_apply secret_key_def tok(4)
        dict_item_def terminals_get_by_id_def split: option.split)
qed

definition sample_terminal :: terminal_row where
  "sample_terminal = \<lparr>tm_id = ''t1'', tm_name = ''phone'', tm_icon = Icon_UNKNOWN, tm_last_connection = None\<rparr>"

lemma terminal_jwt_accepted_witness:
  "jwt_roundtrip sample_ext \<and>
   fst (verify_terminal_jwt sample_ext (Some ''eysecret:t1'')
     (sample_shard\<lparr>sh_terminals := [sample_terminal], sh_kv := [(STORE_KEY_JWT_SECRET, JStr ''secret'')]\<rparr>))
     = Inr sample_terminal"
proof -
  let ?s = "sample_shard\<lparr>sh_terminals := [sample_terminal], sh_kv := [(STORE_KEY_JWT_SECRET, JStr ''secret'')]\<rparr>"
  have "create_terminal_jwt sample_ext ''t1'' ?s = (Inr ''eysecret:t1'', ?s\<lparr>sh_env := 0\<rparr>)"
    by (simp add: create_terminal_jwt_def act_simps ensure_secret_apply secret_key_def sample_ext_def
        sample_shard_def sample_encode_def)
  from terminal_jwt_accepted [OF sample_jwt_roundtrip this, of ?s "''eysecret:t1''"]
  show ?thesis
    by (simp add: sample_jwt_roundtrip tbl_find_def sample_terminal_def)
qed

text \<open>
  C19. \<open>POST /pair/terminal\<close>: it succeeds only when the code was redeemed, and then it adds exactly
  one terminal, whose id was free and whose name is the requested one (its icon is the default one,
  whatever icon was requested), and the code is gone.
  When the code is refused the answer is 401 and no terminal, no message and no cookie come of it.
\<close>

theorem add_terminal_pairs_once:
  shows "case add_terminal X code inp s of
      (Inr _, t) \<Rightarrow>
        fst (redeem_pairing_code X code s) = Inr ()
        \<and> (\<exists>r. sh_terminals t = sh_terminals s @ [r] \<and> tm_name r = it_name inp
             \<and> tm_icon r = Icon_UNKNOWN \<and> tbl_find tm_id (tm_id r) (sh_terminals s) = None)
        \<and> map_of (sh_kv t) STORE_KEY_PAIRING_CODE = None
    | (Inl e, t) \<Rightarrow>
        fst (redeem_pairing_code X code s) \<in> {Inl InvalidPairingCode, Inl PairingCodeExpired} \<longrightarrow>
          e = HTTPException 401 \<and> sh_terminals t = sh_terminals s \<and> sh_ws_queue t = sh_ws_queue s
          \<and> sh_kv t = sh_kv s"
proof (cases "add_terminal X code inp s")
  case (Pair r t)
  show ?thesis
  proof (cases r)
    case (Inr cookie)
    then have "add_terminal X code inp s = (Inr cookie, t)" using Pair by simp
    then obtain s1 s2 s3 q where st: "redeem_pairing_code X code s = (Inr (), s1)"
        "create_terminal X (it_name inp) s1 = (Inr q, s2)"
        "terminals_insert q (sh_terminals s2) = (Inr q, sh_terminals s3)"
        "s3 = s2\<lparr>sh_terminals := sh_terminals s2 @ [q]\<rparr>" "issue_token X q s3 = (Inr cookie, t)"
      by (rule add_terminal_steps)
    note kept = redeemed [OF st(1)] created_terminal [OF st(2)] issue_token_keeps [OF st(5)]
    have "tbl_find tm_id (tm_id q) (sh_terminals s) = None"
      using st(3) kept by (auto simp: terminals_insert_def tbl_insert_def split: if_splits)
    then show ?thesis
      using Pair Inr st(1,4) kept by simp
  next
    case (Inl e)
    then show ?thesis
      using Pair
      by (auto simp: add_terminal_def redeem_apply act_simps
          split: option.splits sum.splits exn.splits if_splits prod.splits)
  qed
qed

lemma add_terminal_pairs_once_witness:
  "fst (add_terminal sample_ext ''1'' \<lparr>it_name = ''n'', it_icon = Icon_TABLET\<rparr> sample_shard)
     = Inl (HTTPException 401)"
  using add_terminal_pairs_once [where X = sample_ext and code = "''1''"
      and inp = "\<lparr>it_name = ''n'', it_icon = Icon_TABLET\<rparr>" and s = sample_shard]
  by (simp add: add_terminal_def redeem_apply act_simps sample_shard_def)

text \<open>
  \<open>PUT /terminals/id\<close> stores the new name and icon, but the \<open>terminals_update\<close> message it
  queues holds the rows as they were before the edit, because it is built before the commit.
\<close>

theorem edit_terminal_sends_old_rows:
  assumes "tbl_find tm_id i (sh_terminals s) = Some r"
  shows "edit_terminal i inp s =
    (Inr (), s\<lparr>sh_terminals := map (\<lambda>q. if tm_id q = i then q\<lparr>tm_name := it_name inp, tm_icon := it_icon inp\<rparr> else q)
                               (sh_terminals s),
               sh_ws_queue := sh_ws_queue s @
                 [\<lparr>message_type = ''terminals_update'', message = P_Terminals (sh_terminals s)\<rparr>]\<rparr>)"
proof -
  have "sh_terminals s \<noteq> []" using assms by (auto simp: tbl_find_def)
  then have "payload_or_empty (P_Terminals (sh_terminals s)) = P_Terminals (sh_terminals s)"
    by (cases "sh_terminals s") simp_all
  then show ?thesis
    by (simp add: edit_terminal_def act_simps terminals_get_by_id_def assms commit_after_def
        terminals_update_def tbl_update_def on_terminals_update_def send_terminals_update_apply comp_def)
qed

lemma edit_terminal_sends_old_rows_witness:
  "fst (edit_terminal ''t1'' \<lparr>it_name = ''n'', it_icon = Icon_TABLET\<rparr>
      (sample_shard\<lparr>sh_terminals := [sample_terminal]\<rparr>)) = Inr ()"
  using edit_terminal_sends_old_rows [of "''t1''" "sample_shard\<lparr>sh_terminals := [sample_terminal]\<rparr>" sample_terminal]
  by (simp add: tbl_find_def sample_terminal_def)

end
