(* ===== verification/App_Tools.thy ===== *)
theory App_Tools
  imports Controller
begin

text \<open>
  \<open>service/app_tools.py\<close>, with \<open>service/memory_pressure.py\<close>, \<open>service/pause_metrics.py\<close> and the
  \<open>throttle\<close> decorator of \<open>util/misc.py\<close>: starting, pausing, stopping and removing the containers of
  an app through compose, and the status kept of it in the database.
\<close>

section \<open>pause_metrics.py\<close>

definition MAX_LATENCY_SAMPLES :: nat where
  "MAX_LATENCY_SAMPLES = 1000"

definition MAX_PSI_SNAPSHOTS :: nat where
  "MAX_PSI_SNAPSHOTS = 120"

definition metrics :: "'e ext \<Rightarrow> (pause_counters \<Rightarrow> pause_counters) \<Rightarrow> ('e shard, unit) act" where
  "metrics X f =
     (if \<not> telemetry_enabled (cfg X) then ret ()
      else modify (\<lambda>s. s\<lparr>sh_pause_metrics := f (sh_pause_metrics s)\<rparr>))"

definition count_transition :: "string \<Rightarrow> string \<Rightarrow> pause_counters \<Rightarrow> pause_counters" where
  "count_transition app key m =
     (let counters = (case map_of (pm_transitions m) app of None \<Rightarrow> [] | Some d \<Rightarrow> d);
          n = (case map_of counters key of None \<Rightarrow> 0 | Some k \<Rightarrow> k)
      in m\<lparr>pm_transitions := dict_set (pm_transitions m) app (dict_set counters key (n + 1))\<rparr>)"

definition record_app_transition ::
    "'e ext \<Rightarrow> string \<Rightarrow> app_status \<Rightarrow> app_status \<Rightarrow> ('e shard, unit) act" where
  "record_app_transition X app st_from st_to =
     metrics X (count_transition app (status_value st_from @ ''_to_'' @ status_value st_to))"

definition add_sample :: "nat \<Rightarrow> 'a \<Rightarrow> 'a list \<Rightarrow> 'a list" where
  "add_sample limit x xs = (if length xs < limit then xs @ [x] else xs)"

definition record_pause_latency :: "'e ext \<Rightarrow> real \<Rightarrow> ('e shard, unit) act" where
  "record_pause_latency X ms =
     metrics X (\<lambda>m. m\<lparr>pm_pause_latencies := add_sample MAX_LATENCY_SAMPLES ms (pm_pause_latencies m)\<rparr>)"

definition record_unpause_latency :: "'e ext \<Rightarrow> real \<Rightarrow> ('e shard, unit) act" where
  "record_unpause_latency X ms =
     metrics X (\<lambda>m. m\<lparr>pm_unpause_latencies := add_sample MAX_LATENCY_SAMPLES ms (pm_unpause_latencies m)\<rparr>)"

definition record_psi_snapshot :: "'e ext \<Rightarrow> real \<Rightarrow> ('e shard, unit) act" where
  "record_psi_snapshot X v =
     metrics X (\<lambda>m. m\<lparr>pm_psi_snapshots := add_sample MAX_PSI_SNAPSHOTS v (pm_psi_snapshots m)\<rparr>)"

definition reset_metrics :: "('e shard, unit) act" where
  "reset_metrics = modify (\<lambda>s. s\<lparr>sh_pause_metrics := no_pause_counters\<rparr>)"

section \<open>Compose commands\<close>

definition app_compose :: "'e ext \<Rightarrow> fs \<Rightarrow> string \<Rightarrow> string list result" where
  "app_compose X fs n = app_compose_command (detect_compose_command (x_compose_version X)) fs (app_dir X n)"

definition compose :: "'e ext \<Rightarrow> string \<Rightarrow> string list \<Rightarrow> ('e shard, string) act" where
  "compose X n args =
     bnd (gets sh_fs) (\<lambda>fs.
     bnd (lift_res (app_compose X fs n)) (\<lambda>c.
     subprocess X (c @ args)))"

definition run_compose :: "'e ext \<Rightarrow> string \<Rightarrow> string list \<Rightarrow> ('e shard, unit) act" where
  "run_compose X n args = seq (compose X n args) (ret ())"

definition docker_create_app_containers :: "'e ext \<Rightarrow> string \<Rightarrow> ('e shard, unit) act" where
  "docker_create_app_containers X n = run_compose X n [''up'', ''--no-start'']"

datatype container_state = C_running | C_paused | C_exited | C_missing

text \<open>\<open>[line.strip() for line in out.splitlines() if line.strip()]\<close>\<close>

definition stripped_lines :: "string \<Rightarrow> string list" where
  "stripped_lines out = filter (\<lambda>l. l \<noteq> []) (map strip (splitlines out))"

definition classify_states :: "string list \<Rightarrow> container_state" where
  "classify_states states =
     (if list_ex (\<lambda>s. s = ''paused'') states then C_paused
      else if states \<noteq> [] \<and> list_all (\<lambda>s. s = ''running'') states then C_running
      else C_exited)"

definition get_app_container_state :: "'e ext \<Rightarrow> string \<Rightarrow> ('e shard, container_state) act" where
  "get_app_container_state X n =
     bnd (gets sh_fs) (\<lambda>fs.
     bnd (lift_res (app_compose X fs n)) (\<lambda>c.
     try_except
       (bnd (subprocess X (c @ [''ps'', ''-a'', ''-q''])) (\<lambda>ids_out.
        if stripped_lines ids_out = [] then ret C_missing
        else bnd (subprocess X ([''docker'', ''inspect'', ''--format'', ''{{.State.Status}}''] @ stripped_lines ids_out))
          (\<lambda>states_out. ret (classify_states (stripped_lines states_out)))))
       (\<lambda>e. case e of SubprocessError _ \<Rightarrow> ret C_missing | _ \<Rightarrow> raise e)))"

text \<open>\<open>_compose_up\<close>: stale networks or containers are removed before a second attempt.\<close>

definition stale_containers :: "string \<Rightarrow> bool" where
  "stale_containers msg \<longleftrightarrow>
     (contains_sub ''network'' msg \<and> contains_sub ''not found'' msg)
     \<or> (contains_sub ''Conflict'' msg \<and> contains_sub ''already in use'' msg)"

definition compose_up :: "'e ext \<Rightarrow> string \<Rightarrow> ('e shard, unit) act" where
  "compose_up X n =
     try_except (run_compose X n [''up'', ''-d''])
       (\<lambda>e. case e of
              SubprocessError msg \<Rightarrow>
                if stale_containers msg then seq (run_compose X n [''down'']) (run_compose X n [''up'', ''-d''])
                else raise e
            | _ \<Rightarrow> raise e)"

definition do_unpause :: "'e ext \<Rightarrow> string \<Rightarrow> ('e shard, unit) act" where
  "do_unpause X n =
     bnd (world (x_monotonic X)) (\<lambda>started.
     seq (run_compose X n [''unpause''])
     (bnd (world (x_monotonic X)) (\<lambda>finished.
      seq (record_unpause_latency X ((finished - started) * 1000))
      (record_app_transition X n PAUSED RUNNING))))"

definition set_status_row :: "string \<Rightarrow> app_status \<Rightarrow> ('e shard, unit) act" where
  "set_status_row n st = seq (db_apps (apps_update_status n st)) (ret ())"

definition mark_running :: "'e ext \<Rightarrow> string \<Rightarrow> ('e shard, unit) act" where
  "mark_running X n = seq (set_status_row n RUNNING) (on_apps_update X)"

definition db_status :: "string \<Rightarrow> ('e shard, app_status option) act" where
  "db_status n = bnd (db_apps (apps_get_by_name n)) (\<lambda>app. ret (map_option ia_status app))"

section \<open>Starting an app\<close>

definition REVIVABLE_STATUS :: "app_status list" where
  "REVIVABLE_STATUS = [STOPPED, RUNNING, DOWN, PAUSED]"

definition revive :: "'e ext \<Rightarrow> string \<Rightarrow> app_status \<Rightarrow> ('e shard, unit) act" where
  "revive X n st =
     bnd (get_app_container_state X n) (\<lambda>state.
       case state of
         C_running \<Rightarrow> (if st \<noteq> RUNNING then mark_running X n else ret ())
       | C_paused \<Rightarrow>
           seq (try_except (do_unpause X n)
                  (\<lambda>e. case e of SubprocessError _ \<Rightarrow> compose_up X n | _ \<Rightarrow> raise e))
           (mark_running X n)
       | C_exited \<Rightarrow> seq (compose_up X n) (mark_running X n)
       | C_missing \<Rightarrow> seq (compose_up X n) (mark_running X n))"

definition start_app_unthrottled :: "'e ext \<Rightarrow> string \<Rightarrow> ('e shard, unit) act" where
  "start_app_unthrottled X n =
     with_lock n
       (bnd (db_status n) (\<lambda>st.
          case st of
            None \<Rightarrow> ret ()
          | Some st \<Rightarrow> if st \<in> set REVIVABLE_STATUS then revive X n st else ret ()))"

text \<open>\<open>@throttle(min_duration)\<close> around a coroutine with one positional argument.\<close>

definition throttle ::
    "real \<Rightarrow> 'e ext \<Rightarrow> (string \<Rightarrow> ('e shard, unit) act) \<Rightarrow> string \<Rightarrow> ('e shard, unit) act" where
  "throttle min_duration X func arg =
     bnd (bnd (gets (\<lambda>s. map_of (sh_start_calls s) arg)) (\<lambda>prev.
            case prev of
              None \<Rightarrow> ret True
            | Some t \<Rightarrow> bnd (now X) (\<lambda>n. ret (t + min_duration < n)))) (\<lambda>go.
     if go then
       bnd (now X) (\<lambda>n.
       seq (modify (\<lambda>s. s\<lparr>sh_start_calls := dict_set (sh_start_calls s) arg n\<rparr>))
       (func arg))
     else ret ())"

definition start_app :: "'e ext \<Rightarrow> string \<Rightarrow> ('e shard, unit) act" where
  "start_app X n = throttle 5 X (start_app_unthrottled X) n"

section \<open>memory_pressure.py\<close>

definition PSI_PATH :: path where
  "PSI_PATH = [''host'', ''pressure'', ''memory'']"

definition CGROUP_ROOT :: path where
  "CGROUP_ROOT = [''sys'', ''fs'', ''cgroup'']"

definition number_char :: "char \<Rightarrow> bool" where
  "number_char c \<longleftrightarrow> is_digit c \<or> c = CHR ''.''"

text \<open>The match of \<open>.*?avg10=([\d.]+)\<close>, then of \<open>some.*?avg10=([\d.]+)\<close> anywhere in the text.\<close>

fun avg10_match :: "string \<Rightarrow> string option" where
  "avg10_match [] = None"
| "avg10_match (c # cs) =
     (if starts_with ''avg10='' (c # cs) \<and> takeWhile number_char (drop 6 (c # cs)) \<noteq> []
      then Some (takeWhile number_char (drop 6 (c # cs)))
      else if c = CHR 0x0A then None else avg10_match cs)"

fun psi_search :: "string \<Rightarrow> string option" where
  "psi_search [] = None"
| "psi_search (c # cs) =
     (if starts_with ''some'' (c # cs) \<and> avg10_match (drop 4 (c # cs)) \<noteq> None
      then avg10_match (drop 4 (c # cs))
      else psi_search cs)"

text \<open>\<open>float\<close> and \<open>int\<close> of a string of digits\<close>

definition digits_value :: "string \<Rightarrow> nat" where
  "digits_value = foldl (\<lambda>n c. 10 * n + (of_char c - 48)) 0"

definition parse_float :: "string \<Rightarrow> real result" where
  "parse_float s =
     (let ip = takeWhile (\<lambda>c. c \<noteq> CHR ''.'') s; rest = drop (length ip) s; fp = drop 1 rest in
      if list_all is_digit ip \<and> list_all is_digit fp \<and> ip @ fp \<noteq> []
      then Inr (real (digits_value ip) + real (digits_value fp) / 10 ^ length fp)
      else Inl (ValueError s))"

definition parse_int :: "string \<Rightarrow> int result" where
  "parse_int s =
     (case s of
        [] \<Rightarrow> Inl (ValueError s)
      | c # cs \<Rightarrow>
          if c = CHR ''-'' \<and> cs \<noteq> [] \<and> list_all is_digit cs then Inr (- int (digits_value cs))
          else if list_all is_digit s then Inr (int (digits_value s))
          else Inl (ValueError s))"

definition is_os_error :: "exn \<Rightarrow> bool" where
  "is_os_error e \<longleftrightarrow> e \<in> {OSError, FileNotFoundError, FileExistsError}"

definition read_memory_pressure :: "'e ext \<Rightarrow> ('e shard, real) act" where
  "read_memory_pressure X =
     try_else (world_res (x_host_read X PSI_PATH))
       (\<lambda>e. if is_os_error e then ret 0 else raise e)
       (\<lambda>text. case psi_search text of None \<Rightarrow> ret 0 | Some v \<Rightarrow> lift_res (parse_float v))"

definition find_cgroup :: "'e ext \<Rightarrow> string \<Rightarrow> 'e \<Rightarrow> path option" where
  "find_cgroup X container_id e =
     find (\<lambda>p. x_host_is_dir X p e)
       [CGROUP_ROOT @ [''system.slice'', ''docker-'' @ container_id @ ''.scope''],
        CGROUP_ROOT @ [''docker'', container_id]]"

definition reclaim_container :: "'e ext \<Rightarrow> string \<Rightarrow> ('e shard, unit) act" where
  "reclaim_container X container_id =
     bnd (gets (\<lambda>s. find_cgroup X container_id (sh_env s))) (\<lambda>cgroup.
       case cgroup of
         None \<Rightarrow> ret ()
       | Some g \<Rightarrow>
           bnd (world_res (x_host_read X (g @ [''memory.current'']))) (\<lambda>text.
           bnd (lift_res (parse_int (strip text))) (\<lambda>current.
           if current \<le> 0 then ret ()
           else try_except (world_res (x_host_write X (g @ [''memory.reclaim'']) (int_str current @ [CHR 0x0A])))
                  (\<lambda>e. if is_os_error e then ret () else raise e))))"

definition reclaim_compose_stack :: "'e ext \<Rightarrow> string \<Rightarrow> ('e shard, unit) act" where
  "reclaim_compose_stack X n =
     bnd (compose X n [''ps'', ''-q'']) (\<lambda>out.
     for_each (reclaim_container X) (stripped_lines out))"

section \<open>Pausing, stopping and removing\<close>

definition docker_pause_app :: "'e ext \<Rightarrow> string \<Rightarrow> ('e shard, unit) act" where
  "docker_pause_app X n =
     bnd (db_status n) (\<lambda>st.
       if st = Some RUNNING then
         bnd (world (x_monotonic X)) (\<lambda>started.
         seq (run_compose X n [''pause''])
         (seq (reclaim_compose_stack X n)
         (bnd (world (x_monotonic X)) (\<lambda>finished.
          seq (record_pause_latency X ((finished - started) * 1000))
          (seq (record_app_transition X n RUNNING PAUSED)
          (seq (set_status_row n PAUSED)
          (on_apps_update X)))))))
       else ret ())"

definition docker_unpause_app :: "'e ext \<Rightarrow> string \<Rightarrow> ('e shard, unit) act" where
  "docker_unpause_app X n =
     bnd (db_status n) (\<lambda>st.
       if st = Some PAUSED then seq (do_unpause X n) (mark_running X n) else ret ())"

definition docker_stop_app :: "'e ext \<Rightarrow> string \<Rightarrow> bool \<Rightarrow> ('e shard, unit) act" where
  "docker_stop_app X n set_status =
     bnd (db_status n) (\<lambda>st.
       case st of
         None \<Rightarrow> ret ()
       | Some st \<Rightarrow>
           if st \<in> set [RUNNING, PAUSED, UNINSTALLING] then
             seq (if st = PAUSED then run_compose X n [''unpause''] else ret ())
             (seq (run_compose X n [''stop''])
             (seq (if set_status
                   then seq (record_app_transition X n st STOPPED) (set_status_row n STOPPED)
                   else ret ())
             (on_apps_update X)))
           else ret ())"

definition docker_shutdown_app :: "'e ext \<Rightarrow> string \<Rightarrow> bool \<Rightarrow> bool \<Rightarrow> ('e shard, unit) act" where
  "docker_shutdown_app X n set_status force =
     bnd (db_status n) (\<lambda>st.
       if force \<or> st = Some STOPPED \<or> st = Some UNINSTALLING then
         seq (if st = Some PAUSED then run_compose X n [''unpause''] else ret ())
         (seq (run_compose X n [''down''])
         (seq (if set_status then set_status_row n DOWN else ret ())
         (on_apps_update X)))
       else ret ())"

definition docker_stop_all_apps :: "'e ext \<Rightarrow> ('e shard, unit) act" where
  "docker_stop_all_apps X =
     bnd (db_apps apps_get_all) (\<lambda>apps.
     gather_quiet (map (\<lambda>a. docker_stop_app X (ia_name a) True) apps))"

definition docker_shutdown_all_apps :: "'e ext \<Rightarrow> bool \<Rightarrow> ('e shard, unit) act" where
  "docker_shutdown_all_apps X force =
     bnd (db_apps apps_get_all) (\<lambda>apps.
     gather_quiet (map (\<lambda>a. docker_shutdown_app X (ia_name a) True force) apps))"

definition size_is_compatible :: "vm_size \<Rightarrow> ('e shard, bool) act" where
  "size_is_compatible app_size =
     try_else get_profile
       (\<lambda>e. case e of KeyError _ \<Rightarrow> ret False | _ \<Rightarrow> raise e)
       (\<lambda>p. case p of None \<Rightarrow> ret True | Some p \<Rightarrow> ret (vm_size_ge (pf_vm_size p) app_size))"

definition docker_prune_images :: "'e ext \<Rightarrow> bool \<Rightarrow> ('e shard, string option) act" where
  "docker_prune_images X apply_filter =
     try_else
       (subprocess X ([''docker'', ''image'', ''prune'', ''-fa''] @
          (if apply_filter then [''--filter'', ''until='' @ int_str (pruning_max_age (cfg X)) @ ''h''] else [])))
       (\<lambda>e. case e of SubprocessError _ \<Rightarrow> ret None | _ \<Rightarrow> raise e)
       (\<lambda>out. if splitlines out = [] then raise IndexError
              else ret (Some (last (splitlines out))))"

definition scheduled_docker_prune_images :: "'e ext \<Rightarrow> ('e shard, unit) act" where
  "scheduled_docker_prune_images X =
     (if \<not> pruning_enabled (cfg X) then ret () else seq (docker_prune_images X True) (ret ()))"

section \<open>Lemmas\<close>

text \<open>A status written to one row, and the commands that belong to one app.\<close>

definition set_st :: "string \<Rightarrow> app_status \<Rightarrow> app_row list \<Rightarrow> app_row list" where
  "set_st n st rows = map (\<lambda>r. if ia_name r = n then r\<lparr>ia_status := st\<rparr> else r) rows"

lemma set_st_idem [simp]: "set_st n st (set_st n st' rows) = set_st n st rows"
  by (simp add: set_st_def comp_def)

lemma names_set_st [simp]: "map ia_name (set_st n st rows) = map ia_name rows"
  by (simp add: set_st_def)

lemma find_set_st:
  "tbl_find ia_name m (set_st n st rows) =
     (if m = n then map_option (ia_status_update (\<lambda>_. st)) (tbl_find ia_name n rows)
      else tbl_find ia_name m rows)"
  unfolding set_st_def by (rule tbl_find_map) simp

lemma set_status_row_apply [act_simps]:
  "set_status_row n st s = (Inr (), s\<lparr>sh_apps := set_st n st (sh_apps s)\<rparr>)"
  by (simp add: set_status_row_def apps_update_status_def tbl_update_def Let_def act_simps set_st_def)

lemma db_status_apply [act_simps]:
  "db_status n s = (Inr (map_option ia_status (tbl_find ia_name n (sh_apps s))), s)"
  by (simp add: db_status_def apps_get_by_name_def act_simps)

definition pinned :: "'e ext \<Rightarrow> fs \<Rightarrow> string \<Rightarrow> string list \<Rightarrow> bool" where
  "pinned X fs n cmd \<longleftrightarrow>
     (\<exists>c args. app_compose X fs n = Inr c \<and> cmd = c @ args)
     \<or> (\<exists>ids. cmd = [''docker'', ''inspect'', ''--format'', ''{{.State.Status}}''] @ ids)"

text \<open>
  \<open>scoped X n st\<close>: of the tables only the status of app \<open>n\<close> may change, and only to \<open>st\<close>; files and
  locks stay as they are; and every command that was run is one of app \<open>n\<close>.
\<close>

definition scoped :: "'e ext \<Rightarrow> string \<Rightarrow> app_status \<Rightarrow> 'e shard \<Rightarrow> 'e shard \<Rightarrow> bool" where
  "scoped X n st s t \<longleftrightarrow>
     sh_fs t = sh_fs s \<and> sh_locks t = sh_locks s \<and> sh_apps t \<in> {sh_apps s, set_st n st (sh_apps s)}
     \<and> (\<exists>cs. sh_ran t = sh_ran s @ cs \<and> (\<forall>c \<in> set cs. pinned X (sh_fs s) n c))"

interpretation scoped: frame "scoped X n st"
proof
  show "scoped X n st s s" for s by (simp add: scoped_def)
  show "scoped X n st s u" if "scoped X n st s t" and "scoped X n st t u" for s t u
  proof -
    from that(1) obtain cs where 1: "sh_ran t = sh_ran s @ cs" "\<forall>c \<in> set cs. pinned X (sh_fs s) n c"
      unfolding scoped_def by blast
    from that(2) obtain cs' where 2: "sh_ran u = sh_ran t @ cs'" "\<forall>c \<in> set cs'. pinned X (sh_fs t) n c"
      unfolding scoped_def by blast
    have "sh_fs t = sh_fs s" using that(1) by (simp add: scoped_def)
    with 1 2 have "\<exists>ds. sh_ran u = sh_ran s @ ds \<and> (\<forall>c \<in> set ds. pinned X (sh_fs s) n c)"
      by (intro exI [of _ "cs @ cs'"]) auto
    with that show ?thesis
      unfolding scoped_def by auto
  qed
qed

lemma moves_scoped_keeps:
  "moves (keeps (\<lambda>s. (sh_fs s, sh_locks s, sh_apps s, sh_ran s))) m \<Longrightarrow> moves (scoped X n st) m"
  by (simp add: moves_def keeps_def scoped_def)

lemma moves_scoped_on_apps_update: "moves (scoped X n st) (on_apps_update Y)"
  by (rule moves_scoped_keeps) (simp add: moves_keeps_on_apps_update)

lemma moves_scoped_world: "moves (scoped X n st) (world g)" "moves (scoped X n st) (world_res h)"
  "moves (scoped X n st) (now Y)"
  by (rule moves_scoped_keeps, simp add: moves_keeps_world moves_keeps_world_res moves_keeps_now)+

lemma moves_scoped_metrics: "moves (scoped X n st) (metrics Y f)"
  unfolding metrics_def by (rule moves_scoped_keeps) (simp add: keeps.moves_ret moves_keeps_modify)

lemma moves_scoped_status: "moves (scoped X n st) (set_status_row n st)"
  by (simp add: moves_def act_simps scoped_def)

lemma moves_scoped_db_status: "moves (scoped X n st) (db_status m)"
  by (simp add: moves_def act_simps scoped.frame_refl)

lemma moves_scoped_subprocess:
  assumes "\<And>s. P s \<Longrightarrow> pinned X (sh_fs s) n cmd" and "P s"
  shows "scoped X n st s (snd (subprocess X cmd s))"
  using assms by (auto simp: subprocess_def act_simps scoped_def split: prod.split)

lemma moves_scoped_compose: "moves (scoped X n st) (compose X n args)"
proof (rule movesI)
  fix s
  show "scoped X n st s (snd (compose X n args s))"
  proof (cases "app_compose X (sh_fs s) n")
    case (Inl e)
    then show ?thesis by (simp add: compose_def act_simps scoped.frame_refl)
  next
    case (Inr c)
    then have "pinned X (sh_fs s) n (c @ args)" by (auto simp: pinned_def)
    then have "scoped X n st s (snd (subprocess X (c @ args) s))"
      by (auto simp: subprocess_def act_simps scoped_def split: prod.split)
    then show ?thesis using Inr by (simp add: compose_def bnd_def gets_def lift_res_def)
  qed
qed

lemma moves_scoped_run_compose: "moves (scoped X n st) (run_compose X n args)"
  unfolding run_compose_def by (intro scoped.moves_rules moves_scoped_compose)

lemma moves_scoped_inspect:
  "moves (scoped X n st) (subprocess X (''docker'' # ''inspect'' # ''--format'' # ''{{.State.Status}}'' # ids))"
  by (rule movesI) (auto simp: subprocess_def act_simps scoped_def pinned_def split: prod.split)

lemmas scoped_rules =
  scoped.moves_rules moves_scoped_on_apps_update moves_scoped_world moves_scoped_metrics
  moves_scoped_status moves_scoped_db_status moves_scoped_run_compose moves_scoped_inspect

text \<open>No exception of building the command is a \<open>SubprocessError\<close>, so it may as well be built inside.\<close>

lemma app_compose_not_subprocess: "app_compose X fs n \<noteq> Inl (SubprocessError m)"
  by (auto simp: app_compose_def app_compose_command_def Let_def split: if_splits)

lemma container_state_eq:
  "get_app_container_state X n =
     try_except
       (bnd (compose X n [''ps'', ''-a'', ''-q'']) (\<lambda>ids_out.
        if stripped_lines ids_out = [] then ret C_missing
        else bnd (subprocess X ([''docker'', ''inspect'', ''--format'', ''{{.State.Status}}''] @ stripped_lines ids_out))
          (\<lambda>states_out. ret (classify_states (stripped_lines states_out)))))
       (\<lambda>e. case e of SubprocessError _ \<Rightarrow> ret C_missing | _ \<Rightarrow> raise e)"
proof
  fix s
  show "get_app_container_state X n s = try_except
       (bnd (compose X n [''ps'', ''-a'', ''-q'']) (\<lambda>ids_out.
        if stripped_lines ids_out = [] then ret C_missing
        else bnd (subprocess X ([''docker'', ''inspect'', ''--format'', ''{{.State.Status}}''] @ stripped_lines ids_out))
          (\<lambda>states_out. ret (classify_states (stripped_lines states_out)))))
       (\<lambda>e. case e of SubprocessError _ \<Rightarrow> ret C_missing | _ \<Rightarrow> raise e) s"
  proof (cases "app_compose X (sh_fs s) n")
    case (Inl e)
    then show ?thesis
      using app_compose_not_subprocess [of X "sh_fs s" n]
      by (auto simp: get_app_container_state_def compose_def bnd_def gets_def lift_res_def
          try_except_def raise_def split: exn.split)
  next
    case (Inr c)
    then have "bnd (compose X n [''ps'', ''-a'', ''-q'']) k s
        = bnd (subprocess X (c @ [''ps'', ''-a'', ''-q''])) k s"
      for k :: "string \<Rightarrow> ('a shard, container_state) act"
      by (simp add: compose_def bnd_def gets_def lift_res_def)
    then show ?thesis
      using Inr by (simp add: get_app_container_state_def bnd_def [of "gets sh_fs"] gets_def
          bnd_def [of "lift_res _"] lift_res_def try_except_def)
  qed
qed

lemma moves_scoped_container_state: "moves (scoped X n st) (get_app_container_state X n)"
  unfolding container_state_eq
  by (auto intro!: scoped_rules moves_scoped_compose split: exn.split)

lemma moves_scoped_compose_up: "moves (scoped X n st) (compose_up X n)"
  unfolding compose_up_def by (auto intro!: scoped_rules split: exn.split)

lemma moves_scoped_do_unpause: "moves (scoped X n st) (do_unpause X n)"
  unfolding do_unpause_def record_unpause_latency_def record_app_transition_def
  by (auto intro!: scoped_rules)

lemma moves_scoped_reclaim: "moves (scoped X n st) (reclaim_compose_stack X n)"
  unfolding reclaim_compose_stack_def reclaim_container_def
  by (auto intro!: scoped_rules moves_scoped_compose)

lemma moves_scoped_revive: "moves (scoped X n RUNNING) (revive X n st)"
  unfolding revive_def mark_running_def
  by (auto intro!: scoped_rules moves_scoped_container_state moves_scoped_compose_up moves_scoped_do_unpause
      split: container_state.split exn.split)

lemma moves_scoped_with_lock:
  assumes "moves (scoped X n st) m"
  shows "moves (scoped X n st) (with_lock l m)"
proof (rule movesI)
  fix s
  show "scoped X n st s (snd (with_lock l m s))"
    using assms
    by (auto simp: with_lock_def moves_def scoped_def split: prod.split
        dest!: spec [where x = "s\<lparr>sh_locks := l # sh_locks s\<rparr>"])
qed

section \<open>The operations on containers as one family\<close>

datatype container_op = Op_Start | Op_Pause | Op_Unpause | Op_Stop | Op_Shutdown

fun op_act :: "'e ext \<Rightarrow> container_op \<Rightarrow> string \<Rightarrow> ('e shard, unit) act" where
  "op_act X Op_Start n = start_app X n"
| "op_act X Op_Pause n = docker_pause_app X n"
| "op_act X Op_Unpause n = docker_unpause_app X n"
| "op_act X Op_Stop n = docker_stop_app X n True"
| "op_act X Op_Shutdown n = docker_shutdown_app X n True False"

fun op_target :: "container_op \<Rightarrow> app_status" where
  "op_target Op_Start = RUNNING"
| "op_target Op_Pause = PAUSED"
| "op_target Op_Unpause = RUNNING"
| "op_target Op_Stop = STOPPED"
| "op_target Op_Shutdown = DOWN"


inductive status_step :: "app_status \<Rightarrow> app_status \<Rightarrow> bool" where
  started: "a \<in> {STOPPED, RUNNING, DOWN, PAUSED} \<Longrightarrow> status_step a RUNNING"
| paused: "status_step RUNNING PAUSED"
| stopped: "a \<in> {RUNNING, PAUSED, UNINSTALLING} \<Longrightarrow> status_step a STOPPED"
| removed: "a \<in> {STOPPED, UNINSTALLING} \<Longrightarrow> status_step a DOWN"

inductive_cases status_stepE: "status_step a b"


lemma op_scoped: "moves (scoped X n (op_target oper)) (op_act X oper n)"
proof (cases oper)
  case Op_Start
  have calls: "moves (scoped X n RUNNING) (modify (\<lambda>s. s\<lparr>sh_start_calls := f s\<rparr>))" for f
    by (rule moves_scoped_keeps) (simp add: moves_keeps_modify)
  have "moves (scoped X n RUNNING) (start_app_unthrottled X n)"
    unfolding start_app_unthrottled_def
    by (intro moves_scoped_with_lock scoped_rules moves_scoped_revive)
  then have "moves (scoped X n RUNNING) (start_app X n)"
    unfolding start_app_def throttle_def by (auto intro!: scoped_rules calls)
  then show ?thesis using Op_Start by simp
next
  case Op_Pause
  have "moves (scoped X n PAUSED) (docker_pause_app X n)"
    unfolding docker_pause_app_def record_pause_latency_def record_app_transition_def
    by (auto intro!: scoped_rules moves_scoped_reclaim)
  then show ?thesis using Op_Pause by simp
next
  case Op_Unpause
  have "moves (scoped X n RUNNING) (docker_unpause_app X n)"
    unfolding docker_unpause_app_def mark_running_def
    by (auto intro!: scoped_rules moves_scoped_do_unpause)
  then show ?thesis using Op_Unpause by simp
next
  case Op_Stop
  have "moves (scoped X n STOPPED) (docker_stop_app X n True)"
    unfolding docker_stop_app_def record_app_transition_def by (auto intro!: scoped_rules)
  then show ?thesis using Op_Stop by simp
next
  case Op_Shutdown
  have "moves (scoped X n DOWN) (docker_shutdown_app X n True False)"
    unfolding docker_shutdown_app_def by (auto intro!: scoped_rules)
  then show ?thesis using Op_Shutdown by simp
qed



lemma container_state_keeps_apps: "moves (keeps sh_apps) (get_app_container_state X n)"
  unfolding get_app_container_state_def
  by (auto intro!: keeps_rules moves_keeps_subprocess split: exn.split)

lemma on_apps_update_rows: "on_apps_update X s = (r, t) \<Longrightarrow> sh_apps t = sh_apps s"
  by (rule moves_keepsD [OF moves_keeps_on_apps_update]) simp_all

lemma mark_running_marks:
  assumes "moves (scoped X n RUNNING) m" and "seq m (mark_running X n) s = (Inr (), t)"
  shows "sh_apps t = set_st n RUNNING (sh_apps s)"
proof -
  obtain x u where u: "m s = (Inr x, u)" "mark_running X n u = (Inr (), t)"
    using assms(2) by (auto simp: seq_Inr_iff)
  have "sh_apps u \<in> {sh_apps s, set_st n RUNNING (sh_apps s)}"
    using movesD [OF assms(1) u(1)] by (simp add: scoped_def)
  moreover have "sh_apps t = set_st n RUNNING (sh_apps u)"
    using u(2) by (auto simp: mark_running_def seq_Inr_iff set_status_row_apply dest: on_apps_update_rows)
  ultimately show ?thesis by auto
qed

lemma revive_Inr:
  assumes "revive X n st s = (Inr (), t)"
  shows "sh_apps t = set_st n RUNNING (sh_apps s) \<or> (st = RUNNING \<and> sh_apps t = sh_apps s)"
proof -
  obtain cst u where c: "get_app_container_state X n s = (Inr cst, u)"
    and rest: "(case cst of
         C_running \<Rightarrow> (if st \<noteq> RUNNING then mark_running X n else ret ())
       | C_paused \<Rightarrow>
           seq (try_except (do_unpause X n)
                  (\<lambda>e. case e of SubprocessError _ \<Rightarrow> compose_up X n | _ \<Rightarrow> raise e))
           (mark_running X n)
       | C_exited \<Rightarrow> seq (compose_up X n) (mark_running X n)
       | C_missing \<Rightarrow> seq (compose_up X n) (mark_running X n)) u = (Inr (), t)"
    using assms unfolding revive_def by (auto simp: bnd_Inr_iff)
  have u: "sh_apps u = sh_apps s"
    using container_state_keeps_apps c by (rule moves_keepsD)
  have up: "moves (scoped X n RUNNING) (try_except (do_unpause X n)
      (\<lambda>e. case e of SubprocessError _ \<Rightarrow> compose_up X n | _ \<Rightarrow> raise e))"
    by (auto intro!: scoped_rules moves_scoped_do_unpause moves_scoped_compose_up split: exn.split)
  have none: "moves (scoped X n RUNNING) (ret ())" by (rule scoped.moves_ret)
  show ?thesis
  proof (cases cst)
    case C_running
    then show ?thesis
      using rest u mark_running_marks [OF none, of u t]
      by (cases "st = RUNNING") (auto simp: act_atoms seq_Inr_iff)
  next
    case C_paused
    then show ?thesis using rest u mark_running_marks [OF up, of u t] by simp
  next
    case C_exited
    then show ?thesis using rest u mark_running_marks [OF moves_scoped_compose_up, of X n u t] by simp
  next
    case C_missing
    then show ?thesis using rest u mark_running_marks [OF moves_scoped_compose_up, of X n u t] by simp
  qed
qed

section \<open>Properties\<close>

text \<open>
  C24. Isolation: starting, pausing, unpausing, stopping or removing the containers of one app,
  whether it returns or raises, leaves the rows of every other app, the files and the locks as they
  are, and every process it runs is a compose command pinned to that app's own compose file and
  project, or \<open>docker inspect\<close>.
\<close>

theorem container_op_isolated:
  shows "case op_act X oper n s of (r, t) \<Rightarrow>
    sh_fs t = sh_fs s \<and> sh_locks t = sh_locks s
    \<and> (\<forall>m. m \<noteq> n \<longrightarrow> tbl_find ia_name m (sh_apps t) = tbl_find ia_name m (sh_apps s))
    \<and> (\<exists>cs. sh_ran t = sh_ran s @ cs \<and> list_all (pinned X (sh_fs s) n) cs)"
proof -
  obtain r t where rt: "op_act X oper n s = (r, t)" by (cases "op_act X oper n s") auto
  have "scoped X n (op_target oper) s t"
    using op_scoped rt by (rule movesD)
  then show ?thesis
    using rt by (auto simp: scoped_def find_set_st list_all_iff)
qed

definition one_running_app :: "real shard" where
  "one_running_app =
     sample_shard\<lparr>sh_apps := [\<lparr>ia_name = ''a'', ia_reason = Reason_STORE, ia_status = RUNNING,
                              ia_last_access = None\<rparr>],
                  sh_fs := [[''r'', ''core'', ''installed_apps'', ''a'', ''docker-compose.yml''] \<mapsto> File []]\<rparr>"

lemma container_op_isolated_witness:
  "tbl_find ia_name ''b'' (sh_apps (snd (op_act sample_ext Op_Pause ''a'' one_running_app))) = None"
proof -
  have "tbl_find ia_name ''b'' (sh_apps one_running_app) = None"
    by (simp add: one_running_app_def tbl_find_def)
  then show ?thesis
    using container_op_isolated [where X = sample_ext and oper = Op_Pause and n = "''a''" and s = one_running_app]
    by (auto split: prod.splits)
qed



text \<open>
  No sequence of steps of the lifecycle leads out of a queued, installing, reinstalling or error
  status: these apps are never started, stopped or removed by the container operations.
\<close>

theorem transitional_status_stuck:
  assumes "status_step\<^sup>*\<^sup>* a b"
    and "a \<in> {UNKNOWN, INSTALLATION_QUEUED, INSTALLING, UNINSTALLATION_QUEUED, REINSTALLATION_QUEUED,
              REINSTALLING, ERROR}"
  shows "b = a"
  using assms
proof (induction rule: rtranclp_induct)
  case (step y z)
  then show ?case by (auto elim: status_stepE)
qed simp

lemma transitional_status_stuck_witness:
  "status_step\<^sup>*\<^sup>* ERROR ERROR \<and> (\<forall>b. status_step\<^sup>*\<^sup>* ERROR b \<longrightarrow> b = ERROR)"
  using transitional_status_stuck [of ERROR] by blast

text \<open>
  When starting a revivable app returns, the app is stored as running and every other app is
  as before; whatever happens, the lock of the app is as before.
\<close>

theorem start_app_runs:
  assumes "tbl_find ia_name n (sh_apps s) = Some a" and "ia_status a \<in> set REVIVABLE_STATUS"
    and "start_app_unthrottled X n s = (Inr (), t)"
  shows "tbl_find ia_name n (sh_apps t) = Some (a\<lparr>ia_status := RUNNING\<rparr>)
    \<and> (\<forall>m. m \<noteq> n \<longrightarrow> tbl_find ia_name m (sh_apps t) = tbl_find ia_name m (sh_apps s))
    \<and> sh_locks t = sh_locks s"
proof -
  let ?s = "s\<lparr>sh_locks := n # sh_locks s\<rparr>"
  obtain u where u: "revive X n (ia_status a) ?s = (Inr (), u)" "t = u\<lparr>sh_locks := remove1 n (sh_locks u)\<rparr>"
    using assms by (auto simp: start_app_unthrottled_def with_lock_def act_simps split: if_splits prod.splits)
  have "sh_locks u = n # sh_locks s"
    using movesD [OF moves_scoped_revive u(1)] by (simp add: scoped_def)
  moreover have "sh_apps u = set_st n RUNNING (sh_apps s) \<or> (ia_status a = RUNNING \<and> sh_apps u = sh_apps s)"
    using revive_Inr [OF u(1)] by simp
  moreover have "a\<lparr>ia_status := RUNNING\<rparr> = a" if "ia_status a = RUNNING"
    using that by (cases a) simp
  ultimately show ?thesis
    using assms(1) u(2) by (auto simp: find_set_st)
qed

lemma sample_start: "fst (start_app_unthrottled sample_ext ''a'' one_running_app) = Inr ()"
  by code_simp

lemma start_app_runs_witness:
  "\<exists>r. tbl_find ia_name ''a'' (sh_apps (snd (start_app_unthrottled sample_ext ''a'' one_running_app))) = Some r
     \<and> ia_status r = RUNNING"
proof -
  obtain t where t: "start_app_unthrottled sample_ext ''a'' one_running_app = (Inr (), t)"
    using sample_start by (cases "start_app_unthrottled sample_ext ''a'' one_running_app") auto
  have "tbl_find ia_name ''a'' (sh_apps one_running_app)
      = Some \<lparr>ia_name = ''a'', ia_reason = Reason_STORE, ia_status = RUNNING, ia_last_access = None\<rparr>"
    by (simp add: one_running_app_def tbl_find_def)
  from start_app_runs [OF this _ t] t show ?thesis
    by (simp add: REVIVABLE_STATUS_def)
qed

lemma unthrottled_keeps_calls: "moves (keeps sh_start_calls) (start_app_unthrottled X n)"
  unfolding start_app_unthrottled_def revive_def mark_running_def get_app_container_state_def
    compose_up_def do_unpause_def run_compose_def compose_def db_status_def set_status_row_def
    record_unpause_latency_def record_app_transition_def metrics_def
  by (auto intro!: keeps_rules moves_keeps_subprocess moves_keeps_on_apps_update
      split: exn.split container_state.split)

text \<open>
  Throttling: after a first start of an app, a second one within five seconds of it does
  nothing but read the clock, whatever the first one did; and the calls for other apps are not
  affected by either.
\<close>

theorem start_app_throttled:
  assumes "map_of (sh_start_calls s) n = None" and "x_time X (sh_env s) = (t0, e0)"
    and "start_app X n s = (r, t)"
    and "sh_start_calls u = sh_start_calls t" and "x_time X (sh_env u) = (t1, e1)" and "t1 \<le> t0 + 5"
  shows "start_app X n u = (Inr (), u\<lparr>sh_env := e1\<rparr>)
    \<and> (\<forall>m. m \<noteq> n \<longrightarrow> map_of (sh_start_calls u) m = map_of (sh_start_calls s) m)"
proof -
  have "start_app_unthrottled X n
      (s\<lparr>sh_env := e0, sh_start_calls := dict_set (sh_start_calls s) n t0\<rparr>) = (r, t)"
    using assms(1-3) by (simp add: start_app_def throttle_def act_simps)
  then have "sh_start_calls t = dict_set (sh_start_calls s) n t0"
    using moves_keepsD [OF unthrottled_keeps_calls] by fastforce
  then show ?thesis
    using assms(4-6) by (simp add: start_app_def throttle_def act_simps)
qed

lemma start_app_throttled_witness:
  "\<exists>t :: real shard. fst (start_app sample_ext ''a'' one_running_app) = Inr ()
     \<and> start_app sample_ext ''a'' (one_running_app\<lparr>sh_start_calls := sh_start_calls t\<rparr>)
         = (Inr (), one_running_app\<lparr>sh_start_calls := sh_start_calls t, sh_env := 0\<rparr>)"
proof -
  have "fst (start_app sample_ext ''a'' one_running_app) = Inr ()" by code_simp
  then obtain t where t: "start_app sample_ext ''a'' one_running_app = (Inr (), t)"
    by (cases "start_app sample_ext ''a'' one_running_app") auto
  have "start_app sample_ext ''a'' (one_running_app\<lparr>sh_start_calls := sh_start_calls t\<rparr>)
      = (Inr (), one_running_app\<lparr>sh_start_calls := sh_start_calls t, sh_env := 0\<rparr>)"
    using start_app_throttled [OF _ _ t, of 0 0 "one_running_app\<lparr>sh_start_calls := sh_start_calls t\<rparr>" 0 0]
    by (simp add: one_running_app_def sample_shard_def sample_ext_def)
  with t show ?thesis by auto
qed

end
