(* ===== verification/App_Lifecycle.thy ===== *)
theory App_Lifecycle
  imports App_Tools
begin

text \<open>
  \<open>service/app_lifecycle.py\<close>: waking an app on access, and the periodic control that pauses and
  stops idle apps and demotes the least recently used one under memory pressure.  A task created
  with \<open>asyncio.create_task\<close> is queued in \<open>sh_background\<close>; \<open>run_background_task\<close> is the event loop
  running the oldest one.
\<close>

definition RECENT_ACCESS_GRACE :: real where
  "RECENT_ACCESS_GRACE = 5"

definition last_access_of :: "(string \<times> real) list \<Rightarrow> string \<Rightarrow> real" where
  "last_access_of d n = (case map_of d n of None \<Rightarrow> 0 | Some t \<Rightarrow> t)"

definition disk_low :: "'e shard \<Rightarrow> bool" where
  "disk_low s = disk_space_low (sh_disk_usage s)"

definition ensure_app_is_running :: "'e ext \<Rightarrow> app_row \<Rightarrow> ('e shard, unit) act" where
  "ensure_app_is_running X app =
     bnd (gets disk_low) (\<lambda>low.
       if low then ret ()
       else
         bnd (app_metadata X (ia_name app)) (\<lambda>meta.
         bnd (size_is_compatible (am_minimum_portal_size meta)) (\<lambda>fits.
         if fits then
           bnd (now X) (\<lambda>t.
           seq (modify (\<lambda>s. s\<lparr>sh_last_access := dict_set (sh_last_access s) (ia_name app) t\<rparr>))
           (modify (\<lambda>s. s\<lparr>sh_background := sh_background s @ [ia_name app]\<rparr>)))
         else ret ())))"

definition run_background_task :: "'e ext \<Rightarrow> ('e shard, unit) act" where
  "run_background_task X =
     bnd (gets sh_background) (\<lambda>tasks.
       case tasks of
         [] \<Rightarrow> ret ()
       | n # ns \<Rightarrow>
           seq (modify (\<lambda>s. s\<lparr>sh_background := ns\<rparr>))
           (try_except (start_app X n) (\<lambda>_. ret ())))"

text \<open>\<open>x or default\<close> for an optional number of seconds\<close>

definition or_default :: "int option \<Rightarrow> int \<Rightarrow> int" where
  "or_default v d = (case v of None \<Rightarrow> d | Some n \<Rightarrow> if n = 0 then d else n)"

definition control_app_time :: "'e ext \<Rightarrow> bool \<Rightarrow> app_row \<Rightarrow> ('e shard, unit) act" where
  "control_app_time X pause_on app =
     bnd (app_metadata X (ia_name app)) (\<lambda>meta.
     bnd (gets disk_low) (\<lambda>low.
       if low then docker_stop_app X (ia_name app) True
       else if always_on (am_lifecycle meta) then
         (if ia_status app \<noteq> RUNNING then
            bnd (size_is_compatible (am_minimum_portal_size meta)) (\<lambda>fits.
              if fits then start_app X (ia_name app) else ret ())
          else ret ())
       else
         bnd (now X) (\<lambda>t.
         bnd (gets (\<lambda>s. last_access_of (sh_last_access s) (ia_name app))) (\<lambda>la.
           let idle = t - la;
               t2 = or_default (idle_for_stop (am_lifecycle meta)) (default_idle_for_stop (lifecycle_cfg (cfg X)))
           in if \<not> pause_on \<or> skip_pause (am_lifecycle meta) then
                (if ia_status app = RUNNING \<and> idle \<ge> of_int t2 then docker_stop_app X (ia_name app) True
                 else ret ())
              else
                (let t1 = or_default (idle_for_pause (am_lifecycle meta))
                                     (default_idle_for_pause (lifecycle_cfg (cfg X)))
                 in if ia_status app = RUNNING \<and> idle \<ge> of_int t1 then docker_pause_app X (ia_name app)
                    else if ia_status app = PAUSED \<and> idle \<ge> of_int t2
                    then docker_stop_app X (ia_name app) True
                    else ret ())))))"

text \<open>The loop of \<open>_demote_lru\<close> that sorts the demotable apps into running and paused ones.\<close>

fun demotable :: "'e ext \<Rightarrow> app_row list \<Rightarrow> ('e shard, app_row list \<times> app_row list) act" where
  "demotable X [] = ret ([], [])"
| "demotable X (app # apps) =
     bnd (app_metadata X (ia_name app)) (\<lambda>meta.
       if always_on (am_lifecycle meta) then demotable X apps
       else
         bnd (now X) (\<lambda>t.
         bnd (gets (\<lambda>s. last_access_of (sh_last_access s) (ia_name app))) (\<lambda>la.
           if t - la \<le> RECENT_ACCESS_GRACE then demotable X apps
           else
             bnd (demotable X apps) (\<lambda>(running, paused).
               ret (if ia_status app = RUNNING then (app # running, paused)
                    else if ia_status app = PAUSED then (running, app # paused)
                    else (running, paused))))))"

text \<open>\<open>min(candidates, key=...)\<close>: the first of the least.\<close>

fun lru :: "(string \<times> real) list \<Rightarrow> app_row \<Rightarrow> app_row list \<Rightarrow> app_row" where
  "lru d best [] = best"
| "lru d best (a # as) =
     (if last_access_of d (ia_name a) < last_access_of d (ia_name best) then lru d a as else lru d best as)"

definition demote_lru :: "'e ext \<Rightarrow> app_row list \<Rightarrow> ('e shard, unit) act" where
  "demote_lru X apps =
     bnd (demotable X apps) (\<lambda>(running, paused).
     bnd (gets sh_last_access) (\<lambda>d.
       case running of
         a # as \<Rightarrow>
           (let victim = lru d a as in
            bnd (app_metadata X (ia_name victim)) (\<lambda>meta.
              if skip_pause (am_lifecycle meta) then docker_stop_app X (ia_name victim) True
              else docker_pause_app X (ia_name victim)))
       | [] \<Rightarrow>
           (case paused of
              a # as \<Rightarrow> docker_stop_app X (ia_name (lru d a as)) True
            | [] \<Rightarrow> ret ())))"

definition control_apps :: "'e ext \<Rightarrow> ('e shard, unit) act" where
  "control_apps X =
     (let lc = lifecycle_cfg (cfg X) in
      bnd (if pause_enabled lc then read_memory_pressure X else ret 0) (\<lambda>psi.
      seq (if pause_enabled lc then record_psi_snapshot X psi else ret ())
      (bnd (db_apps apps_get_all) (\<lambda>all_apps.
       let installed_apps =
             filter (\<lambda>a. ia_status a \<notin> set [INSTALLATION_QUEUED, INSTALLING]) all_apps
       in seq (gather (map (control_app_time X (pause_enabled lc)) installed_apps))
          (if pause_enabled lc \<and> psi > psi_threshold lc then demote_lru X installed_apps else ret ())))))"

section \<open>The policy of the periodic control\<close>

text \<open>
  The abstract contract: which operation an app gets, from its lifecycle, its status, the time it
  has been idle, and the state of the disk and of the plan of the machine.
\<close>

definition policy ::
    "lifecycle_settings \<Rightarrow> bool \<Rightarrow> bool \<Rightarrow> lifecycle \<Rightarrow> app_status \<Rightarrow> real \<Rightarrow> container_op option" where
  "policy lc low fits l st idle =
     (let t1 = of_int (or_default (idle_for_pause l) (default_idle_for_pause lc));
          t2 = of_int (or_default (idle_for_stop l) (default_idle_for_stop lc));
          tiered = pause_enabled lc \<and> \<not> skip_pause l
      in if low then Some Op_Stop
         else if always_on l then (if st \<noteq> RUNNING \<and> fits then Some Op_Start else None)
         else if st = RUNNING then
           (if tiered then (if t1 \<le> idle then Some Op_Pause else None)
            else (if t2 \<le> idle then Some Op_Stop else None))
         else if st = PAUSED \<and> tiered \<and> t2 \<le> idle then Some Op_Stop
         else None)"

definition policy_act :: "'e ext \<Rightarrow> container_op option \<Rightarrow> string \<Rightarrow> ('e shard, unit) act" where
  "policy_act X oper n = (case oper of None \<Rightarrow> ret () | Some p \<Rightarrow> op_act X p n)"

section \<open>Lemmas\<close>

lemma app_metadata_apply [act_simps]:
  "app_metadata X n s = (get_app_metadata X (sh_fs s) n, s)"
  by (simp add: app_metadata_def act_simps)

lemma size_is_compatible_state: "snd (size_is_compatible v s) = s"
  by (simp add: size_is_compatible_def get_profile_def act_simps
      split: option.split sum.split exn.split)

lemma or_default_pos: "0 < d \<Longrightarrow> (\<And>n. v = Some n \<Longrightarrow> 5 \<le> n) \<Longrightarrow> 0 < or_default v d"
  by (cases v) (auto simp: or_default_def)

lemma gather_raises:
  assumes "m \<in> set ms" and "\<And>s. P s \<Longrightarrow> \<exists>e. fst (m s) = Inl e"
    and "\<And>k s. k \<in> set ms \<Longrightarrow> P s \<Longrightarrow> P (snd (k s))" and "P s"
  shows "\<exists>e. fst (gather ms s) = Inl e"
  using assms
proof (induction ms arbitrary: s)
  case (Cons k ms)
  obtain r t where k: "k s = (r, t)" by (cases "k s") auto
  have t: "P t" using Cons.prems(3) [of k s] Cons.prems(4) k by simp
  show ?case
  proof (cases "m = k")
    case True
    then show ?thesis using Cons.prems(2) [of s] Cons.prems(4) k by (auto split: prod.split)
  next
    case False
    then have "\<exists>e. fst (gather ms t) = Inl e"
      using Cons.prems t by (intro Cons.IH) auto
    then show ?thesis using k by (auto split: prod.splits sum.split)
  qed
qed simp

lemma moves_scoped_fs: "moves (scoped X n st) m \<Longrightarrow> sh_fs (snd (m s)) = sh_fs s"
  by (simp add: moves_def scoped_def)

lemma op_keeps_fs: "moves (keeps sh_fs) (op_act X oper n)"
  using moves_scoped_fs [OF op_scoped [of X n oper]] by (simp add: moves_def keeps_def)

lemma control_app_time_keeps_fs: "moves (keeps sh_fs) (control_app_time X p app)"
proof -
  have size: "moves (keeps sh_fs) (size_is_compatible v)" for v
    by (simp add: moves_def keeps_def size_is_compatible_state)
  have meta: "moves (keeps sh_fs) (app_metadata X n)" for n
    by (simp add: moves_def keeps_def act_simps)
  note ops = op_keeps_fs [of X Op_Stop, simplified] op_keeps_fs [of X Op_Start, simplified]
    op_keeps_fs [of X Op_Pause, simplified]
  show ?thesis
    unfolding control_app_time_def
    by (auto intro!: keeps.moves_bnd keeps.moves_gets keeps.moves_ret size meta ops moves_keeps_now
        simp: Let_def)
qed

lemma lru_least:
  "lru d best as \<in> set (best # as)
   \<and> (\<forall>a \<in> set (best # as). last_access_of d (ia_name (lru d best as)) \<le> last_access_of d (ia_name a))"
proof (induction as arbitrary: best)
  case (Cons a as)
  show ?case
    using Cons.IH [of a] Cons.IH [of best] by (auto; fastforce)
qed simp

text \<open>
  The loop of \<open>_demote_lru\<close> reads the clock once per app; \<open>clock_within\<close> says that the next \<open>k\<close>
  readings lie between \<open>lo\<close> and \<open>hi\<close>.  An app is spared for sure when it is always on or was
  accessed within the grace period before \<open>lo\<close>, and a candidate only when neither holds at \<open>hi\<close>.
\<close>

fun clock_within :: "'e ext \<Rightarrow> nat \<Rightarrow> 'e \<Rightarrow> real \<Rightarrow> real \<Rightarrow> bool" where
  "clock_within X 0 e lo hi \<longleftrightarrow> True"
| "clock_within X (Suc k) e lo hi \<longleftrightarrow>
     (case x_time X e of (t, e') \<Rightarrow> lo \<le> t \<and> t \<le> hi \<and> clock_within X k e' lo hi)"

lemma clock_within_less: "clock_within X (Suc k) e lo hi \<Longrightarrow> clock_within X k e lo hi"
proof (induction k arbitrary: e)
  case (Suc k)
  then show ?case
    by (cases "x_time X e") (metis (no_types, lifting) case_prod_conv clock_within.simps(2))
qed simp

definition demotable_at :: "'e ext \<Rightarrow> 'e shard \<Rightarrow> real \<Rightarrow> app_row \<Rightarrow> bool" where
  "demotable_at X s t a \<longleftrightarrow>
     (case get_app_metadata X (sh_fs s) (ia_name a) of
        Inl _ \<Rightarrow> False
      | Inr meta \<Rightarrow> \<not> always_on (am_lifecycle meta)
          \<and> RECENT_ACCESS_GRACE < t - last_access_of (sh_last_access s) (ia_name a))"

lemma demotable_at_env [simp]: "demotable_at X (s\<lparr>sh_env := e\<rparr>) = demotable_at X s"
  by (intro ext) (simp add: demotable_at_def split: sum.split)

lemma demotable_Inr:
  assumes "demotable X apps s = (Inr (R, P), t)" and "clock_within X (length apps) (sh_env s) lo hi"
  shows "(\<forall>a \<in> set R. a \<in> set apps \<and> ia_status a = RUNNING \<and> demotable_at X s hi a)
    \<and> (\<forall>a \<in> set P. a \<in> set apps \<and> ia_status a = PAUSED \<and> demotable_at X s hi a)
    \<and> (\<forall>a \<in> set apps. ia_status a = RUNNING \<longrightarrow> demotable_at X s lo a \<longrightarrow> a \<in> set R)
    \<and> (\<forall>a \<in> set apps. ia_status a = PAUSED \<longrightarrow> demotable_at X s lo a \<longrightarrow> a \<in> set P)"
  using assms
proof (induction apps arbitrary: R P s t)
  case Nil
  then show ?case by (auto simp: act_simps)
next
  case (Cons app apps)
  obtain meta where meta: "get_app_metadata X (sh_fs s) (ia_name app) = Inr meta"
    using Cons.prems by (auto simp: act_simps split: sum.splits)
  obtain n e where time: "x_time X (sh_env s) = (n, e)" by (cases "x_time X (sh_env s)") auto
  let ?s = "s\<lparr>sh_env := e\<rparr>"
  have clock: "lo \<le> n" "n \<le> hi" "clock_within X (length apps) (sh_env ?s) lo hi"
    using Cons.prems(2) time by auto
  consider (on) "always_on (am_lifecycle meta)"
    | (recent) "\<not> always_on (am_lifecycle meta)"
        "n - last_access_of (sh_last_access s) (ia_name app) \<le> RECENT_ACCESS_GRACE"
    | (old) "\<not> always_on (am_lifecycle meta)"
        "\<not> n - last_access_of (sh_last_access s) (ia_name app) \<le> RECENT_ACCESS_GRACE"
    by blast
  then show ?case
  proof cases
    case on
    then have "demotable X apps s = (Inr (R, P), t)"
      using Cons.prems meta by (simp add: act_simps)
    moreover have "\<not> demotable_at X s lo app" using on meta by (simp add: demotable_at_def)
    moreover have "clock_within X (length apps) (sh_env s) lo hi"
      using Cons.prems(2) unfolding length_Cons by (rule clock_within_less)
    ultimately show ?thesis using Cons.IH [of s R P t] unfolding list.set ball_simps by blast
  next
    case recent
    then have "demotable X apps ?s = (Inr (R, P), t)"
      using Cons.prems meta time by (simp add: act_simps)
    moreover have "\<not> demotable_at X s lo app"
      using recent(2) clock(1) meta by (simp add: demotable_at_def)
    ultimately show ?thesis
      using Cons.IH [of ?s R P t, unfolded demotable_at_env] clock(3) unfolding list.set ball_simps by blast
  next
    case old
    then obtain R' P' where rest: "demotable X apps ?s = (Inr (R', P'), t)"
      and RP: "(R, P) = (if ia_status app = RUNNING then (app # R', P')
                 else if ia_status app = PAUSED then (R', app # P') else (R', P'))"
      using Cons.prems meta time by (auto simp: act_simps split: prod.splits sum.splits)
    have "demotable_at X s hi app"
      using old clock(2) meta by (simp add: demotable_at_def)
    note new = this and IH = Cons.IH [OF rest clock(3), unfolded demotable_at_env]
    consider (run) "ia_status app = RUNNING" "ia_status app \<noteq> PAUSED" "R = app # R'" "P = P'"
      | (pau) "ia_status app = PAUSED" "ia_status app \<noteq> RUNNING" "R = R'" "P = app # P'"
      | (oth) "ia_status app \<noteq> RUNNING" "ia_status app \<noteq> PAUSED" "R = R'" "P = P'"
      using RP by (cases "ia_status app") simp_all
    then show ?thesis
    proof cases
      case run
      show ?thesis using new IH run(1,2) unfolding run(3,4) list.set ball_simps by blast
    next
      case pau
      show ?thesis using new IH pau(1,2) unfolding pau(3,4) list.set ball_simps by blast
    next
      case oth
      show ?thesis using new IH oth(1,2) unfolding oth(3,4) list.set ball_simps by blast
    qed
  qed
qed

section \<open>Properties\<close>

text \<open>
  C12. The control of one app implements the policy: given its metadata, whether it fits the machine
  and the time, the handler applies exactly the operation the policy picks, in the state it found,
  up to the reading of the clock.
\<close>

theorem control_app_time_refines:
  assumes "get_app_metadata X (sh_fs s) (ia_name a) = Inr meta"
    and "size_is_compatible (am_minimum_portal_size meta) s = (Inr fits, s)"
    and "x_time X (sh_env s) = (t, e)"
  shows "control_app_time X (pause_enabled (lifecycle_cfg (cfg X))) a s =
    policy_act X
      (policy (lifecycle_cfg (cfg X)) (disk_low s) fits (am_lifecycle meta) (ia_status a)
         (t - last_access_of (sh_last_access s) (ia_name a)))
      (ia_name a)
      (if disk_low s \<or> always_on (am_lifecycle meta) then s else s\<lparr>sh_env := e\<rparr>)"
  using assms
  by (auto simp: control_app_time_def policy_def policy_act_def act_simps Let_def)

definition lifecycle_witness :: "real shard" where
  "lifecycle_witness =
     one_running_app\<lparr>sh_fs := [[''r'', ''core'', ''installed_apps'', ''a''] \<mapsto> Dir,
        [''r'', ''core'', ''installed_apps'', ''a'', ''app_meta.json''] \<mapsto> File ''ok''],
      sh_env := 7\<rparr>"

lemma witness_meta: "get_app_metadata sample_ext (sh_fs lifecycle_witness) ''a'' = Inr sample_meta"
  by code_simp

lemma witness_facts:
  "\<not> disk_low lifecycle_witness" "x_time sample_ext (sh_env lifecycle_witness) = (7, 7)"
  "last_access_of (sh_last_access lifecycle_witness) ''a'' = 0"
  "lifecycle_witness\<lparr>sh_env := 7\<rparr> = lifecycle_witness"
  "lifecycle_cfg (cfg sample_ext) = default_lifecycle_settings"
  "am_lifecycle sample_meta = default_lifecycle"
  "size_is_compatible v lifecycle_witness = (Inr False, lifecycle_witness)"
  by (simp_all add: sample_ext_def lifecycle_witness_def one_running_app_def sample_shard_def
      last_access_of_def disk_low_def sample_cfg_def sample_meta_def
      size_is_compatible_def get_profile_def act_simps)

lemma control_app_time_refines_witness:
  "\<exists>a. control_app_time sample_ext False a lifecycle_witness = (Inr (), lifecycle_witness)"
proof -
  let ?a = "\<lparr>ia_name = ''a'', ia_reason = Reason_STORE, ia_status = RUNNING, ia_last_access = None\<rparr>"
  have "control_app_time sample_ext (pause_enabled (lifecycle_cfg (cfg sample_ext))) ?a lifecycle_witness
      = (Inr (), lifecycle_witness)"
    using control_app_time_refines [of sample_ext lifecycle_witness ?a sample_meta False 7 7]
    by (simp add: witness_meta witness_facts policy_def policy_act_def or_default_def
        default_lifecycle_settings_def default_lifecycle_def act_simps)
  then show ?thesis by (auto simp: witness_facts default_lifecycle_settings_def)
qed

text \<open>
  A running app in use is left alone: when the disk is not low and the app was accessed less than
  its pause time and its stop time ago, or is always on, the control changes nothing but the clock.
\<close>

theorem app_in_use_left_alone:
  assumes "get_app_metadata X (sh_fs s) (ia_name a) = Inr meta" and "ia_status a = RUNNING"
    and "\<not> disk_low s" and "x_time X (sh_env s) = (t, e)"
    and "always_on (am_lifecycle meta)
      \<or> (t - last_access_of (sh_last_access s) (ia_name a)
           < of_int (or_default (idle_for_pause (am_lifecycle meta)) (default_idle_for_pause (lifecycle_cfg (cfg X))))
         \<and> t - last_access_of (sh_last_access s) (ia_name a)
           < of_int (or_default (idle_for_stop (am_lifecycle meta)) (default_idle_for_stop (lifecycle_cfg (cfg X)))))"
  shows "\<exists>e'. control_app_time X p a s = (Inr (), s\<lparr>sh_env := e'\<rparr>)"
proof (cases "always_on (am_lifecycle meta)")
  case True
  then show ?thesis
    using assms(1-3) by (intro exI [of _ "sh_env s"]) (simp add: control_app_time_def act_simps)
next
  case False
  then show ?thesis
    using assms by (intro exI [of _ e]) (auto simp: control_app_time_def act_simps Let_def)
qed

lemma app_in_use_left_alone_witness:
  "\<exists>e' a. ia_status a = RUNNING
     \<and> control_app_time sample_ext True a lifecycle_witness = (Inr (), lifecycle_witness\<lparr>sh_env := e'\<rparr>)"
proof -
  let ?a = "\<lparr>ia_name = ''a'', ia_reason = Reason_STORE, ia_status = RUNNING, ia_last_access = None\<rparr>"
  have "\<exists>e'. control_app_time sample_ext True ?a lifecycle_witness = (Inr (), lifecycle_witness\<lparr>sh_env := e'\<rparr>)"
    by (rule app_in_use_left_alone [of _ _ _ sample_meta 7 7]) (simp_all add: witness_meta witness_facts or_default_def
        default_lifecycle_settings_def default_lifecycle_def)
  moreover have "ia_status ?a = RUNNING" by simp
  ultimately show ?thesis by blast
qed

definition least_recent :: "'e shard \<Rightarrow> app_row \<Rightarrow> app_row list \<Rightarrow> bool" where
  "least_recent s v as \<longleftrightarrow>
     list_all (\<lambda>a. last_access_of (sh_last_access s) (ia_name v) \<le> last_access_of (sh_last_access s) (ia_name a)) as"

lemma demotable_succeeds:
  assumes "\<And>a. a \<in> set apps \<Longrightarrow> \<exists>meta. get_app_metadata X (sh_fs s) (ia_name a) = Inr meta"
  shows "\<exists>R P e. demotable X apps s = (Inr (R, P), s\<lparr>sh_env := e\<rparr>)"
  using assms
proof (induction apps arbitrary: s)
  case Nil
  show ?case by (auto simp: act_simps intro: exI [of _ "sh_env s"])
next
  case (Cons app apps)
  obtain meta where meta: "get_app_metadata X (sh_fs s) (ia_name app) = Inr meta"
    using Cons.prems by auto
  obtain t e where time: "x_time X (sh_env s) = (t, e)" by (cases "x_time X (sh_env s)") auto
  obtain R P e' where now: "demotable X apps s = (Inr (R, P), s\<lparr>sh_env := e'\<rparr>)"
    using Cons.IH [of s] Cons.prems by auto
  obtain R' P' e'' where later: "demotable X apps (s\<lparr>sh_env := e\<rparr>) = (Inr (R', P'), s\<lparr>sh_env := e''\<rparr>)"
    using Cons.IH [of "s\<lparr>sh_env := e\<rparr>"] Cons.prems by auto
  show ?case
    using meta time now later
    by (auto simp: act_simps intro: exI [of _ e'] exI [of _ e''])
qed

text \<open>The victim taken from a list that has all candidates is the least recent of them.\<close>

lemma victim_least:
  assumes "\<forall>a \<in> set apps. ia_status a = st \<longrightarrow> demotable_at X s lo a \<longrightarrow> a \<in> set (r # rs)"
  shows "lru (sh_last_access s) r rs \<in> set (r # rs)"
    and "least_recent s (lru (sh_last_access s) r rs) (filter (\<lambda>a. ia_status a = st \<and> demotable_at X s lo a) apps)"
  using lru_least [of "sh_last_access s" r rs] assms by (auto simp: least_recent_def list_all_iff)

text \<open>
  C13. Under pressure at most one app is demoted.  With all clock readings of the round between \<open>lo\<close>
  and \<open>hi\<close>: if some running app is demotable (not always on, not accessed within the grace
  period) the victim is a running demotable app, accessed no later than every other one, and it is paused,
  or stopped when it opts out of pausing; only when there is none, the least recently accessed
  demotable paused app is stopped; otherwise nothing happens.
\<close>

theorem demote_lru_victim:
  assumes "\<forall>a \<in> set apps. \<exists>meta. get_app_metadata X (sh_fs s) (ia_name a) = Inr meta"
    and "clock_within X (length apps) (sh_env s) lo hi"
  shows "\<exists>e. let u = s\<lparr>sh_env := e\<rparr>;
               able = (\<lambda>st v. v \<in> set apps \<and> ia_status v = st \<and> demotable_at X s hi v
                 \<and> least_recent s v (filter (\<lambda>a. ia_status a = st \<and> demotable_at X s lo a) apps));
               none = (\<lambda>st. list_all (\<lambda>a. ia_status a = st \<longrightarrow> \<not> demotable_at X s lo a) apps)
    in (\<exists>v meta. able RUNNING v \<and> get_app_metadata X (sh_fs s) (ia_name v) = Inr meta
          \<and> demote_lru X apps s = op_act X (if skip_pause (am_lifecycle meta) then Op_Stop else Op_Pause) (ia_name v) u)
       \<or> (none RUNNING \<and> (\<exists>v. able PAUSED v \<and> demote_lru X apps s = op_act X Op_Stop (ia_name v) u))
       \<or> (none RUNNING \<and> none PAUSED \<and> demote_lru X apps s = (Inr (), u))"
proof -
  obtain R P e where d: "demotable X apps s = (Inr (R, P), s\<lparr>sh_env := e\<rparr>)"
    using demotable_succeeds [of apps X s] assms(1) by blast
  note D = demotable_Inr [OF d assms(2)]
  note D1 = D [THEN conjunct1] and D2 = D [THEN conjunct2, THEN conjunct1]
    and D3 = D [THEN conjunct2, THEN conjunct2, THEN conjunct1]
    and D4 = D [THEN conjunct2, THEN conjunct2, THEN conjunct2]
  show ?thesis
  proof (cases R)
    case (Cons r rs)
    let ?v = "lru (sh_last_access s) r rs"
    have v: "?v \<in> set R" and least: "least_recent s ?v (filter (\<lambda>a. ia_status a = RUNNING \<and> demotable_at X s lo a) apps)"
      using victim_least [OF D3 [unfolded Cons]] Cons by simp_all
    obtain meta where meta: "get_app_metadata X (sh_fs s) (ia_name ?v) = Inr meta"
      using v D1 assms(1) by blast
    have "demote_lru X apps s =
        op_act X (if skip_pause (am_lifecycle meta) then Op_Stop else Op_Pause) (ia_name ?v) (s\<lparr>sh_env := e\<rparr>)"
      using d Cons meta by (simp add: demote_lru_def act_simps Let_def)
    with least show ?thesis
      using v D1 meta unfolding Let_def by (intro exI [of _ e] disjI1) blast
  next
    case Nil
    then have none: "list_all (\<lambda>a. ia_status a = RUNNING \<longrightarrow> \<not> demotable_at X s lo a) apps"
      using D3 by (auto simp: list_all_iff)
    show ?thesis
    proof (cases P)
      case (Cons r rs)
      let ?v = "lru (sh_last_access s) r rs"
      have v: "?v \<in> set P" and least: "least_recent s ?v (filter (\<lambda>a. ia_status a = PAUSED \<and> demotable_at X s lo a) apps)"
        using victim_least [OF D4 [unfolded Cons]] Cons by simp_all
      have "demote_lru X apps s = op_act X Op_Stop (ia_name ?v) (s\<lparr>sh_env := e\<rparr>)"
        using d Cons Nil by (simp add: demote_lru_def act_simps Let_def)
      with least show ?thesis
        using v D2 none unfolding Let_def by (intro exI [of _ e] disjI2 disjI1) blast
    next
      case P: Nil
      then have "list_all (\<lambda>a. ia_status a = PAUSED \<longrightarrow> \<not> demotable_at X s lo a) apps"
        using D4 by (auto simp: list_all_iff)
      moreover have "demote_lru X apps s = (Inr (), s\<lparr>sh_env := e\<rparr>)"
        using d Nil P by (simp add: demote_lru_def act_simps Let_def)
      ultimately show ?thesis
        using none unfolding Let_def by (intro exI [of _ e] disjI2) simp
    qed
  qed
qed

lemma demote_lru_victim_witness:
  "\<exists>a e. ia_status a = RUNNING
     \<and> demote_lru sample_ext [a] lifecycle_witness = op_act sample_ext Op_Pause ''a'' (lifecycle_witness\<lparr>sh_env := e\<rparr>)"
proof -
  let ?a = "\<lparr>ia_name = ''a'', ia_reason = Reason_STORE, ia_status = RUNNING, ia_last_access = None\<rparr>"
  have "clock_within sample_ext (length [?a]) (sh_env lifecycle_witness) 7 7"
    by (simp add: witness_facts)
  moreover have "demotable_at sample_ext lifecycle_witness 7 ?a"
    by (simp add: demotable_at_def witness_meta witness_facts default_lifecycle_def RECENT_ACCESS_GRACE_def)
  ultimately show ?thesis
    using demote_lru_victim [of "[?a]" sample_ext lifecycle_witness 7 7]
    by (auto simp: Let_def witness_meta witness_facts default_lifecycle_def intro: exI [of _ ?a])
qed

text \<open>
  One installed app without metadata disables demotion: if the metadata of any app that is
  not queued or installing cannot be loaded, the periodic control raises after the per-app controls,
  in the state they left, and never demotes an app however high the memory pressure is.
\<close>

theorem control_apps_missing_metadata:
  assumes "a \<in> set (sh_apps s)" and "ia_status a \<notin> {INSTALLATION_QUEUED, INSTALLING}"
    and "get_app_metadata X (sh_fs s) (ia_name a) = Inl e"
    and "pause_enabled (lifecycle_cfg (cfg X))" and "read_memory_pressure X s = (Inr psi, u)"
  shows "\<exists>e' v. control_apps X s = (Inl e',
    snd (gather (map (control_app_time X True)
      (filter (\<lambda>a. ia_status a \<notin> {INSTALLATION_QUEUED, INSTALLING}) (sh_apps s))) v))"
proof -
  have psi: "moves (keeps (\<lambda>s. (sh_apps s, sh_fs s))) (read_memory_pressure X)"
    unfolding read_memory_pressure_def
    by (auto intro!: keeps_rules moves_keeps_world_res split: option.split)
  have snapshot: "moves (keeps (\<lambda>s. (sh_apps s, sh_fs s))) (record_psi_snapshot X psi)"
    unfolding record_psi_snapshot_def metrics_def by (auto intro!: keeps_rules)
  have recorded: "\<exists>v. record_psi_snapshot X psi u = (Inr (), v)"
    by (simp add: record_psi_snapshot_def metrics_def act_simps)
  then obtain v where v: "record_psi_snapshot X psi u = (Inr (), v)" ..
  have same: "sh_apps v = sh_apps s" "sh_fs v = sh_fs s"
    using moves_keepsD [OF psi assms(5)] moves_keepsD [OF snapshot v] by simp_all
  let ?apps = "filter (\<lambda>a. ia_status a \<notin> {INSTALLATION_QUEUED, INSTALLING}) (sh_apps s)"
  have "\<exists>e'. fst (gather (map (control_app_time X True) ?apps) v) = Inl e'"
  proof (rule gather_raises [where P = "\<lambda>t. sh_fs t = sh_fs s" and m = "control_app_time X True a"])
    show "control_app_time X True a \<in> set (map (control_app_time X True) ?apps)"
      using assms(1,2) by simp
    show "\<exists>e. fst (control_app_time X True a t) = Inl e" if "sh_fs t = sh_fs s" for t
      using that assms(3) by (simp add: control_app_time_def act_simps)
    show "sh_fs (snd (k t)) = sh_fs s"
      if "k \<in> set (map (control_app_time X True) ?apps)" and "sh_fs t = sh_fs s" for k t
      using that by (auto simp: moves_keeps_snd [where f = sh_fs, OF control_app_time_keeps_fs])
  qed (simp add: same)
  then obtain e' w where "gather (map (control_app_time X True) ?apps) v = (Inl e', w)"
    by (cases "gather (map (control_app_time X True) ?apps) v") auto
  then show ?thesis
    using assms(4,5) v same
    by (intro exI [of _ e'] exI [of _ v]) (simp add: control_apps_def apps_get_all_def act_simps Let_def)
qed

definition pausing_ext :: "real ext" where
  "pausing_ext =
     sample_ext\<lparr>cfg := sample_cfg\<lparr>lifecycle_cfg := default_lifecycle_settings\<lparr>pause_enabled := True\<rparr>\<rparr>\<rparr>"

lemma control_apps_missing_metadata_witness:
  "\<exists>e. fst (control_apps pausing_ext
     (lifecycle_witness\<lparr>sh_apps := [\<lparr>ia_name = ''b'', ia_reason = Reason_STORE, ia_status = ERROR,
        ia_last_access = None\<rparr>]\<rparr>)) = Inl e"
proof -
  let ?b = "\<lparr>ia_name = ''b'', ia_reason = Reason_STORE, ia_status = ERROR, ia_last_access = None\<rparr>"
  let ?s = "lifecycle_witness\<lparr>sh_apps := [?b]\<rparr>"
  have "get_app_metadata pausing_ext (sh_fs ?s) (ia_name ?b) = Inl (MetadataNotFound ''b'')"
    by code_simp
  moreover have "read_memory_pressure pausing_ext ?s = (Inr 0, ?s)"
    by (simp add: read_memory_pressure_def world_res_def act_simps pausing_ext_def sample_ext_def
        is_os_error_def)
  ultimately show ?thesis
    using control_apps_missing_metadata [of ?b ?s pausing_ext "MetadataNotFound ''b''" 0 ?s]
    by (auto simp: pausing_ext_def)
qed

end
