(* ===== verification/Auth.thy ===== *)
theory Auth
  imports Peers Pairing App_Lifecycle
begin

text \<open>
  \<open>web/internal/auth.py\<close>, the endpoints the reverse proxy asks before it forwards a request, with
  \<open>data_model/auth.py\<close>, \<open>update_last_access\<close> of \<open>data_model/app_meta.py\<close> and \<open>web/public/meta.py\<close>.
  The app cache holds the objects handed out: \<open>update_last_access\<close> writes to the cached object.
\<close>

section \<open>data_model/auth.py\<close>

datatype client_type = CT_TERMINAL | CT_PEER | CT_ANONYMOUS

fun client_type_value :: "client_type \<Rightarrow> string" where
  "client_type_value CT_TERMINAL = ''terminal''"
| "client_type_value CT_PEER = ''peer''"
| "client_type_value CT_ANONYMOUS = ''anonymous''"

record auth_state =
  as_type :: client_type
  as_id :: "string option"
  as_name :: "string option"

definition text_or_empty :: "string option \<Rightarrow> string" where
  "text_or_empty v = (case v of None \<Rightarrow> [] | Some t \<Rightarrow> t)"

definition header_values :: "auth_state \<Rightarrow> (string \<times> string) list" where
  "header_values a =
     [(''client_type'', client_type_value (as_type a)),
      (''client_id'', text_or_empty (as_id a)),
      (''client_name'', text_or_empty (as_name a))]"

section \<open>Lookups\<close>

definition find_app :: "string \<Rightarrow> ('e shard, app_row option) act" where
  "find_app n =
     bnd (gets (\<lambda>s. map_of (sh_app_cache s) n)) (\<lambda>cached.
       case cached of
         Some a \<Rightarrow> ret a
       | None \<Rightarrow>
           bnd (db_apps (apps_get_by_name n)) (\<lambda>a.
           seq (modify (\<lambda>s. s\<lparr>sh_app_cache := dict_set (sh_app_cache s) n a\<rparr>))
           (ret a)))"

definition match_app :: "string option \<Rightarrow> ('e shard, app_row) act" where
  "match_app host =
     (case host of
        None \<Rightarrow> raise AttributeError
      | Some h \<Rightarrow>
          bnd (find_app (hd (split_on CHR ''.'' h))) (\<lambda>a.
            case a of None \<Rightarrow> raise (HTTPException 404) | Some a \<Rightarrow> ret a))"

text \<open>The first path, in the order of decreasing length, that the URI starts with.\<close>

definition by_length_desc :: "(string \<times> 'b) list \<Rightarrow> (string \<times> 'b) list" where
  "by_length_desc = sort_key (\<lambda>x. - int (length (fst x)))"

definition match_path :: "(string \<times> path_props) list \<Rightarrow> string \<Rightarrow> path_props option" where
  "match_path paths uri = map_option snd (find (\<lambda>x. starts_with (fst x) uri) (by_length_desc paths))"

definition match_path_act :: "'e ext \<Rightarrow> string option \<Rightarrow> app_row \<Rightarrow> ('e shard, path_props option) act" where
  "match_path_act X uri app =
     bnd (app_metadata X (ia_name app)) (\<lambda>meta.
       case (uri, am_paths meta) of
         (None, _ # _) \<Rightarrow> raise AttributeError
       | (None, []) \<Rightarrow> ret None
       | (Some u, paths) \<Rightarrow> ret (match_path paths u))"

definition get_identity :: "'e ext \<Rightarrow> ('e shard, safe_identity) act" where
  "get_identity X =
     bnd (gets sh_identity_cache) (\<lambda>cached.
       case cached of
         Some i \<Rightarrow> ret i
       | None \<Rightarrow>
           bnd (db_identities identities_get_default) (\<lambda>row.
           bnd (identity_of X row) (\<lambda>default.
           bnd (lift_res (safe_of_identity X default)) (\<lambda>i.
           seq (modify (\<lambda>s. s\<lparr>sh_identity_cache := Some i\<rparr>))
           (ret i)))))"

definition get_auth_state :: "'e ext \<Rightarrow> http_request \<Rightarrow> string option \<Rightarrow> ('e shard, auth_state) act" where
  "get_auth_state X rq authorization =
     try_else (verify_terminal_jwt X authorization)
       (\<lambda>e. case e of
          InvalidJwt \<Rightarrow>
            try_else (verify_peer_auth X rq)
              (\<lambda>e. case e of
                 InvalidSignature \<Rightarrow> ret \<lparr>as_type = CT_ANONYMOUS, as_id = None, as_name = None\<rparr>
               | KeyError _ \<Rightarrow> ret \<lparr>as_type = CT_ANONYMOUS, as_id = None, as_name = None\<rparr>
               | _ \<Rightarrow> raise e)
              (\<lambda>p. ret \<lparr>as_type = CT_PEER, as_id = Some (pe_id p), as_name = pe_name p\<rparr>)
        | _ \<Rightarrow> raise e)
       (\<lambda>t. seq (on_terminal_auth X t)
          (ret \<lparr>as_type = CT_TERMINAL, as_id = Some (tm_id t), as_name = Some (tm_name t)\<rparr>))"

section \<open>on_request_to_app\<close>

definition update_last_access :: "'e ext \<Rightarrow> app_row \<Rightarrow> ('e shard, unit) act" where
  "update_last_access X app =
     bnd (now X) (\<lambda>t.
       if (case ia_last_access app of None \<Rightarrow> False
           | Some la \<Rightarrow> t - la < of_int (max_update_frequency (cfg X)))
       then ret ()
       else
         seq (db_apps (apps_update_last_access (ia_name app) t))
         (modify (\<lambda>s. s\<lparr>sh_app_cache :=
            map (\<lambda>(k, v). (k, if k = ia_name app then map_option (ia_last_access_update (\<lambda>_. Some t)) v else v))
              (sh_app_cache s)\<rparr>)))"

definition request_receiver :: "'e ext \<Rightarrow> app_row \<Rightarrow> nat \<Rightarrow> ('e shard, unit) act" where
  "request_receiver X app k =
     (if k = 0 then ensure_app_is_running X app
      else if k = 1 then update_last_access X app
      else record_request X)"

definition on_request_to_app :: "'e ext \<Rightarrow> app_row \<Rightarrow> ('e shard, unit) act" where
  "on_request_to_app X app = for_each (request_receiver X app) (x_receiver_order X)"

section \<open>Endpoints\<close>

text \<open>\<open>if not authorization\<close>\<close>

definition given :: "string option \<Rightarrow> bool" where
  "given v \<longleftrightarrow> (case v of None \<Rightarrow> False | Some t \<Rightarrow> t \<noteq> [])"

definition authenticate_terminal ::
    "'e ext \<Rightarrow> string option \<Rightarrow> ('e shard, (string \<times> string) list) act" where
  "authenticate_terminal X authorization =
     (if \<not> given authorization then raise (HTTPException 401)
      else
        try_else (verify_terminal_jwt X authorization)
          (\<lambda>e. case e of InvalidJwt \<Rightarrow> raise (HTTPException 401) | _ \<Rightarrow> raise e)
          (\<lambda>t. seq (on_terminal_auth X t)
             (ret [(''X-Ptl-Client-Type'', ''terminal''), (''X-Ptl-Client-Id'', tm_id t),
                   (''X-Ptl-Client-Name'', tm_name t)])))"

definition authenticate_management :: "'e ext \<Rightarrow> string option \<Rightarrow> ('e shard, unit) act" where
  "authenticate_management X authorization =
     (case authorization of
        None \<Rightarrow> raise (HTTPException 401)
      | Some secret \<Rightarrow>
          if secret = [] then raise (HTTPException 401)
          else
            try_except (validate_shared_secret X secret)
              (\<lambda>e. case e of SharedSecretInvalid \<Rightarrow> raise (HTTPException 401) | _ \<Rightarrow> raise e))"

definition identity_attributes :: "safe_identity \<Rightarrow> (string \<times> string) list" where
  "identity_attributes i =
     [(''domain'', si_domain i), (''id'', si_id i), (''public_key_pem'', si_public_key_pem i),
      (''short_id'', short_id (si_id i))]"

definition render_headers ::
    "'e ext \<Rightarrow> auth_state \<Rightarrow> safe_identity \<Rightarrow> (string \<times> string) list option \<Rightarrow> (string \<times> string) list result" where
  "render_headers X a i headers =
     collect_res
       (\<lambda>(k, template). bind_res
          (x_render X template [(''auth'', header_values a), (''portal'', identity_attributes i)])
          (\<lambda>v. Inr (k, v)))
       (case headers of None \<Rightarrow> [] | Some hs \<Rightarrow> hs)"

definition authenticate_and_authorize ::
    "'e ext \<Rightarrow> http_request \<Rightarrow> string option \<Rightarrow> string option \<Rightarrow> string option
       \<Rightarrow> ('e shard, (string \<times> string) list) act" where
  "authenticate_and_authorize X rq authorization host uri =
     bnd (match_app host) (\<lambda>app.
     bnd (match_path_act X uri app) (\<lambda>path_object.
     bnd (get_auth_state X rq authorization) (\<lambda>auth.
     bnd (get_identity X) (\<lambda>portal.
     case path_object of
       None \<Rightarrow> raise AttributeError
     | Some pp \<Rightarrow>
         if pp_access pp = PRIVATE \<and> as_type auth \<noteq> CT_TERMINAL then raise (HTTPException 401)
         else if pp_access pp = PEER \<and> as_type auth \<noteq> CT_PEER then raise (HTTPException 401)
         else
           bnd (lift_res (render_headers X auth portal (pp_headers pp))) (\<lambda>headers.
           seq (on_request_to_app X app)
           (ret headers))))))"

section \<open>web/public/meta.py\<close>

definition who_are_you :: "'e ext \<Rightarrow> ('e shard, output_identity) act" where
  "who_are_you X = bnd (get_default_identity X) (\<lambda>i. lift_res (output_of_identity X i))"

definition who_am_i :: "'e ext \<Rightarrow> string option \<Rightarrow> ('e shard, auth_state) act" where
  "who_am_i X authorization =
     (if \<not> given authorization then ret \<lparr>as_type = CT_ANONYMOUS, as_id = None, as_name = None\<rparr>
      else
        try_else (verify_terminal_jwt X authorization)
          (\<lambda>e. case e of
             InvalidJwt \<Rightarrow> ret \<lparr>as_type = CT_ANONYMOUS, as_id = None, as_name = None\<rparr>
           | _ \<Rightarrow> raise e)
          (\<lambda>t. ret \<lparr>as_type = CT_TERMINAL, as_id = Some (tm_id t), as_name = Some (tm_name t)\<rparr>))"

section \<open>Longest prefixes\<close>

lemma sorted_desc_find_longest:
  assumes "sorted (map (\<lambda>x. - int (length (fst x))) xs)" and "find (\<lambda>x. p (fst x)) xs = Some (q, v)"
    and "(q', v') \<in> set xs" and "p q'"
  shows "length q' \<le> length q"
  using assms by (induction xs) (auto split: if_splits)

lemma starts_with_same_length: "starts_with p u \<Longrightarrow> starts_with q u \<Longrightarrow> length p = length q \<Longrightarrow> p = q"
  by (simp add: starts_with_def)

text \<open>\<open>longest_prefix paths uri q v\<close>: of the paths the URI starts with, \<open>q\<close> with value \<open>v\<close> is the longest.\<close>

definition longest_prefix :: "(string \<times> 'b) list \<Rightarrow> string \<Rightarrow> string \<Rightarrow> 'b \<Rightarrow> bool" where
  "longest_prefix paths uri q v \<longleftrightarrow>
     (q, v) \<in> set paths \<and> starts_with q uri
     \<and> list_all (\<lambda>(q', v'). starts_with q' uri \<longrightarrow> length q' \<le> length q) paths"

lemma longest_prefix_unique:
  assumes "distinct (map fst paths)" and "longest_prefix paths uri q v" and "longest_prefix paths uri q' v'"
  shows "q = q' \<and> v = v'"
proof -
  have "length q = length q'"
    using assms(2,3) by (auto simp: longest_prefix_def list_all_iff intro!: antisym)
  then have "q = q'"
    using assms(2,3) starts_with_same_length by (auto simp: longest_prefix_def)
  then show ?thesis
    using assms by (auto simp: longest_prefix_def dest: eq_key_imp_eq_value)
qed

lemma match_path_prefix:
  assumes "match_path paths uri = Some v"
  shows "\<exists>q. longest_prefix paths uri q v"
proof -
  obtain q where f: "find (\<lambda>x. starts_with (fst x) uri) (by_length_desc paths) = Some (q, v)"
    using assms by (auto simp: match_path_def)
  have s: "sorted (map (\<lambda>x. - int (length (fst x))) (by_length_desc paths))"
    by (simp add: by_length_desc_def)
  have m: "set (by_length_desc paths) = set paths"
    by (simp add: by_length_desc_def)
  have "(q, v) \<in> set paths \<and> starts_with q uri"
    using find_SomeD [OF f] m by simp
  moreover have "length q' \<le> length q" if "(q', v') \<in> set paths" and "starts_with q' uri" for q' v'
    using sorted_desc_find_longest [OF s, of "\<lambda>p. starts_with p uri" q v q' v'] f that m by simp
  ultimately show ?thesis
    by (auto simp: longest_prefix_def list_all_iff)
qed

lemma match_path_None:
  "match_path paths uri = None \<longleftrightarrow> list_all (\<lambda>(q, v). \<not> starts_with q uri) paths"
  by (auto simp: match_path_def find_None_all by_length_desc_def list_all_iff)

section \<open>Frames\<close>

lemma find_app_apply:
  "find_app n s =
     (case map_of (sh_app_cache s) n of
        Some a \<Rightarrow> (Inr a, s)
      | None \<Rightarrow> (Inr (tbl_find ia_name n (sh_apps s)),
           s\<lparr>sh_app_cache := dict_set (sh_app_cache s) n (tbl_find ia_name n (sh_apps s))\<rparr>))"
  by (simp add: find_app_def apps_get_by_name_def act_simps split: option.split)

lemma match_app_Inr:
  assumes "match_app host s = (Inr a, t)"
  shows "\<exists>h c. host = Some h \<and> find_app (hd (split_on CHR ''.'' h)) s = (Inr (Some a), t)
    \<and> t = s\<lparr>sh_app_cache := c\<rparr>"
proof -
  obtain h where h: "host = Some h" and f: "find_app (hd (split_on CHR ''.'' h)) s = (Inr (Some a), t)"
    using assms by (auto simp: match_app_def bnd_Inr_iff act_atoms split: option.splits)
  moreover have "\<exists>c. t = s\<lparr>sh_app_cache := c\<rparr>"
    using f by (auto simp: find_app_apply split: option.splits intro: exI [of _ "sh_app_cache s"])
  ultimately show ?thesis by auto
qed

lemma verify_terminal_cache:
  "verify_terminal_jwt X tok (s\<lparr>sh_app_cache := c\<rparr>) =
     (case verify_terminal_jwt X tok s of (r, t) \<Rightarrow> (r, t\<lparr>sh_app_cache := c\<rparr>))"
  by (auto simp: verify_terminal_jwt_def ensure_secret_apply terminals_get_by_id_def act_simps
      split: option.splits sum.splits prod.splits json.splits)

lemma verify_terminal_keeps:
  "(\<And>x s. f (sh_kv_update x s) = f s) \<Longrightarrow> (\<And>x s. f (s\<lparr>sh_env := x\<rparr>) = f s) \<Longrightarrow>
     moves (keeps f) (verify_terminal_jwt X tok)"
  by (auto simp: moves_def keeps_def verify_terminal_jwt_def ensure_secret_apply terminals_get_by_id_def act_simps
      split: option.splits sum.splits prod.splits json.splits)

lemma verify_peer_auth_peers:
  "sh_peers s = sh_peers t \<Longrightarrow> fst (verify_peer_auth X rq s) = fst (verify_peer_auth X rq t)"
  by (auto simp: verify_peer_auth_def get_peer_by_id_def peers_get_all_def peers_get_by_id_prefix_def act_simps
      split: option.splits sum.splits prod.splits)

lemma get_auth_state_Inr:
  assumes "get_auth_state X rq tok s = (Inr auth, t)"
  shows "(as_type auth = CT_TERMINAL \<longrightarrow>
           (\<exists>tm. fst (verify_terminal_jwt X tok s) = Inr tm \<and> as_id auth = Some (tm_id tm)))
    \<and> (as_type auth = CT_PEER \<longrightarrow> fst (verify_terminal_jwt X tok s) = Inl InvalidJwt
           \<and> (\<exists>p. fst (verify_peer_auth X rq s) = Inr p \<and> as_id auth = Some (pe_id p)))"
proof -
  obtain r u where v: "verify_terminal_jwt X tok s = (r, u)" by (cases "verify_terminal_jwt X tok s") auto
  show ?thesis
  proof (cases r)
    case (Inr tm)
    then show ?thesis
      using assms v by (auto simp: get_auth_state_def act_simps split: prod.splits sum.splits)
  next
    case (Inl e)
    then have e: "e = InvalidJwt"
      using assms v by (auto simp: get_auth_state_def act_simps split: exn.splits)
    have "sh_peers u = sh_peers s"
      using moves_keepsD [OF verify_terminal_keeps v, where f = sh_peers] by simp
    then have peer: "fst (verify_peer_auth X rq u) = fst (verify_peer_auth X rq s)"
      by (rule verify_peer_auth_peers)
    obtain p w where w: "verify_peer_auth X rq u = (p, w)" by (cases "verify_peer_auth X rq u") auto
    show ?thesis
      using assms v Inl e w peer [unfolded w fst_conv, symmetric]
      by (cases p) (auto simp: get_auth_state_def act_simps split: exn.splits)
  qed
qed

section \<open>Properties\<close>

text \<open>
  C16. The path that decides is the longest one the URI starts with, and there is a decision whenever
  the URI starts with any path, whatever the order in which the metadata lists them.
\<close>

theorem match_path_longest:
  assumes "distinct (map fst paths)"
  shows "match_path paths uri = Some v \<longleftrightarrow> (\<exists>q. longest_prefix paths uri q v)"
proof
  assume "\<exists>q. longest_prefix paths uri q v"
  then obtain q where q: "longest_prefix paths uri q v" ..
  then have "match_path paths uri \<noteq> None"
    unfolding match_path_None by (auto simp: longest_prefix_def list_all_iff)
  then obtain v' where v': "match_path paths uri = Some v'" by auto
  obtain q' where "longest_prefix paths uri q' v'" using match_path_prefix [OF v'] ..
  then show "match_path paths uri = Some v"
    using longest_prefix_unique [OF assms q] v' by simp
qed (rule match_path_prefix)

lemma match_path_longest_witness:
  "match_path [([], \<lparr>pp_access = PRIVATE, pp_headers = None\<rparr>), (''/pub'', \<lparr>pp_access = PUBLIC, pp_headers = None\<rparr>)]
     ''/pub/x'' = Some \<lparr>pp_access = PUBLIC, pp_headers = None\<rparr>"
proof -
  let ?paths = "[([], \<lparr>pp_access = PRIVATE, pp_headers = None\<rparr>), (''/pub'', \<lparr>pp_access = PUBLIC, pp_headers = None\<rparr>)]"
  have "longest_prefix ?paths ''/pub/x'' ''/pub'' \<lparr>pp_access = PUBLIC, pp_headers = None\<rparr>"
    by (simp add: longest_prefix_def starts_with_def)
  moreover have "distinct (map fst ?paths)" by simp
  ultimately show ?thesis using match_path_longest by blast
qed

definition knows_app :: "'e shard \<Rightarrow> string \<Rightarrow> app_row \<Rightarrow> bool" where
  "knows_app s n a \<longleftrightarrow>
     map_of (sh_app_cache s) n = Some (Some a)
     \<or> (map_of (sh_app_cache s) n = None \<and> tbl_find ia_name n (sh_apps s) = Some a)"

definition valid_terminal :: "'e ext \<Rightarrow> string option \<Rightarrow> 'e shard \<Rightarrow> bool" where
  "valid_terminal X tok s \<longleftrightarrow> (\<exists>tm. fst (verify_terminal_jwt X tok s) = Inr tm)"

definition valid_peer :: "'e ext \<Rightarrow> http_request \<Rightarrow> 'e shard \<Rightarrow> bool" where
  "valid_peer X rq s \<longleftrightarrow> (\<exists>p. fst (verify_peer_auth X rq s) = Inr p)"

text \<open>
  C1. Access is only granted to those entitled to it: when the endpoint lets a request through, the
  host names a known app, the longest path of its metadata that the URI starts with decides, and a
  private path was asked for with a valid token of a paired terminal, a peer path with a valid signature
  of a known peer and no valid token.
\<close>

theorem auth_grants_entitled:
  assumes "authenticate_and_authorize X rq tok host uri s = (Inr hs, t)"
  shows "\<exists>h u a meta q pp. host = Some h \<and> uri = Some u
    \<and> knows_app s (hd (split_on CHR ''.'' h)) a
    \<and> get_app_metadata X (sh_fs s) (ia_name a) = Inr meta \<and> longest_prefix (am_paths meta) u q pp
    \<and> (pp_access pp = PRIVATE \<longrightarrow> valid_terminal X tok s)
    \<and> (pp_access pp = PEER \<longrightarrow> valid_peer X rq s \<and> \<not> valid_terminal X tok s)"
proof -
  obtain a s1 pp s2 auth s3 where app: "match_app host s = (Inr a, s1)"
      and path: "match_path_act X uri a s1 = (Inr (Some pp), s2)"
      and auth: "get_auth_state X rq tok s2 = (Inr auth, s3)"
      and priv: "pp_access pp = PRIVATE \<Longrightarrow> as_type auth = CT_TERMINAL"
      and peer: "pp_access pp = PEER \<Longrightarrow> as_type auth = CT_PEER"
    using assms
    by (auto simp: authenticate_and_authorize_def bnd_Inr_iff act_atoms split: option.splits if_splits) blast
  obtain h c where h: "host = Some h" "find_app (hd (split_on CHR ''.'' h)) s = (Inr (Some a), s1)"
      and s1: "s1 = s\<lparr>sh_app_cache := c\<rparr>"
    using match_app_Inr [OF app] by blast
  obtain u meta where u: "uri = Some u" and s2: "s2 = s1"
      and meta: "get_app_metadata X (sh_fs s) (ia_name a) = Inr meta" and mp: "match_path (am_paths meta) u = Some pp"
    using path s1
    by (auto simp: match_path_act_def bnd_Inr_iff act_atoms app_metadata_apply split: option.splits list.splits)
  have known: "knows_app s (hd (split_on CHR ''.'' h)) a"
    using h(2) by (auto simp: knows_app_def find_app_apply split: option.splits)
  have terminal: "fst (verify_terminal_jwt X tok s2) = fst (verify_terminal_jwt X tok s)"
    unfolding s2 s1 verify_terminal_cache by (simp split: prod.split)
  have "fst (verify_peer_auth X rq s2) = fst (verify_peer_auth X rq s)"
    by (rule verify_peer_auth_peers) (simp add: s2 s1)
  then have "pp_access pp = PRIVATE \<longrightarrow> valid_terminal X tok s"
    and "pp_access pp = PEER \<longrightarrow> valid_peer X rq s \<and> \<not> valid_terminal X tok s"
    using get_auth_state_Inr [OF auth] priv peer terminal
    by (auto simp: valid_terminal_def valid_peer_def)
  then show ?thesis
    using h(1) u known meta match_path_prefix [OF mp] by blast
qed

definition auth_witness :: "real shard" where
  "auth_witness =
     lifecycle_witness\<lparr>sh_identities := [sample_identity ''abcdef'' True], sh_terminals := [sample_terminal],
       sh_kv := [(STORE_KEY_JWT_SECRET, JStr ''k'')]\<rparr>"

lemma auth_witness_granted:
  "fst (authenticate_and_authorize sample_ext \<lparr>rq_headers = [], rq_body = []\<rparr> (Some ''eyk:t1'')
     (Some ''a.z'') (Some ''/x'') auth_witness) = Inr []"
  by code_simp

lemma auth_grants_entitled_witness:
  "\<exists>a q pp. knows_app auth_witness ''a'' a \<and> longest_prefix (am_paths sample_meta) ''/x'' q pp
     \<and> (pp_access pp = PRIVATE \<longrightarrow> valid_terminal sample_ext (Some ''eyk:t1'') auth_witness)"
proof -
  obtain t where "authenticate_and_authorize sample_ext \<lparr>rq_headers = [], rq_body = []\<rparr> (Some ''eyk:t1'')
     (Some ''a.z'') (Some ''/x'') auth_witness = (Inr [], t)"
    using auth_witness_granted by (metis prod.collapse)
  from auth_grants_entitled [OF this] obtain a meta q pp where
    "knows_app auth_witness ''a'' a" "get_app_metadata sample_ext (sh_fs auth_witness) (ia_name a) = Inr meta"
    "longest_prefix (am_paths meta) ''/x'' q pp"
    "pp_access pp = PRIVATE \<longrightarrow> valid_terminal sample_ext (Some ''eyk:t1'') auth_witness"
    by auto
  moreover from this(1) have "ia_name a = ''a''"
    by (auto simp: knows_app_def auth_witness_def lifecycle_witness_def one_running_app_def sample_shard_def tbl_find_def)
  moreover have "get_app_metadata sample_ext (sh_fs auth_witness) ''a'' = Inr sample_meta"
    using witness_meta by (simp add: auth_witness_def)
  ultimately show ?thesis by auto
qed

text \<open>The cache knows an app exactly when the table does.\<close>

definition coherent_entries :: "app_row list \<Rightarrow> (string \<times> app_row option) list \<Rightarrow> bool" where
  "coherent_entries apps cache \<longleftrightarrow>
     list_all (\<lambda>(n, v). (v \<noteq> None) = (tbl_find ia_name n apps \<noteq> None)) cache"

definition cache_coherent :: "'e shard \<Rightarrow> bool" where
  "cache_coherent s \<longleftrightarrow> coherent_entries (sh_apps s) (sh_app_cache s)"

lemma coherent_dict_set:
  "coherent_entries apps cache \<Longrightarrow> (v \<noteq> None) = (tbl_find ia_name n apps \<noteq> None) \<Longrightarrow>
     coherent_entries apps (dict_set cache n v)"
  by (induction cache) (auto simp: coherent_entries_def)

lemma coherent_lookup:
  "coherent_entries apps cache \<Longrightarrow> map_of cache n = Some v \<Longrightarrow> (v \<noteq> None) = (tbl_find ia_name n apps \<noteq> None)"
  by (auto simp: coherent_entries_def list_all_iff dest!: map_of_SomeD)

lemma find_app_coherent: "moves (preserves cache_coherent) (find_app n)"
  by (auto simp: moves_def preserves_def cache_coherent_def find_app_apply coherent_dict_set split: option.split)

text \<open>
  A host whose app is not installed is answered with 404, and nothing but the app cache is touched.
\<close>

theorem auth_unknown_app:
  assumes "cache_coherent s" and "tbl_find ia_name (hd (split_on CHR ''.'' h)) (sh_apps s) = None"
  shows "\<exists>c. authenticate_and_authorize X rq tok (Some h) uri s
    = (Inl (HTTPException 404), s\<lparr>sh_app_cache := c\<rparr>)"
proof (cases "map_of (sh_app_cache s) (hd (split_on CHR ''.'' h))")
  case None
  then show ?thesis
    using assms(2) by (auto simp: authenticate_and_authorize_def match_app_def find_app_apply act_simps)
next
  case (Some v)
  then have "v = None"
    using assms coherent_lookup unfolding cache_coherent_def by blast
  then show ?thesis
    using Some
    by (intro exI [of _ "sh_app_cache s"])
      (simp add: authenticate_and_authorize_def match_app_def find_app_apply act_simps)
qed

lemma auth_unknown_app_witness:
  "\<exists>c. authenticate_and_authorize sample_ext \<lparr>rq_headers = [], rq_body = []\<rparr> None (Some ''b.z'') None sample_shard
    = (Inl (HTTPException 404), sample_shard\<lparr>sh_app_cache := c\<rparr>)"
  by (rule auth_unknown_app)
    (simp_all add: cache_coherent_def coherent_entries_def sample_shard_def tbl_find_def)

section \<open>What the endpoint leaves alone\<close>

abbreviation apps_and_cache :: "'e shard \<Rightarrow> app_row list \<times> (string \<times> app_row option) list" where
  "apps_and_cache s \<equiv> (sh_apps s, sh_app_cache s)"

lemma coherent_if_kept: "moves (keeps apps_and_cache) m \<Longrightarrow> moves (preserves cache_coherent) m"
  using moves_preserves_keeps [of apps_and_cache m "\<lambda>(apps, cache). coherent_entries apps cache"]
  by (simp add: cache_coherent_def [abs_def] case_prod_beta)

lemma on_terminal_auth_keeps: "moves (keeps apps_and_cache) (on_terminal_auth X t)"
  unfolding on_terminal_auth_def update_terminal_last_connection_def record_request_def
  by (intro keeps_rules moves_keeps_now) simp_all

lemma get_auth_state_keeps: "moves (keeps apps_and_cache) (get_auth_state X rq tok)"
proof -
  have "moves (keeps apps_and_cache) (verify_terminal_jwt X tok)"
    by (rule verify_terminal_keeps) simp_all
  moreover have "moves (keeps apps_and_cache) (verify_peer_auth X rq)"
    unfolding verify_peer_auth_def get_peer_by_id_def by (auto intro!: keeps_rules split: option.split)
  ultimately show ?thesis
    unfolding get_auth_state_def
    by (auto intro!: keeps_rules on_terminal_auth_keeps split: exn.split)
qed

lemma get_identity_keeps: "moves (keeps apps_and_cache) (get_identity X)"
  unfolding get_identity_def identity_of_def by (auto intro!: keeps_rules split: option.split)

lemma size_keeps: "moves (keeps f) (size_is_compatible v)"
  by (simp add: moves_def keeps_def size_is_compatible_state)

lemma ensure_app_keeps: "moves (keeps apps_and_cache) (ensure_app_is_running X app)"
  unfolding ensure_app_is_running_def app_metadata_def
  by (auto intro!: keeps_rules moves_keeps_now size_keeps)

lemma coherent_map_present:
  "(\<And>k v. g k v \<noteq> None \<longleftrightarrow> v \<noteq> None) \<Longrightarrow> coherent_entries apps cache \<Longrightarrow>
     coherent_entries apps (map (\<lambda>(k, v). (k, g k v)) cache)"
  unfolding coherent_entries_def by (induction cache) auto

lemma present_update:
  "(\<And>r. ia_name (f r) = ia_name r) \<Longrightarrow>
     tbl_find ia_name k (map (\<lambda>r. if ia_name r = n then f r else r) apps) = None
       \<longleftrightarrow> tbl_find ia_name k apps = None"
  by (simp add: tbl_find_map)

lemma coherent_update:
  "(\<And>r. ia_name (f r) = ia_name r) \<Longrightarrow>
     coherent_entries (map (\<lambda>r. if ia_name r = n then f r else r) apps) cache = coherent_entries apps cache"
  unfolding coherent_entries_def by (simp only: present_update)

lemma update_last_access_coherent: "moves (preserves cache_coherent) (update_last_access X app)"
proof (rule movesI)
  fix s :: "'a shard"
  obtain t e where "x_time X (sh_env s) = (t, e)" by (cases "x_time X (sh_env s)") auto
  moreover have "coherent_entries (sh_apps s) cache \<Longrightarrow>
      coherent_entries (sh_apps s) (map (\<lambda>(k, v). (k, if k = n then map_option f v else v)) cache)" for cache n f
    by (rule coherent_map_present) auto
  ultimately show "preserves cache_coherent s (snd (update_last_access X app s))"
    by (auto simp: preserves_def cache_coherent_def update_last_access_def apps_update_last_access_def
        tbl_update_def Let_def act_simps coherent_update)
qed

lemma auth_coherent: "moves (preserves cache_coherent) (authenticate_and_authorize X rq tok host uri)"
proof -
  have "moves (preserves cache_coherent) (request_receiver X app k)" for app k
    unfolding request_receiver_def record_request_def
    by (intro preserves.moves_if coherent_if_kept [OF ensure_app_keeps] update_last_access_coherent
        coherent_if_kept [OF keeps.moves_ret] coherent_if_kept moves_keeps_modify) simp
  moreover have "moves (preserves cache_coherent) (match_app host)"
    unfolding match_app_def
    by (auto intro!: preserves.moves_rules find_app_coherent split: option.split)
  moreover have "moves (preserves cache_coherent) (match_path_act X uri app)" for app
    unfolding match_path_act_def app_metadata_def
    by (auto intro!: preserves.moves_rules split: option.split list.split)
  ultimately show ?thesis
    unfolding authenticate_and_authorize_def on_request_to_app_def
    by (auto intro!: preserves.moves_rules coherent_if_kept [OF get_auth_state_keeps]
        coherent_if_kept [OF get_identity_keeps] split: option.split)
qed

end
