(* ===== verification/Traefik.thy ===== *)
theory Traefik
  imports Identity
begin

text \<open>
  \<open>service/traefik_dynamic_config.py\<close>: the dynamic configuration of the reverse proxy, compiled from
  the routable apps, over the classes of \<open>data_model/traefik_dyn_config.py\<close> it instantiates.  The
  classes are generated from a schema with some hundred optional fields; the records here have the
  fields the compiler sets, and \<open>dump_model\<close> adds the non-null defaults of the others.
\<close>

section \<open>The configuration\<close>

record tls_domain =
  td_main :: string
  td_sans :: "string list"

record tls_config =
  tls_cert_resolver :: string
  tls_domains :: "tls_domain list"

record http_router =
  hr_entry_points :: "string list"
  hr_rule :: string
  hr_priority :: int
  hr_middlewares :: "string list option"
  hr_service :: string
  hr_tls :: "tls_config option"

datatype http_middleware =
    Strip_Prefix "string list"
  | Forward_Auth string "string list option" "string option"
  | Request_Headers "(string \<times> string) list"
  | Error_Page "string list" string string

record tcp_router =
  tr_entry_points :: "string list"
  tr_rule :: string
  tr_service :: string
  tr_tls :: "tls_config option"

text \<open>A load balancer is its list of servers: URLs for HTTP, addresses for TCP.\<close>

record http_config =
  h_routers :: "(string \<times> http_router) list"
  h_middlewares :: "(string \<times> http_middleware) list"
  h_services :: "(string \<times> string list) list"

record tcp_config =
  t_routers :: "(string \<times> tcp_router) list"
  t_services :: "(string \<times> string list) list"

text \<open>A deleted attribute is \<open>None\<close>; of \<open>tcp\<close>, \<open>None\<close> also means that both parts are deleted.\<close>

record traefik_model =
  m_http :: http_config
  m_tcp :: "((string \<times> tcp_router) list option \<times> (string \<times> string list) list option) option"

section \<open>The fixed part\<close>

definition make_http_cert_resolver :: "bool \<Rightarrow> safe_identity \<Rightarrow> tls_config option" where
  "make_http_cert_resolver no_ssl portal =
     (if no_ssl then None
      else Some \<lparr>tls_cert_resolver = ''letsencrypt'',
                 tls_domains = [\<lparr>td_main = si_domain portal, td_sans = [''*.'' @ si_domain portal]\<rparr>]\<rparr>)"

definition make_tcp_cert_resolver :: "bool \<Rightarrow> safe_identity \<Rightarrow> tls_config option" where
  "make_tcp_cert_resolver no_ssl portal =
     (if no_ssl then None
      else Some \<lparr>tls_cert_resolver = ''letsencrypt'',
                 tls_domains = [\<lparr>td_main = si_domain portal, td_sans = [''*.'' @ si_domain portal]\<rparr>]\<rparr>)"

definition http_entrypoint :: "bool \<Rightarrow> string" where
  "http_entrypoint no_ssl = (if no_ssl then ''http'' else ''https'')"

definition backquoted :: "string \<Rightarrow> string" where
  "backquoted s = CHR 0x60 # s @ [CHR 0x60]"

definition core_router ::
    "bool \<Rightarrow> safe_identity \<Rightarrow> string \<Rightarrow> string \<Rightarrow> string list option \<Rightarrow> int \<Rightarrow> http_router" where
  "core_router no_ssl portal rule service middlewares priority =
     \<lparr>hr_entry_points = [http_entrypoint no_ssl], hr_rule = rule, hr_priority = priority,
      hr_middlewares = middlewares, hr_service = service,
      hr_tls = make_http_cert_resolver no_ssl portal\<rparr>"

definition core_routers :: "bool \<Rightarrow> safe_identity \<Rightarrow> (string \<times> http_router) list" where
  "core_routers no_ssl portal =
     (let r = core_router no_ssl portal in
      [(''shard_core_public'', r (''PathPrefix('' @ backquoted ''/core/public'' @ '')'') ''shard_core''
          (Some [''strip'', ''auth-public'']) 0),
       (''shard_core_private'', r (''PathPrefix('' @ backquoted ''/core/protected'' @ '')'') ''shard_core''
          (Some [''strip'', ''auth-private'']) 0),
       (''shard_core_management'', r (''PathPrefix('' @ backquoted ''/core/management'' @ '')'') ''shard_core''
          (Some [''strip'', ''auth-management'']) 0),
       (''web-terminal'', r (''PathPrefix('' @ backquoted ''/'' @ '')'') ''web-terminal'' None 1),
       (''traefik'', r (''HostRegexp('' @ backquoted (''traefik.'' @ si_domain portal) @ '')'') ''api@internal''
          (Some [''auth-private'']) 0)])"

definition core_middlewares :: "(string \<times> http_middleware) list" where
  "core_middlewares =
     [(''strip'', Strip_Prefix [''/core/'']),
      (''auth-private'', Forward_Auth ''http://shard_core/internal/authenticate_terminal''
         (Some [''X-Ptl-Client-Type'', ''X-Ptl-Client-Id'', ''X-Ptl-Client-Name'']) None),
      (''auth-management'', Forward_Auth ''http://shard_core/internal/authenticate_management'' None None),
      (''auth-public'', Request_Headers
         [(''X-Ptl-Client-Type'', ''public''), (''X-Ptl-Client-Id'', []), (''X-Ptl-Client-Name'', [])]),
      (''auth'', Forward_Auth ''http://shard_core/internal/auth'' None (Some ''^X-Ptl-.*'')),
      (''app-error'', Error_Page [''500-599'', ''400-499''] ''shard_core'' ''/internal/app_error/{status}'')]"

definition core_services :: "(string \<times> string list) list" where
  "core_services =
     [(''shard_core'', [''http://shard_core:80/'']), (''web-terminal'', [''http://web-terminal:80/''])]"

definition add_http_section :: "bool \<Rightarrow> safe_identity \<Rightarrow> http_config" where
  "add_http_section no_ssl portal =
     \<lparr>h_routers = core_routers no_ssl portal, h_middlewares = core_middlewares, h_services = core_services\<rparr>"

definition add_tcp_section :: tcp_config where
  "add_tcp_section = \<lparr>t_routers = [], t_services = []\<rparr>"

section \<open>Apps\<close>

record app_info =
  inf_meta :: app_meta
  inf_app :: app_row

definition endpoint_name :: "app_row \<Rightarrow> entrypoint \<Rightarrow> string" where
  "endpoint_name app ep = ia_name app @ ''_'' @ port_value (entrypoint_port ep)"

definition app_host :: "app_row \<Rightarrow> safe_identity \<Rightarrow> string" where
  "app_host app portal = ia_name app @ ''.'' @ si_domain portal"

definition add_router ::
    "bool \<Rightarrow> entrypoint \<Rightarrow> app_row \<Rightarrow> safe_identity \<Rightarrow> http_config \<times> tcp_config \<Rightarrow> http_config \<times> tcp_config" where
  "add_router no_ssl ep app portal m =
     (case (m, entrypoint_port ep) of
        ((h, t), HTTPS_443) \<Rightarrow>
          (h\<lparr>h_routers := dict_set (h_routers h) (endpoint_name app ep)
              \<lparr>hr_entry_points = [http_entrypoint no_ssl],
               hr_rule = ''Host('' @ backquoted (app_host app portal) @ '')'', hr_priority = 0,
               hr_middlewares = Some [''app-error'', ''auth''], hr_service = endpoint_name app ep,
               hr_tls = make_http_cert_resolver no_ssl portal\<rparr>\<rparr>, t)
      | ((h, t), MQTTS_1883) \<Rightarrow>
          (h, t\<lparr>t_routers := dict_set (t_routers t) (endpoint_name app ep)
                 \<lparr>tr_entry_points = [''mqtt''],
                  tr_rule = ''HostSNI('' @ backquoted (app_host app portal) @ '')'',
                  tr_service = endpoint_name app ep,
                  tr_tls = make_tcp_cert_resolver no_ssl portal\<rparr>\<rparr>))"

definition add_service ::
    "entrypoint \<Rightarrow> app_row \<Rightarrow> http_config \<times> tcp_config \<Rightarrow> http_config \<times> tcp_config" where
  "add_service ep app m =
     (let address = container_name ep @ '':'' @ int_str (container_port ep) in
      case (m, entrypoint_port ep) of
        ((h, t), HTTPS_443) \<Rightarrow>
          (h\<lparr>h_services := dict_set (h_services h) (endpoint_name app ep) [''http://'' @ address]\<rparr>, t)
      | ((h, t), MQTTS_1883) \<Rightarrow>
          (h, t\<lparr>t_services := dict_set (t_services t) (endpoint_name app ep) [address]\<rparr>))"

definition add_endpoint ::
    "bool \<Rightarrow> safe_identity \<Rightarrow> app_row \<Rightarrow> entrypoint \<Rightarrow> http_config \<times> tcp_config \<Rightarrow> http_config \<times> tcp_config" where
  "add_endpoint no_ssl portal app ep m = add_service ep app (add_router no_ssl ep app portal m)"

definition add_app ::
    "bool \<Rightarrow> safe_identity \<Rightarrow> app_info \<Rightarrow> http_config \<times> tcp_config \<Rightarrow> http_config \<times> tcp_config" where
  "add_app no_ssl portal info m =
     fold (add_endpoint no_ssl portal (inf_app info)) (am_entrypoints (inf_meta info)) m"

text \<open>The proxy cannot read an empty \<open>tcp\<close>: empty parts are deleted, then \<open>tcp\<close> without parts.\<close>

definition if_any :: "'a list \<Rightarrow> 'a list option" where
  "if_any xs = (if xs = [] then None else Some xs)"

definition compile_config :: "bool \<Rightarrow> app_info list \<Rightarrow> safe_identity \<Rightarrow> traefik_model" where
  "compile_config no_ssl apps portal =
     (case fold (add_app no_ssl portal) apps (add_http_section no_ssl portal, add_tcp_section) of
        (h, t) \<Rightarrow>
          \<lparr>m_http = h,
           m_tcp = (if if_any (t_routers t) = None \<and> if_any (t_services t) = None then None
                    else Some (if_any (t_routers t), if_any (t_services t)))\<rparr>)"

section \<open>model_dump(exclude_none=True)\<close>

definition json_list :: "('a \<Rightarrow> json) \<Rightarrow> 'a list \<Rightarrow> json" where
  "json_list f xs = JArr (map f xs)"

definition json_dict :: "('a \<Rightarrow> json) \<Rightarrow> (string \<times> 'a) list \<Rightarrow> json" where
  "json_dict f d = JObj (map (\<lambda>(k, v). (k, f v)) d)"

definition opt_field :: "string \<Rightarrow> ('a \<Rightarrow> json) \<Rightarrow> 'a option \<Rightarrow> dict" where
  "opt_field k f v = (case v of None \<Rightarrow> [] | Some x \<Rightarrow> [(k, f x)])"

definition dump_tls :: "bool \<Rightarrow> tls_config \<Rightarrow> json" where
  "dump_tls tcp c = JObj
     ((if tcp then [(''passthrough'', JBool False)] else []) @
      [(''certResolver'', JStr (tls_cert_resolver c)),
       (''domains'', json_list (\<lambda>d. JObj [(''main'', JStr (td_main d)), (''sans'', json_list JStr (td_sans d))])
          (tls_domains c))])"

definition dump_http_router :: "http_router \<Rightarrow> json" where
  "dump_http_router r = JObj
     ([(''entryPoints'', json_list JStr (hr_entry_points r)), (''rule'', JStr (hr_rule r)),
       (''priority'', JInt (hr_priority r))] @
      opt_field ''middlewares'' (json_list JStr) (hr_middlewares r) @
      [(''service'', JStr (hr_service r))] @ opt_field ''tls'' (dump_tls False) (hr_tls r))"

fun dump_middleware :: "http_middleware \<Rightarrow> json" where
  "dump_middleware (Strip_Prefix ps) = JObj [(''stripPrefix'', JObj [(''prefixes'', json_list JStr ps)])]"
| "dump_middleware (Forward_Auth a hs re) =
     JObj [(''forwardAuth'', JObj ([(''address'', JStr a)] @
       opt_field ''authResponseHeaders'' (json_list JStr) hs @ opt_field ''authResponseHeadersRegex'' JStr re))]"
| "dump_middleware (Request_Headers hs) =
     JObj [(''headers'', JObj [(''customRequestHeaders'', json_dict JStr hs)])]"
| "dump_middleware (Error_Page st sv q) =
     JObj [(''errors'', JObj [(''status'', json_list JStr st), (''service'', JStr sv), (''query'', JStr q)])]"

definition dump_http_service :: "string list \<Rightarrow> json" where
  "dump_http_service urls =
     JObj [(''loadBalancer'', JObj [(''servers'', json_list (\<lambda>u. JObj [(''url'', JStr u)]) urls),
                                    (''passHostHeader'', JBool True)])]"

definition dump_tcp_router :: "tcp_router \<Rightarrow> json" where
  "dump_tcp_router r = JObj
     ([(''entryPoints'', json_list JStr (tr_entry_points r)), (''rule'', JStr (tr_rule r)),
       (''service'', JStr (tr_service r))] @ opt_field ''tls'' (dump_tls True) (tr_tls r))"

definition dump_tcp_service :: "string list \<Rightarrow> json" where
  "dump_tcp_service addresses =
     JObj [(''loadBalancer'', JObj [(''servers'', json_list (\<lambda>a. JObj [(''address'', JStr a)]) addresses),
                                    (''terminationDelay'', JFloat 100)])]"

definition dump_model :: "traefik_model \<Rightarrow> json" where
  "dump_model m = JObj
     ([(''http'', JObj [(''routers'', json_dict dump_http_router (h_routers (m_http m))),
                        (''services'', json_dict dump_http_service (h_services (m_http m))),
                        (''middlewares'', json_dict dump_middleware (h_middlewares (m_http m)))])] @
      opt_field ''tcp'' (\<lambda>(rs, ss). JObj (opt_field ''routers'' (json_dict dump_tcp_router) rs @
                                        opt_field ''services'' (json_dict dump_tcp_service) ss)) (m_tcp m))"

section \<open>Lemmas\<close>

definition app_http_router :: "bool \<Rightarrow> safe_identity \<Rightarrow> app_row \<Rightarrow> http_router" where
  "app_http_router no_ssl portal app =
     \<lparr>hr_entry_points = [http_entrypoint no_ssl],
      hr_rule = ''Host('' @ backquoted (app_host app portal) @ '')'', hr_priority = 0,
      hr_middlewares = Some [''app-error'', ''auth''], hr_service = ia_name app @ ''_http'',
      hr_tls = make_http_cert_resolver no_ssl portal\<rparr>"

definition endpoints :: "app_info list \<Rightarrow> (app_row \<times> entrypoint) list" where
  "endpoints apps = concat (map (\<lambda>i. map (Pair (inf_app i)) (am_entrypoints (inf_meta i))) apps)"

definition http_endpoints :: "app_info list \<Rightarrow> (app_row \<times> entrypoint) list" where
  "http_endpoints apps = filter (\<lambda>(a, ep). entrypoint_port ep = HTTPS_443) (endpoints apps)"

definition mqtt_endpoints :: "app_info list \<Rightarrow> (app_row \<times> entrypoint) list" where
  "mqtt_endpoints apps = filter (\<lambda>(a, ep). entrypoint_port ep = MQTTS_1883) (endpoints apps)"

definition app_tcp_router :: "bool \<Rightarrow> safe_identity \<Rightarrow> app_row \<Rightarrow> tcp_router" where
  "app_tcp_router no_ssl portal app =
     \<lparr>tr_entry_points = [''mqtt''], tr_rule = ''HostSNI('' @ backquoted (app_host app portal) @ '')'',
      tr_service = ia_name app @ ''_mqtt'', tr_tls = make_tcp_cert_resolver no_ssl portal\<rparr>"

definition address :: "entrypoint \<Rightarrow> string" where
  "address ep = container_name ep @ '':'' @ int_str (container_port ep)"

text \<open>The TCP part of a configuration; a part that was deleted has no entries.\<close>

definition tcp_routers :: "traefik_model \<Rightarrow> (string \<times> tcp_router) list" where
  "tcp_routers m = (case m_tcp m of Some (Some rs, _) \<Rightarrow> rs | _ \<Rightarrow> [])"

definition tcp_services :: "traefik_model \<Rightarrow> (string \<times> string list) list" where
  "tcp_services m = (case m_tcp m of Some (_, Some ss) \<Rightarrow> ss | _ \<Rightarrow> [])"

abbreviation add_all ::
    "bool \<Rightarrow> safe_identity \<Rightarrow> (app_row \<times> entrypoint) list \<Rightarrow> http_config \<times> tcp_config \<Rightarrow> http_config \<times> tcp_config" where
  "add_all no_ssl portal \<equiv> fold (\<lambda>(a, ep). add_endpoint no_ssl portal a ep)"

lemma add_apps_flat: "fold (add_app no_ssl portal) apps m = add_all no_ssl portal (endpoints apps) m"
  by (induction apps arbitrary: m) (simp_all add: endpoints_def add_app_def fold_map comp_def)

lemma compile_config_flat:
  "compile_config no_ssl apps portal =
     (case add_all no_ssl portal (endpoints apps) (add_http_section no_ssl portal, add_tcp_section) of
        (h, t) \<Rightarrow> \<lparr>m_http = h, m_tcp = (if if_any (t_routers t) = None \<and> if_any (t_services t) = None then None
                    else Some (if_any (t_routers t), if_any (t_services t)))\<rparr>)"
  by (simp add: compile_config_def add_apps_flat)

text \<open>One endpoint, and what the fold over all endpoints makes of each of the four tables\<close>

lemma add_endpoint_http:
  "entrypoint_port ep = HTTPS_443 \<Longrightarrow> add_endpoint no_ssl portal a ep (h, t) =
     (h\<lparr>h_routers := dict_set (h_routers h) (ia_name a @ ''_http'') (app_http_router no_ssl portal a),
        h_services := dict_set (h_services h) (ia_name a @ ''_http'') [''http://'' @ address ep]\<rparr>, t)"
  by (simp add: add_endpoint_def add_router_def add_service_def endpoint_name_def app_http_router_def address_def Let_def)

lemma add_endpoint_mqtt:
  "entrypoint_port ep = MQTTS_1883 \<Longrightarrow> add_endpoint no_ssl portal a ep (h, t) =
     (h, t\<lparr>t_routers := dict_set (t_routers t) (ia_name a @ ''_mqtt'') (app_tcp_router no_ssl portal a),
           t_services := dict_set (t_services t) (ia_name a @ ''_mqtt'') [address ep]\<rparr>)"
  by (simp add: add_endpoint_def add_router_def add_service_def endpoint_name_def app_tcp_router_def address_def Let_def)

definition set_all :: "('x \<Rightarrow> string) \<Rightarrow> ('x \<Rightarrow> 'v) \<Rightarrow> 'x list \<Rightarrow> (string \<times> 'v) list \<Rightarrow> (string \<times> 'v) list" where
  "set_all key val xs d = fold (\<lambda>x d. dict_set d (key x) (val x)) xs d"

lemma set_all_simps [simp]:
  "set_all key val [] d = d"
  "set_all key val (x # xs) d = set_all key val xs (dict_set d (key x) (val x))"
  by (simp_all add: set_all_def)

lemma map_of_set_all:
  "map_of (set_all key val xs d) k =
     (case find (\<lambda>x. key x = k) (rev xs) of Some x \<Rightarrow> Some (val x) | None \<Rightarrow> map_of d k)"
  by (induction xs arbitrary: d) (auto simp: map_of_dict_set find_append split: option.split)

lemma set_all_empty_iff: "set_all key val xs [] = [] \<longleftrightarrow> xs = []"
proof (cases xs)
  case (Cons x xs)
  have "map_of (set_all key val (x # xs) []) (key x) \<noteq> None"
    unfolding map_of_set_all by (auto simp: find_append split: option.split)
  then show ?thesis using Cons by auto
qed simp

lemma add_all_tables:
  "add_all no_ssl portal es (h, t) =
     (let hs = filter (\<lambda>(a, ep). entrypoint_port ep = HTTPS_443) es;
          ms = filter (\<lambda>(a, ep). entrypoint_port ep = MQTTS_1883) es in
      (h\<lparr>h_routers := set_all (\<lambda>(a, ep). ia_name a @ ''_http'') (\<lambda>(a, ep). app_http_router no_ssl portal a) hs (h_routers h),
         h_services := set_all (\<lambda>(a, ep). ia_name a @ ''_http'') (\<lambda>(a, ep). [''http://'' @ address ep]) hs (h_services h)\<rparr>,
       t\<lparr>t_routers := set_all (\<lambda>(a, ep). ia_name a @ ''_mqtt'') (\<lambda>(a, ep). app_tcp_router no_ssl portal a) ms (t_routers t),
         t_services := set_all (\<lambda>(a, ep). ia_name a @ ''_mqtt'') (\<lambda>(a, ep). [address ep]) ms (t_services t)\<rparr>))"
proof (induction es arbitrary: h t)
  case Nil
  show ?case by simp
next
  case (Cons x es)
  obtain a ep where x: "x = (a, ep)" by (cases x) auto
  show ?case
    by (cases "entrypoint_port ep") (simp_all add: x add_endpoint_http add_endpoint_mqtt Cons.IH Let_def)
qed

lemma compile_config_tables:
  "h_routers (m_http (compile_config no_ssl apps portal)) =
     set_all (\<lambda>(a, ep). ia_name a @ ''_http'') (\<lambda>(a, ep). app_http_router no_ssl portal a)
       (http_endpoints apps) (core_routers no_ssl portal)"
  "h_services (m_http (compile_config no_ssl apps portal)) =
     set_all (\<lambda>(a, ep). ia_name a @ ''_http'') (\<lambda>(a, ep). [''http://'' @ address ep]) (http_endpoints apps) core_services"
  "h_middlewares (m_http (compile_config no_ssl apps portal)) = core_middlewares"
  "tcp_routers (compile_config no_ssl apps portal) =
     set_all (\<lambda>(a, ep). ia_name a @ ''_mqtt'') (\<lambda>(a, ep). app_tcp_router no_ssl portal a) (mqtt_endpoints apps) []"
  "tcp_services (compile_config no_ssl apps portal) =
     set_all (\<lambda>(a, ep). ia_name a @ ''_mqtt'') (\<lambda>(a, ep). [address ep]) (mqtt_endpoints apps) []"
  "m_tcp (compile_config no_ssl apps portal) = None \<longleftrightarrow> mqtt_endpoints apps = []"
  by (auto simp: compile_config_flat add_all_tables Let_def http_endpoints_def mqtt_endpoints_def tcp_routers_def
      tcp_services_def add_http_section_def add_tcp_section_def if_any_def set_all_empty_iff)

lemma not_core_name: "ia_name a @ ''_http'' \<notin> fst ` set (core_routers no_ssl portal)"
proof
  assume "ia_name a @ ''_http'' \<in> fst ` set (core_routers no_ssl portal)"
  then have "rev (ia_name a @ ''_http'') \<in> rev ` fst ` set (core_routers no_ssl portal)" by blast
  then show False by (simp add: core_routers_def Let_def)
qed

definition middlewares_of :: "http_router \<Rightarrow> string list" where
  "middlewares_of r = (case hr_middlewares r of None \<Rightarrow> [] | Some ms \<Rightarrow> ms)"

lemma core_router_parts:
  "map (\<lambda>(k, r). (k, hr_service r, middlewares_of r)) (core_routers no_ssl portal) =
     [(''shard_core_public'', ''shard_core'', [''strip'', ''auth-public'']),
      (''shard_core_private'', ''shard_core'', [''strip'', ''auth-private'']),
      (''shard_core_management'', ''shard_core'', [''strip'', ''auth-management'']),
      (''web-terminal'', ''web-terminal'', []),
      (''traefik'', ''api@internal'', [''auth-private''])]"
  by (simp add: core_routers_def core_router_def middlewares_of_def Let_def)

definition closed_entry :: "string \<times> string \<times> string list \<Rightarrow> bool" where
  "closed_entry x \<longleftrightarrow>
     (case x of (k, service, ms) \<Rightarrow>
        (service = ''api@internal'' \<or> map_of core_services service \<noteq> None)
        \<and> list_all (\<lambda>m. map_of core_middlewares m \<noteq> None) ms
        \<and> (k \<in> {''shard_core_public'', ''web-terminal''}
           \<or> list_ex (\<lambda>m. m \<in> {''auth'', ''auth-private'', ''auth-management''}) ms))"

lemma core_routers_closed:
  "list_all closed_entry (map (\<lambda>(k, r). (k, hr_service r, middlewares_of r)) (core_routers no_ssl portal))"
  unfolding core_router_parts by code_simp

section \<open>Properties\<close>

text \<open>
  C14. The whole routing table of the proxy, entry by entry.  HTTP: the routers of the core are present as
  given, each app with an HTTP endpoint has its router, which asks the core's \<open>auth\<close> before it forwards, and
  there is no other; its service is the container and port of the (last) such endpoint.  No app name can
  take over a router of the core.  TCP: each app with an MQTT endpoint has its router, by the name in the
  TLS handshake, to the container and port of the (last) such endpoint, there is no other, and without
  such endpoints there is no TCP section at all.  A TCP router has no middleware: the proxy does not
  authenticate MQTT connections.
\<close>

theorem compile_config_routers:
  shows "map_of (h_routers (m_http (compile_config no_ssl apps portal))) k =
      (case find (\<lambda>(a, ep). ia_name a @ ''_http'' = k) (rev (http_endpoints apps)) of
         Some (a, _) \<Rightarrow> Some (app_http_router no_ssl portal a)
       | None \<Rightarrow> map_of (core_routers no_ssl portal) k)
    \<and> map_of (h_services (m_http (compile_config no_ssl apps portal))) k =
      (case find (\<lambda>(a, ep). ia_name a @ ''_http'' = k) (rev (http_endpoints apps)) of
         Some (_, ep) \<Rightarrow> Some [''http://'' @ address ep]
       | None \<Rightarrow> map_of core_services k)
    \<and> (k \<in> fst ` set (core_routers no_ssl portal) \<longrightarrow>
         map_of (h_routers (m_http (compile_config no_ssl apps portal))) k = map_of (core_routers no_ssl portal) k)
    \<and> map_of (tcp_routers (compile_config no_ssl apps portal)) k =
      (case find (\<lambda>(a, ep). ia_name a @ ''_mqtt'' = k) (rev (mqtt_endpoints apps)) of
         Some (a, _) \<Rightarrow> Some (app_tcp_router no_ssl portal a) | None \<Rightarrow> None)
    \<and> map_of (tcp_services (compile_config no_ssl apps portal)) k =
      (case find (\<lambda>(a, ep). ia_name a @ ''_mqtt'' = k) (rev (mqtt_endpoints apps)) of
         Some (_, ep) \<Rightarrow> Some [address ep] | None \<Rightarrow> None)
    \<and> (m_tcp (compile_config no_ssl apps portal) = None \<longleftrightarrow> mqtt_endpoints apps = [])"
proof -
  have pairs: "(case x of (a, ep) \<Rightarrow> f a) = k \<longleftrightarrow> (case x of (a, ep) \<Rightarrow> f a = k)"
    for x :: "app_row \<times> entrypoint" and f :: "app_row \<Rightarrow> string"
    by (cases x) simp
  have "find (\<lambda>(a, ep). ia_name a @ ''_http'' = k) (rev (http_endpoints apps)) = None"
    if "k \<in> fst ` set (core_routers no_ssl portal)"
    using that not_core_name [of _ no_ssl portal] unfolding find_None_iff by auto
  then show ?thesis
    unfolding compile_config_tables map_of_set_all pairs by (auto split: option.split)
qed

definition sample_info :: app_info where
  "sample_info = \<lparr>inf_meta = sample_meta\<lparr>am_entrypoints :=
       [\<lparr>container_name = ''a'', container_port = 80, entrypoint_port = HTTPS_443\<rparr>,
        \<lparr>container_name = ''b'', container_port = 1883, entrypoint_port = MQTTS_1883\<rparr>]\<rparr>,
     inf_app = \<lparr>ia_name = ''a'', ia_reason = Reason_STORE, ia_status = RUNNING, ia_last_access = None\<rparr>\<rparr>"

definition sample_portal :: safe_identity where
  "sample_portal = \<lparr>si_domain = ''d.z'', si_id = ''d'', si_public_key_pem = []\<rparr>"

lemma compile_config_routers_witness:
  "\<exists>r. map_of (h_routers (m_http (compile_config False [sample_info] sample_portal))) ''a_http'' = Some r
     \<and> hr_middlewares r = Some [''app-error'', ''auth'']
     \<and> map_of (tcp_services (compile_config False [sample_info] sample_portal)) ''a_mqtt'' = Some [''b:1883'']
     \<and> map_of (h_routers (m_http (compile_config False [sample_info] sample_portal))) ''shard_core_private''
        = map_of (core_routers False sample_portal) ''shard_core_private''"
proof -
  have eps: "http_endpoints [sample_info] =
      [(inf_app sample_info, \<lparr>container_name = ''a'', container_port = 80, entrypoint_port = HTTPS_443\<rparr>)]"
    "mqtt_endpoints [sample_info] =
      [(inf_app sample_info, \<lparr>container_name = ''b'', container_port = 1883, entrypoint_port = MQTTS_1883\<rparr>)]"
    "ia_name (inf_app sample_info) = ''a''"
    by (simp_all add: http_endpoints_def mqtt_endpoints_def endpoints_def sample_info_def)
  have "address \<lparr>container_name = ''b'', container_port = 1883, entrypoint_port = MQTTS_1883\<rparr> = ''b:1883''"
    by code_simp
  then show ?thesis
    using compile_config_routers [of False "[sample_info]" sample_portal "''a_http''"]
      compile_config_routers [of False "[sample_info]" sample_portal "''a_mqtt''"]
      compile_config_routers [of False "[sample_info]" sample_portal "''shard_core_private''"]
    by (simp add: eps app_http_router_def core_routers_def Let_def)
qed

lemma map_of_set_allE:
  assumes "map_of (set_all key val xs d) k = Some v"
  obtains (entry) x where "x \<in> set xs" "key x = k" "v = val x" | (old) "map_of d k = Some v"
  using assms unfolding map_of_set_all by (auto dest: find_SomeD split: option.splits)

lemma map_of_set_all_defined:
  "x \<in> set xs \<Longrightarrow> map_of (set_all key val xs d) (key x) \<noteq> None"
  "map_of d k \<noteq> None \<Longrightarrow> map_of (set_all key val xs d) k \<noteq> None"
  unfolding map_of_set_all by (auto simp: find_None_iff split: option.split)

text \<open>
  C15. Nothing dangles: every HTTP router of the compiled configuration names a service that is defined, or
  the proxy's own, and only middlewares that are defined; every TCP router names a TCP service that is
  defined.  Of the HTTP routers, only the public core routes and the web terminal do without one of the
  three authenticating middlewares.  The TCP routers are those of the MQTT endpoints of apps, and for them
  the proxy authenticates nobody, since TCP routers have no middlewares.
\<close>

theorem compile_config_closed:
  shows "(\<forall>k r. map_of (h_routers (m_http (compile_config no_ssl apps portal))) k = Some r \<longrightarrow>
      (hr_service r = ''api@internal''
        \<or> map_of (h_services (m_http (compile_config no_ssl apps portal))) (hr_service r) \<noteq> None)
      \<and> list_all (\<lambda>m. map_of (h_middlewares (m_http (compile_config no_ssl apps portal))) m \<noteq> None)
          (middlewares_of r)
      \<and> (k \<in> {''shard_core_public'', ''web-terminal''}
         \<or> list_ex (\<lambda>m. m \<in> {''auth'', ''auth-private'', ''auth-management''}) (middlewares_of r)))
    \<and> (\<forall>k r. map_of (tcp_routers (compile_config no_ssl apps portal)) k = Some r \<longrightarrow>
      map_of (tcp_services (compile_config no_ssl apps portal)) (tr_service r) \<noteq> None
      \<and> (\<exists>(a, ep) \<in> set (mqtt_endpoints apps). k = ia_name a @ ''_mqtt'' \<and> r = app_tcp_router no_ssl portal a))"
proof (intro conjI allI impI)
  fix k r
  let ?h = "m_http (compile_config no_ssl apps portal)"
  assume "map_of (h_routers ?h) k = Some r"
  then have "map_of (set_all (\<lambda>(a, ep). ia_name a @ ''_http'') (\<lambda>(a, ep). app_http_router no_ssl portal a)
       (http_endpoints apps) (core_routers no_ssl portal)) k = Some r"
    unfolding compile_config_tables .
  then have "(hr_service r = ''api@internal'' \<or> map_of (h_services ?h) (hr_service r) \<noteq> None)
      \<and> list_all (\<lambda>m. map_of (h_middlewares ?h) m \<noteq> None) (middlewares_of r)
      \<and> (k \<in> {''shard_core_public'', ''web-terminal''}
         \<or> list_ex (\<lambda>m. m \<in> {''auth'', ''auth-private'', ''auth-management''}) (middlewares_of r))"
  proof (cases rule: map_of_set_allE)
    case (entry x)
    obtain a ep where x: "x = (a, ep)" by (cases x) auto
    then have "r = app_http_router no_ssl portal a" using entry(3) by simp
    with x show ?thesis
      using map_of_set_all_defined(1) [OF entry(1), of "\<lambda>(a, ep). ia_name a @ ''_http''"
          "\<lambda>(a, ep). [''http://'' @ address ep]" core_services]
      by (simp add: compile_config_tables app_http_router_def core_middlewares_def middlewares_of_def)
  next
    case old
    then have "(k, r) \<in> set (core_routers no_ssl portal)" by (rule map_of_SomeD)
    then have "closed_entry (k, hr_service r, middlewares_of r)"
      using core_routers_closed [of no_ssl portal] by (force simp: list_all_iff)
    moreover have "map_of core_services (hr_service r) \<noteq> None \<Longrightarrow>
        map_of (h_services ?h) (hr_service r) \<noteq> None"
      unfolding compile_config_tables by (rule map_of_set_all_defined(2))
    ultimately show ?thesis
      by (auto simp: closed_entry_def compile_config_tables(3))
  qed
  then show "hr_service r = ''api@internal'' \<or> map_of (h_services ?h) (hr_service r) \<noteq> None"
    and "list_all (\<lambda>m. map_of (h_middlewares ?h) m \<noteq> None) (middlewares_of r)"
    and "k \<in> {''shard_core_public'', ''web-terminal''}
      \<or> list_ex (\<lambda>m. m \<in> {''auth'', ''auth-private'', ''auth-management''}) (middlewares_of r)"
    by simp_all
next
  fix k r
  let ?m = "compile_config no_ssl apps portal"
  assume "map_of (tcp_routers ?m) k = Some r"
  then obtain a ep where x: "(a, ep) \<in> set (mqtt_endpoints apps)" "k = ia_name a @ ''_mqtt''"
      "r = app_tcp_router no_ssl portal a"
    unfolding compile_config_tables by (cases rule: map_of_set_allE) auto
  then show "map_of (tcp_services ?m) (tr_service r) \<noteq> None"
    using map_of_set_all_defined(1) [OF x(1), of "\<lambda>(a, ep). ia_name a @ ''_mqtt''" "\<lambda>(a, ep). [address ep]" "[]"]
    unfolding compile_config_tables by (simp add: app_tcp_router_def)
  show "\<exists>(a, ep) \<in> set (mqtt_endpoints apps). k = ia_name a @ ''_mqtt'' \<and> r = app_tcp_router no_ssl portal a"
    using x by blast
qed

lemma compile_config_closed_witness:
  "map_of (h_services (m_http (compile_config False [sample_info] sample_portal))) ''a_http'' \<noteq> None
   \<and> map_of (tcp_services (compile_config False [sample_info] sample_portal)) ''a_mqtt'' \<noteq> None"
proof -
  have "map_of (h_routers (m_http (compile_config False [sample_info] sample_portal))) ''a_http''
      = Some (app_http_router False sample_portal (inf_app sample_info))"
    and "map_of (tcp_routers (compile_config False [sample_info] sample_portal)) ''a_mqtt''
      = Some (app_tcp_router False sample_portal (inf_app sample_info))"
    unfolding compile_config_tables
    by (simp_all add: http_endpoints_def mqtt_endpoints_def endpoints_def map_of_dict_set sample_info_def)
  from compile_config_closed [THEN conjunct1, rule_format, OF this(1)]
    compile_config_closed [THEN conjunct2, rule_format, OF this(2)]
  show ?thesis
    by (simp add: app_http_router_def app_tcp_router_def sample_info_def)
qed

end
