(* ===== verification/Install_Util.thy ===== *)
theory Install_Util
  imports Auth Traefik
begin

text \<open>
  \<open>service/app_installation/util.py\<close>: the status column with its announcement, the store, the
  rendering of compose files and the writing of the proxy configuration.
\<close>

definition NOT_ROUTABLE_STATUS :: "app_status list" where
  "NOT_ROUTABLE_STATUS = [INSTALLATION_QUEUED, ERROR, UNINSTALLATION_QUEUED, UNINSTALLING]"

definition get_app_from_db :: "string \<Rightarrow> ('e shard, app_row) act" where
  "get_app_from_db n =
     bnd (db_apps (apps_get_by_name n)) (\<lambda>r.
       case r of Some a \<Rightarrow> ret a | None \<Rightarrow> raise (KeyError n))"

definition app_exists_in_db :: "string \<Rightarrow> ('e shard, bool) act" where
  "app_exists_in_db n = db_apps (apps_contains n)"

definition assert_app_status :: "app_row \<Rightarrow> app_status list \<Rightarrow> ('e shard, unit) act" where
  "assert_app_status a statuses =
     (if ia_status a \<notin> set statuses then raise (AppInIllegalStatus (ia_name a)) else ret ())"

definition update_app_status :: "'e ext \<Rightarrow> string \<Rightarrow> app_status \<Rightarrow> ('e shard, unit) act" where
  "update_app_status X n st =
     bnd (db_apps (apps_update_status n st)) (\<lambda>r.
       case r of None \<Rightarrow> raise (KeyError n) | Some _ \<Rightarrow> on_apps_update X)"

definition store_zip_url :: "'e ext \<Rightarrow> string \<Rightarrow> string" where
  "store_zip_url X n =
     app_store_base_url (cfg X) @ ''/'' @ app_store_container (cfg X) @ ''/master/all_apps/'' @ n @ ''/'' @ n @ ''.zip''"

definition app_exists_in_store :: "'e ext \<Rightarrow> string \<Rightarrow> ('e shard, bool) act" where
  "app_exists_in_store X n =
     bnd (world_res (x_httpx_get X (store_zip_url X n))) (\<lambda>r. ret (status_code r = 200))"

text \<open>The default identity as the templates see it.\<close>

definition default_portal :: "'e ext \<Rightarrow> ('e shard, safe_identity) act" where
  "default_portal X =
     bnd (db_identities identities_get_default) (\<lambda>row.
     bnd (identity_of X row) (\<lambda>i.
     lift_res (safe_of_identity X i)))"

definition compose_paths :: "'e ext \<Rightarrow> string \<Rightarrow> (string \<times> string) list" where
  "compose_paths X n =
     (let h = path_root_host (cfg X) in
      [(''app_data'', h @ ''/user_data/app_data/'' @ n),
       (''all_app_data'', h @ ''/user_data/app_data''),
       (''shared'', h @ ''/user_data/shared''),
       (''installation_dir'', h @ ''/core/installed_apps/'' @ n)])"

definition render_docker_compose_template :: "'e ext \<Rightarrow> string \<Rightarrow> ('e shard, unit) act" where
  "render_docker_compose_template X n =
     bnd (default_portal X) (\<lambda>portal.
     bnd (gets sh_fs) (\<lambda>fs.
     bnd (lift_res (fs_read fs (app_dir X n @ [''docker-compose.yml.template'']))) (\<lambda>template.
     bnd (lift_res (x_render X template [(''fs'', compose_paths X n), (''portal'', identity_attributes portal)])) (\<lambda>out.
     on_fs (fs_write (app_dir X n @ [''docker-compose.yml'']) out)))))"

definition render_all_docker_compose_templates :: "'e ext \<Rightarrow> ('e shard, unit) act" where
  "render_all_docker_compose_templates X =
     bnd (db_apps apps_get_all) (\<lambda>all_apps.
     for_each (\<lambda>a.
       bnd (gets sh_fs) (\<lambda>fs.
         if fs_exists fs (app_dir X (ia_name a) @ [''docker-compose.yml.template''])
         then render_docker_compose_template X (ia_name a) else ret ()))
       all_apps)"

text \<open>Apps whose metadata cannot be loaded are skipped, whatever the reason.\<close>

definition app_infos :: "'e ext \<Rightarrow> fs \<Rightarrow> app_row list \<Rightarrow> app_info list" where
  "app_infos X fs apps =
     concat (map (\<lambda>a. case get_app_metadata X fs (ia_name a) of
                        Inl _ \<Rightarrow> [] | Inr m \<Rightarrow> [\<lparr>inf_meta = m, inf_app = a\<rparr>]) apps)"

definition traefik_dyn_path :: "'e ext \<Rightarrow> path" where
  "traefik_dyn_path X = path_root (cfg X) @ [''core'', ''traefik_dyn'', ''traefik_dyn.yml'']"

definition write_to_yaml :: "'e ext \<Rightarrow> json \<Rightarrow> path \<Rightarrow> ('e shard, unit) act" where
  "write_to_yaml X spec p =
     seq (on_fs (fs_mkdirs (parent p)))
     (on_fs (fs_write p (''# == DO NOT MODIFY =='' @ [CHR 0x0A] @ ''# this file is auto-generated'' @
        [CHR 0x0A, CHR 0x0A] @ x_yaml_dump X spec)))"

definition write_traefik_dyn_config :: "'e ext \<Rightarrow> ('e shard, unit) act" where
  "write_traefik_dyn_config X =
     bnd (db_apps apps_get_all) (\<lambda>all_apps.
     bnd (gets sh_fs) (\<lambda>fs.
     let infos = app_infos X fs (filter (\<lambda>a. ia_status a \<notin> set NOT_ROUTABLE_STATUS) all_apps) in
     bnd (default_portal X) (\<lambda>portal.
     write_to_yaml X (dump_model (compile_config (disable_ssl (cfg X)) infos portal)) (traefik_dyn_path X))))"

section \<open>Lemmas\<close>

lemma get_app_from_db_apply [act_simps]:
  "get_app_from_db n s =
     (case tbl_find ia_name n (sh_apps s) of Some a \<Rightarrow> (Inr a, s) | None \<Rightarrow> (Inl (KeyError n), s))"
  by (simp add: get_app_from_db_def apps_get_by_name_def act_simps split: option.split)

lemma app_exists_in_db_apply [act_simps]:
  "app_exists_in_db n s = (Inr (tbl_find ia_name n (sh_apps s) \<noteq> None), s)"
  by (simp add: app_exists_in_db_def apps_contains_def act_simps)

lemma update_app_status_apply:
  "update_app_status X n st s =
     (if tbl_find ia_name n (sh_apps s) = None then (Inl (KeyError n), s)
      else on_apps_update X (s\<lparr>sh_apps := set_st n st (sh_apps s)\<rparr>))"
proof -
  have "set_st n st (sh_apps s) = sh_apps s" if "tbl_find ia_name n (sh_apps s) = None"
    using that unfolding set_st_def tbl_find_def find_None_all by (intro map_idI) auto
  then show ?thesis
    by (auto simp: update_app_status_def apps_update_status_def tbl_update_def Let_def act_simps set_st_def
        split: option.split)
qed

lemma default_portal_state [simp]: "snd (default_portal X s) = s"
  by (simp add: default_portal_def identity_of_def identities_get_default_def act_simps
      split: option.split sum.split)

lemma moves_keeps_portal: "moves (keeps f) (default_portal X)"
  by (simp add: moves_def keeps_def)

lemma moves_keeps_get_all: "moves (keeps f) (db_apps apps_get_all)"
  by (simp add: moves_def keeps_def apps_get_all_def act_simps)

lemma moves_keeps_on_fs: "(\<And>x s. f (sh_fs_update x s) = f s) \<Longrightarrow> moves (keeps f) (on_fs m)"
  by (rule moves_keeps_zoom)

lemma render_keeps: "(\<And>x s. f (sh_fs_update x s) = f s) \<Longrightarrow> moves (keeps f) (render_docker_compose_template X n)"
  unfolding render_docker_compose_template_def
  by (intro keeps.moves_rules moves_keeps_portal moves_keeps_on_fs) auto

lemma traefik_keeps: "(\<And>x s. f (sh_fs_update x s) = f s) \<Longrightarrow> moves (keeps f) (write_traefik_dyn_config X)"
  unfolding write_traefik_dyn_config_def write_to_yaml_def
  by (intro keeps.moves_rules moves_keeps_portal moves_keeps_get_all moves_keeps_on_fs) auto

end
