(* ===== verification/Worker.thy ===== *)
theory Worker
  imports Install_Util
begin

text \<open>
  \<open>service/app_installation/worker.py\<close>: the queue of installation tasks and the worker that takes them
  one by one.  \<open>run_worker_step\<close> is one round of the endless loop of \<open>_run\<close>, when the queue is not empty.
\<close>

definition enqueue :: "install_task \<Rightarrow> ('e shard, unit) act" where
  "enqueue t = modify (\<lambda>s. s\<lparr>sh_tasks := sh_tasks s @ [t]\<rparr>)"

definition app_zip_path :: "'e ext \<Rightarrow> string \<Rightarrow> path" where
  "app_zip_path X n = path_join (app_dir X n) (n @ ''.zip'')"

definition download_app_zip :: "'e ext \<Rightarrow> string \<Rightarrow> ('e shard, path) act" where
  "download_app_zip X n =
     bnd (world_res (x_httpx_get X (store_zip_url X n))) (\<lambda>response.
       if status_code response \<noteq> 200 then raise (AppDoesNotExist (store_zip_url X n))
       else
         (let zip_file = app_zip_path X n in
          seq (on_fs (fs_mkdirs (parent zip_file)))
          (seq (on_fs (fs_write zip_file (body_text response)))
          (ret zip_file))))"

definition install_app_from_zip :: "'e ext \<Rightarrow> string \<Rightarrow> path \<Rightarrow> ('e shard, unit) act" where
  "install_app_from_zip X n zip_file =
     bnd (gets sh_fs) (\<lambda>fs.
     bnd (lift_res (fs_read fs zip_file)) (\<lambda>content.
     seq (on_fs (extract_app_zip (x_open_zip X content) (parent zip_file)))
     (seq (on_apps_update X)
     (seq (on_fs (fs_unlink zip_file))
     (seq (render_docker_compose_template X n)
     (seq (docker_create_app_containers X n)
     (write_traefik_dyn_config X)))))))"

text \<open>The common end of an installation: the archive, then the final status, or the error.\<close>

definition install_or_error :: "'e ext \<Rightarrow> string \<Rightarrow> ('e shard, path) act \<Rightarrow> ('e shard, unit) act" where
  "install_or_error X n fetch =
     try_except
       (bnd fetch (\<lambda>zip_file.
        seq (install_app_from_zip X n zip_file)
        (update_app_status X n STOPPED)))
       (\<lambda>e. seq (update_app_status X n ERROR) (on_app_install_error e n))"

definition worker_install_from_store :: "'e ext \<Rightarrow> string \<Rightarrow> ('e shard, unit) act" where
  "worker_install_from_store X n =
     bnd (get_app_from_db n) (\<lambda>a.
     seq (assert_app_status a [INSTALLATION_QUEUED])
     (seq (update_app_status X n INSTALLING)
     (install_or_error X n (download_app_zip X n))))"

definition worker_install_from_existing_zip :: "'e ext \<Rightarrow> string \<Rightarrow> ('e shard, unit) act" where
  "worker_install_from_existing_zip X n =
     bnd (get_app_from_db n) (\<lambda>a.
     seq (assert_app_status a [INSTALLATION_QUEUED])
     (seq (update_app_status X n INSTALLING)
     (install_or_error X n (ret (app_zip_path X n)))))"

definition uninstall_mark :: "'e ext \<Rightarrow> string \<Rightarrow> ('e shard, unit) act" where
  "uninstall_mark X n =
     try_except
       (bnd (get_app_from_db n) (\<lambda>a.
        seq (if ia_status a = PAUSED then docker_unpause_app X n else ret ())
        (update_app_status X n UNINSTALLING)))
       (\<lambda>e. case e of KeyError _ \<Rightarrow> ret () | _ \<Rightarrow> raise e)"

text \<open>
  \<open>shutil.rmtree(..., ignore_errors=True)\<close>: \<open>x_rmtree_left\<close> is what the operating system refuses to
  delete at that moment, for which nothing is raised.
\<close>

definition delete_app_dir :: "'e ext \<Rightarrow> string \<Rightarrow> ('e shard, unit) act" where
  "delete_app_dir X n =
     bnd (gets (\<lambda>s. x_rmtree_left X (app_dir X n) (sh_env s))) (\<lambda>left.
     on_fs (modify (fs_rmtree_leaving left (app_dir X n))))"

definition worker_uninstall :: "'e ext \<Rightarrow> string \<Rightarrow> ('e shard, unit) act" where
  "worker_uninstall X n =
     with_lock n
       (seq (uninstall_mark X n)
       (seq (try_except (seq (docker_stop_app X n True) (docker_shutdown_app X n True False)) (\<lambda>_. ret ()))
       (seq (delete_app_dir X n)
       (seq (db_apps (apps_remove n))
       (seq (write_traefik_dyn_config X)
       (on_apps_update X))))))"

definition reinstall_shutdown :: "'e ext \<Rightarrow> string \<Rightarrow> ('e shard, unit) act" where
  "reinstall_shutdown X n =
     try_except (seq (docker_stop_app X n False) (docker_shutdown_app X n False False)) (\<lambda>_. ret ())"

definition worker_reinstall :: "'e ext \<Rightarrow> string \<Rightarrow> ('e shard, unit) act" where
  "worker_reinstall X n =
     bnd (get_app_from_db n) (\<lambda>a.
     seq (assert_app_status a [REINSTALLATION_QUEUED])
     (seq (update_app_status X n REINSTALLING)
     (seq (reinstall_shutdown X n)
     (seq (delete_app_dir X n)
     (install_or_error X n (download_app_zip X n))))))"

fun run_task :: "'e ext \<Rightarrow> task_type \<Rightarrow> string \<Rightarrow> ('e shard, unit) act" where
  "run_task X Install_From_Store n = worker_install_from_store X n"
| "run_task X Install_From_Zip n = worker_install_from_existing_zip X n"
| "run_task X Uninstall n = worker_uninstall X n"
| "run_task X Reinstall n = worker_reinstall X n"

definition run_worker_step :: "'e ext \<Rightarrow> ('e shard, unit) act" where
  "run_worker_step X =
     bnd (gets sh_tasks) (\<lambda>tasks.
       case tasks of
         [] \<Rightarrow> ret ()
       | t # ts \<Rightarrow>
           seq (modify (\<lambda>s. s\<lparr>sh_tasks := ts, sh_current_task := Some t\<rparr>))
           (seq (try_except (run_task X (it_task_type t) (it_app_name t)) (\<lambda>_. ret ()))
           (modify (\<lambda>s. s\<lparr>sh_current_task := None\<rparr>))))"

definition worker_start :: "('e shard, unit) act" where
  "worker_start = modify (\<lambda>s. s\<lparr>sh_worker_started := True\<rparr>)"

definition worker_stop :: "('e shard, unit) act" where
  "worker_stop = modify (\<lambda>s. s\<lparr>sh_worker_started := False\<rparr>)"

section \<open>Rows of other apps\<close>

definition others_of :: "string \<Rightarrow> app_row list \<Rightarrow> string \<Rightarrow> app_row option" where
  "others_of n apps m = (if m = n then None else tbl_find ia_name m apps)"

definition others :: "string \<Rightarrow> 'e shard \<Rightarrow> string \<Rightarrow> app_row option" where
  "others n s = others_of n (sh_apps s)"

lemma others_of_set_st [simp]: "others_of n (set_st n st apps) = others_of n apps"
  by (rule ext) (simp add: others_of_def find_set_st)

lemma others_of_remove [simp]: "others_of n (filter (\<lambda>r. ia_name r \<noteq> n) apps) = others_of n apps"
  by (rule ext) (simp add: others_of_def tbl_find_filter)

lemma others_if_rows: "moves (keeps sh_apps) m \<Longrightarrow> moves (keeps (others n)) m"
  by (simp add: moves_def keeps_def others_def)

lemma others_scoped: "moves (scoped X n st) m \<Longrightarrow> moves (keeps (others n)) m"
proof -
  assume m: "moves (scoped X n st) m"
  have "others n (snd (m s)) = others n s" for s
  proof -
    have "sh_apps (snd (m s)) = sh_apps s \<or> sh_apps (snd (m s)) = set_st n st (sh_apps s)"
      using m by (simp add: moves_def scoped_def)
    then show ?thesis by (elim disjE) (simp_all add: others_def)
  qed
  then show ?thesis by (simp add: moves_def keeps_def)
qed

lemma run_compose_keeps:
  assumes "\<And>x s. f (s\<lparr>sh_ran := x\<rparr>) = f s" and "\<And>e s. f (s\<lparr>sh_env := e\<rparr>) = f s"
  shows "moves (keeps f) (run_compose X n args)"
  unfolding run_compose_def compose_def using assms by (intro keeps_rules moves_keeps_subprocess) auto

lemma install_app_from_zip_rows: "moves (keeps sh_apps) (install_app_from_zip X n z)"
  unfolding install_app_from_zip_def docker_create_app_containers_def
  by (intro keeps.moves_rules moves_keeps_on_fs moves_keeps_on_apps_update render_keeps traefik_keeps
      run_compose_keeps) auto

lemma download_rows: "moves (keeps sh_apps) (download_app_zip X n)"
  unfolding download_app_zip_def Let_def
  by (intro keeps.moves_rules moves_keeps_on_fs moves_keeps_world_res) auto

lemma update_app_status_rows:
  assumes "tbl_find ia_name n (sh_apps s) \<noteq> None" and "update_app_status X n st s = (r, t)"
  shows "sh_apps t = set_st n st (sh_apps s)"
  using assms on_apps_update_rows by (fastforce simp: update_app_status_apply)

lemma install_or_error_rows:
  assumes row: "tbl_find ia_name n (sh_apps s) \<noteq> None" and fetch: "moves (keeps sh_apps) fetch"
    and run: "install_or_error X n fetch s = (r, t)"
  shows "(r = Inr () \<and> sh_apps t = set_st n STOPPED (sh_apps s)) \<or> sh_apps t = set_st n ERROR (sh_apps s)"
proof -
  let ?files = "bnd fetch (install_app_from_zip X n)"
  let ?m = "bnd fetch (\<lambda>z. seq (install_app_from_zip X n z) (update_app_status X n STOPPED))"
  have m: "?m = seq ?files (update_app_status X n STOPPED)"
    by (rule ext) (simp add: act_simps split: prod.split sum.split)
  obtain q u where q: "?files s = (q, u)" by (cases "?files s") auto
  have "moves (keeps sh_apps) ?files"
    by (intro keeps.moves_bnd fetch install_app_from_zip_rows)
  then have u: "sh_apps u = sh_apps s" using q by (rule moves_keepsD)
  obtain p v where p: "?m s = (p, v)" by (cases "?m s") auto
  have mm: "?m s = (case ?files s of (Inl e, t) \<Rightarrow> (Inl e, t) | (Inr x, t) \<Rightarrow> update_app_status X n STOPPED t)"
    unfolding m by (rule act_apply(4))
  have ok: "sh_apps v = set_st n STOPPED (sh_apps s)" if "q = Inr ()"
  proof -
    have "update_app_status X n STOPPED u = (p, v)"
      using mm p q that by simp
    then show ?thesis using update_app_status_rows [of n u X STOPPED p v] u row by simp
  qed
  have stop: "v = u \<and> (\<exists>e. p = Inl e)" if "q \<noteq> Inr ()"
    using mm p q that by (cases q) simp_all
  show ?thesis
  proof (cases p)
    case (Inr x)
    then show ?thesis using run p ok stop by (auto simp: install_or_error_def act_simps)
  next
    case (Inl e)
    have row': "tbl_find ia_name n (sh_apps v) \<noteq> None"
      using ok stop u row by (cases "q = Inr ()") (simp_all add: find_set_st)
    obtain p' w where w: "update_app_status X n ERROR v = (p', w)"
      by (cases "update_app_status X n ERROR v") auto
    have "sh_apps w = set_st n ERROR (sh_apps s)"
      using update_app_status_rows [OF row' w] ok stop u by (cases "q = Inr ()") simp_all
    then show ?thesis
      using run p Inl w
      by (auto simp: install_or_error_def on_app_install_error_def broadcast_message_def act_simps split: sum.splits)
  qed
qed

section \<open>Properties of installation tasks\<close>

definition install_start :: "'e ext \<Rightarrow> task_type \<Rightarrow> string \<Rightarrow> ('e shard, path) act" where
  "install_start X ty n = (if ty = Install_From_Store then download_app_zip X n else ret (app_zip_path X n))"

lemma run_install_task:
  assumes "ty \<in> {Install_From_Store, Install_From_Zip}"
    and "tbl_find ia_name n (sh_apps s) = Some a" and "ia_status a = INSTALLATION_QUEUED"
  shows "run_task X ty n s =
    (seq (on_apps_update X) (install_or_error X n (install_start X ty n))) (s\<lparr>sh_apps := set_st n INSTALLING (sh_apps s)\<rparr>)"
  using assms
  by (auto simp: worker_install_from_store_def worker_install_from_existing_zip_def install_start_def
      assert_app_status_def update_app_status_apply act_simps split: prod.split)

lemma install_task_rows:
  assumes "ty \<in> {Install_From_Store, Install_From_Zip}"
    and "tbl_find ia_name n (sh_apps s) = Some a" and "ia_status a = INSTALLATION_QUEUED"
    and "run_task X ty n s = (r, t)"
  shows "\<exists>st. sh_apps t = set_st n st (sh_apps s)
    \<and> (if metadata_ok X (sh_fs s) (sh_apps s) then (st = STOPPED \<and> r = Inr ()) \<or> st = ERROR
       else st = INSTALLING \<and> (\<exists>e. r = Inl e) \<and> sh_fs t = sh_fs s \<and> sh_ran t = sh_ran s)"
proof -
  let ?s = "s\<lparr>sh_apps := set_st n INSTALLING (sh_apps s)\<rparr>"
  have run: "seq (on_apps_update X) (install_or_error X n (install_start X ty n)) ?s = (r, t)"
    using assms run_install_task by metis
  have ok: "metadata_ok X (sh_fs ?s) (sh_apps ?s) = metadata_ok X (sh_fs s) (sh_apps s)"
    by (simp add: metadata_ok_def)
  show ?thesis
  proof (cases "metadata_ok X (sh_fs s) (sh_apps s)")
    case True
    then obtain u where u: "on_apps_update X ?s = (Inr (), u)" "sh_apps u = sh_apps ?s"
      using on_apps_update_ok [of X ?s] ok by auto
    have row: "tbl_find ia_name n (sh_apps u) \<noteq> None"
      using assms(2) u(2) by (simp add: find_set_st)
    have fetch: "moves (keeps sh_apps) (install_start X ty n)"
      unfolding install_start_def by (intro keeps.moves_if download_rows keeps.moves_ret)
    have "install_or_error X n (install_start X ty n) u = (r, t)"
      using run u by (simp add: act_simps)
    from install_or_error_rows [OF row fetch this] True u(2) show ?thesis by auto
  next
    case False
    obtain q u where u: "on_apps_update X ?s = (q, u)" by (cases "on_apps_update X ?s") auto
    then obtain e where "q = Inl e"
      using on_apps_update_raises [of X ?s] ok False by auto
    then have "r = Inl e" "t = u" using run u by (simp_all add: act_simps)
    moreover have "(sh_apps u, sh_fs u, sh_ran u) = (sh_apps ?s, sh_fs ?s, sh_ran ?s)"
      by (rule moves_keepsD [OF moves_keeps_on_apps_update u]) simp_all
    ultimately show ?thesis using False by auto
  qed
qed

text \<open>
  C9. The outcome of an installation task: the app ends up stopped, and then the task returned, or in
  error, except that it is left installing exactly when the metadata of some installed app cannot
  be loaded, which makes the very first announcement raise, before the guarded part.  No other column
  and no other app changes.
\<close>

theorem install_task_outcome:
  assumes "ty \<in> {Install_From_Store, Install_From_Zip}"
    and "tbl_find ia_name n (sh_apps s) = Some a" and "ia_status a = INSTALLATION_QUEUED"
    and "run_task X ty n s = (r, t)"
  shows "\<exists>st. sh_apps t = set_st n st (sh_apps s)
    \<and> (if metadata_ok X (sh_fs s) (sh_apps s) then (st = STOPPED \<and> r = Inr ()) \<or> st = ERROR
       else st = INSTALLING \<and> (\<exists>e. r = Inl e) \<and> sh_fs t = sh_fs s \<and> sh_ran t = sh_ran s)"
  using assms by (rule install_task_rows)

definition queued_app :: "app_status \<Rightarrow> real shard" where
  "queued_app st =
     sample_shard\<lparr>sh_apps := [\<lparr>ia_name = ''a'', ia_reason = Reason_STORE, ia_status = st, ia_last_access = None\<rparr>]\<rparr>"

lemma queued_find [simp]:
  "tbl_find ia_name ''a'' (sh_apps (queued_app st)) =
     Some \<lparr>ia_name = ''a'', ia_reason = Reason_STORE, ia_status = st, ia_last_access = None\<rparr>"
  by (simp add: queued_app_def tbl_find_def)

lemma queued_metadata_ok: "metadata_ok sample_ext (sh_fs (queued_app st)) (sh_apps (queued_app st))"
  by (simp add: metadata_ok_def meta_loads_def get_app_metadata_def fs_exists_def queued_app_def
      sample_shard_def Let_def)

lemma install_task_outcome_witness:
  "\<exists>st r t. run_task sample_ext Install_From_Store ''a'' (queued_app INSTALLATION_QUEUED) = (r, t)
     \<and> sh_apps t = set_st ''a'' st (sh_apps (queued_app INSTALLATION_QUEUED)) \<and> st \<in> {STOPPED, ERROR}"
proof -
  obtain r t where rt: "run_task sample_ext Install_From_Store ''a'' (queued_app INSTALLATION_QUEUED) = (r, t)"
    by (meson surj_pair)
  from install_task_outcome [OF _ queued_find _ rt] queued_metadata_ok rt show ?thesis by auto
qed

lemma reinstall_unfold:
  assumes "tbl_find ia_name n (sh_apps s) = Some a" and "ia_status a = REINSTALLATION_QUEUED"
    and "metadata_ok X (sh_fs s) (sh_apps s)"
  shows "\<exists>u. worker_reinstall X n s = seq (delete_app_dir X n) (install_or_error X n (download_app_zip X n)) u
    \<and> sh_apps u = set_st n REINSTALLING (sh_apps s) \<and> sh_ran u = sh_ran s"
proof -
  let ?s = "s\<lparr>sh_apps := set_st n REINSTALLING (sh_apps s)\<rparr>"
  have "metadata_ok X (sh_fs ?s) (sh_apps ?s)"
    using assms(3) by (simp add: metadata_ok_def)
  then obtain ps where u: "on_apps_update X ?s = (Inr (), ?s\<lparr>sh_app_cache := [],
      sh_ws_queue := sh_ws_queue ?s @ [\<lparr>message_type = ''apps_update'', message = payload_or_empty (P_Apps ps)\<rparr>]\<rparr>)"
    using on_apps_update_ok by blast
  let ?u = "?s\<lparr>sh_app_cache := [],
      sh_ws_queue := sh_ws_queue ?s @ [\<lparr>message_type = ''apps_update'', message = payload_or_empty (P_Apps ps)\<rparr>]\<rparr>"
  have "reinstall_shutdown X n ?u = (Inr (), ?u)"
    using assms(1) by (simp add: reinstall_shutdown_def docker_stop_app_def docker_shutdown_app_def act_simps find_set_st)
  then have "worker_reinstall X n s = seq (delete_app_dir X n) (install_or_error X n (download_app_zip X n)) ?u"
    using assms(1,2) u
    by (simp add: worker_reinstall_def assert_app_status_def update_app_status_apply
        act_apply(3,4) get_app_from_db_apply ret_def)
  then show ?thesis by (intro exI [of _ ?u]) simp
qed

text \<open>
  Before a reinstallation deletes the files of an app it runs no command at all: the stop and the
  removal it asks for skip an app whose status is reinstalling, so running containers are not stopped.
\<close>

theorem reinstall_stops_nothing:
  assumes "tbl_find ia_name n (sh_apps s) = Some a" and "ia_status a = REINSTALLATION_QUEUED"
    and "metadata_ok X (sh_fs s) (sh_apps s)"
  shows "\<exists>u. worker_reinstall X n s = seq (delete_app_dir X n) (install_or_error X n (download_app_zip X n)) u
    \<and> sh_apps u = set_st n REINSTALLING (sh_apps s) \<and> sh_ran u = sh_ran s"
  using assms by (rule reinstall_unfold)

lemma reinstall_stops_nothing_witness:
  "\<exists>u. worker_reinstall sample_ext ''a'' (queued_app REINSTALLATION_QUEUED)
      = seq (delete_app_dir sample_ext ''a'') (install_or_error sample_ext ''a'' (download_app_zip sample_ext ''a'')) u"
  using reinstall_stops_nothing [OF queued_find _ queued_metadata_ok, of REINSTALLATION_QUEUED] by auto

section \<open>Uninstallation\<close>

text \<open>Every command an operation adds to the history satisfies \<open>P\<close>.\<close>

definition runs_only :: "(string list \<Rightarrow> bool) \<Rightarrow> 'e shard \<Rightarrow> 'e shard \<Rightarrow> bool" where
  "runs_only P s t \<longleftrightarrow> (\<exists>cs. sh_ran t = sh_ran s @ cs \<and> list_all P cs)"

interpretation runs_only: frame "runs_only P"
  by unfold_locales (auto simp: runs_only_def)

lemma runs_only_kept: "moves (keeps sh_ran) m \<Longrightarrow> moves (runs_only P) m"
  by (simp add: moves_def keeps_def runs_only_def)

definition not_unpause :: "string list \<Rightarrow> bool" where
  "not_unpause c \<longleftrightarrow> c = [] \<or> last c \<noteq> ''unpause''"

lemma runs_compose:
  assumes "args \<noteq> []" and "last args \<noteq> ''unpause''"
  shows "moves (runs_only not_unpause) (run_compose X n args)"
  using assms
  by (auto simp: moves_def runs_only_def not_unpause_def run_compose_def compose_def subprocess_def act_simps
      split: sum.split prod.split)

lemma stop_not_unpause:
  assumes "map_option ia_status (tbl_find ia_name n (sh_apps s)) \<noteq> Some PAUSED"
  shows "runs_only not_unpause s (snd (docker_stop_app X n b s))"
proof (cases "tbl_find ia_name n (sh_apps s)")
  case None
  then show ?thesis by (simp add: docker_stop_app_def act_simps runs_only.frame_refl)
next
  case (Some a)
  let ?m = "seq (run_compose X n [''stop''])
             (seq (if b then seq (record_app_transition X n (ia_status a) STOPPED) (set_status_row n STOPPED)
                   else ret ())
             (on_apps_update X))"
  have "moves (runs_only not_unpause) ?m"
    unfolding record_app_transition_def metrics_def set_status_row_def
    by (intro runs_only.moves_rules runs_compose runs_only_kept [OF moves_keeps_on_apps_update]
        runs_only_kept [OF moves_keeps_modify] runs_only_kept [OF moves_keeps_zoom]) auto
  then have "runs_only not_unpause s (snd (?m s))" by (simp add: moves_def)
  then show ?thesis
    using Some assms
    by (auto simp: docker_stop_app_def bnd_def db_status_apply seq_def ret_def runs_only.frame_refl)
qed

lemma shutdown_not_unpause:
  assumes "map_option ia_status (tbl_find ia_name n (sh_apps s)) \<noteq> Some PAUSED"
  shows "runs_only not_unpause s (snd (docker_shutdown_app X n b f s))"
proof -
  let ?m = "seq (run_compose X n [''down''])
         (seq (if b then set_status_row n DOWN else ret ()) (on_apps_update X))"
  have "moves (runs_only not_unpause) ?m"
    unfolding set_status_row_def
    by (intro runs_only.moves_rules runs_compose runs_only_kept [OF moves_keeps_on_apps_update]
        runs_only_kept [OF moves_keeps_zoom]) auto
  then have "runs_only not_unpause s (snd (?m s))" by (simp add: moves_def)
  then show ?thesis
    using assms
    by (auto simp: docker_shutdown_app_def bnd_def db_status_apply seq_def ret_def runs_only.frame_refl)
qed

abbreviation rest :: "string \<Rightarrow> 'e shard \<Rightarrow> (string \<Rightarrow> app_row option) \<times> fs \<times> string list" where
  "rest n s \<equiv> (others n s, sh_fs s, sh_locks s)"

lemma rest_scoped: "moves (scoped X n st) m \<Longrightarrow> moves (keeps (rest n)) m"
  using others_scoped [of X n st m] by (auto simp: moves_def keeps_def scoped_def)

lemma rest_on_apps_update: "moves (keeps (rest n)) (on_apps_update X)"
  by (rule moves_keeps_on_apps_update) (simp_all add: others_def)

lemma rest_update_app_status: "moves (keeps (rest n)) (update_app_status X n st)"
proof (rule movesI)
  fix s :: "'a shard"
  have "rest n (snd (on_apps_update X (s\<lparr>sh_apps := set_st n st (sh_apps s)\<rparr>)))
      = rest n (s\<lparr>sh_apps := set_st n st (sh_apps s)\<rparr>)"
    by (rule moves_keeps_snd [OF rest_on_apps_update])
  also have "\<dots> = rest n s"
    by (simp add: others_def)
  finally show "keeps (rest n) s (snd (update_app_status X n st s))"
    by (simp add: update_app_status_apply keeps_def)
qed

lemma rest_uninstall_mark: "moves (keeps (rest n)) (uninstall_mark X n)"
proof -
  have "moves (keeps (rest n)) (get_app_from_db n)"
    by (simp add: moves_def keeps_def get_app_from_db_apply split: option.split)
  then show ?thesis
    unfolding uninstall_mark_def
    by (auto intro!: keeps.moves_rules rest_update_app_status
        rest_scoped [OF op_scoped [where oper = Op_Unpause, simplified]] split: exn.split)
qed

lemma rest_teardown:
  "moves (keeps (rest n)) (try_except (seq (docker_stop_app X n True) (docker_shutdown_app X n True False)) (\<lambda>_. ret ()))"
  by (intro keeps.moves_rules rest_scoped [OF op_scoped [where oper = Op_Stop, simplified]]
      rest_scoped [OF op_scoped [where oper = Op_Shutdown, simplified]])

lemma app_dir_plain: "path_comps n = [n] \<Longrightarrow> \<not> is_absolute n \<Longrightarrow> app_dir X n = get_installed_apps_path X @ [n]"
  by (simp add: app_dir_def path_join_def)

lemma traefik_elsewhere:
  assumes "app_dir X n = get_installed_apps_path X @ [n]" and "starts_with (app_dir X n) q"
  shows "\<not> starts_with q (traefik_dyn_path X)"
  using assms by (auto simp: starts_with_iff get_installed_apps_path_def traefik_dyn_path_def)

lemma write_to_yaml_elsewhere:
  assumes "\<not> starts_with q p"
  shows "sh_fs (snd (write_to_yaml X spec p s)) q = sh_fs s q"
proof -
  have not_parent: "q \<noteq> take k (parent p)" for k
    using assms unfolding starts_with_def parent_def butlast_conv_take take_take
    by (metis append_take_drop_id append_eq_conv_conj)
  have "fs_mkdirs_from [] (parent p) fs = (r, fs') \<Longrightarrow> fs' q = fs q" for fs fs' r
    using fs_mkdirs_from_changes [of "[]" "parent p" fs r fs' q] not_parent by auto
  then have "snd (fs_mkdirs (parent p) fs) q = fs q" for fs
    by (auto simp: fs_mkdirs_def split: prod.split option.split)
  moreover have "snd (fs_write p c fs) q = fs q" for c fs
    using assms by (auto simp: fs_write_def)
  ultimately show ?thesis
    by (auto simp: write_to_yaml_def act_simps split: prod.split sum.split) (metis snd_conv)+
qed

lemma traefik_fs_elsewhere:
  assumes "\<not> starts_with q (traefik_dyn_path X)"
  shows "sh_fs (snd (write_traefik_dyn_config X s)) q = sh_fs s q"
proof -
  obtain r u where u: "default_portal X s = (r, u)" "u = s"
    using default_portal_state [of X s] by (cases "default_portal X s") auto
  show ?thesis
    using u write_to_yaml_elsewhere [OF assms, of X]
    by (cases r) (simp_all add: write_traefik_dyn_config_def apps_get_all_def act_simps Let_def)
qed

text \<open>What the deletion of a directory changes, as a function of the world at that moment\<close>

lemma delete_app_dir_apply [act_simps]:
  "delete_app_dir X n s =
     (Inr (), s\<lparr>sh_fs := fs_rmtree_leaving (x_rmtree_left X (app_dir X n) (sh_env s)) (app_dir X n) (sh_fs s)\<rparr>)"
  by (simp add: delete_app_dir_def act_simps)

text \<open>
  C10. An uninstallation that returns has removed the app, no matter whether its containers could be
  stopped: its row is gone, below its directory only those files remain that the operating system refused
  to delete (for which the code raises nothing), and the authorisation cache is empty.  And it has removed
  nothing else: the rows of the other apps and the locks are as before, and so is every file outside the
  directory of the app but the configuration of the proxy and the directories that one is in.
\<close>

theorem uninstall_task_removes:
  assumes "worker_uninstall X n s = (Inr (), t)"
    and "path_comps n = [n]" and "\<not> is_absolute n" and "sh_fs s (app_dir X n) = Some Dir"
  shows "tbl_find ia_name n (sh_apps t) = None
    \<and> (\<forall>m. m \<noteq> n \<longrightarrow> tbl_find ia_name m (sh_apps t) = tbl_find ia_name m (sh_apps s))
    \<and> sh_locks t = sh_locks s \<and> sh_app_cache t = []
    \<and> (\<exists>e. \<forall>q. starts_with (app_dir X n) q \<longrightarrow>
         sh_fs t q = (if list_ex (starts_with q) (x_rmtree_left X (app_dir X n) e) then sh_fs s q else None))
    \<and> (\<forall>q. \<not> starts_with (app_dir X n) q \<longrightarrow> \<not> starts_with q (traefik_dyn_path X) \<longrightarrow> sh_fs t q = sh_fs s q)"
proof -
  let ?s = "s\<lparr>sh_locks := n # sh_locks s\<rparr>"
  let ?tail = "seq (write_traefik_dyn_config X) (on_apps_update X)"
  have free: "n \<notin> set (sh_locks s)"
    using assms(1) by (auto simp: with_lock_def worker_uninstall_def split: if_splits)
  obtain w where w: "seq (uninstall_mark X n)
       (seq (try_except (seq (docker_stop_app X n True) (docker_shutdown_app X n True False)) (\<lambda>_. ret ()))
       (seq (delete_app_dir X n) (seq (db_apps (apps_remove n)) ?tail))) ?s = (Inr (), w)"
      and t: "t = w\<lparr>sh_locks := remove1 n (sh_locks w)\<rparr>"
    using assms(1) free by (auto simp: with_lock_def worker_uninstall_def split: prod.splits)
  obtain s1 s2 s3 s4 s5 where mark: "uninstall_mark X n ?s = (Inr (), s1)"
      and stop: "try_except (seq (docker_stop_app X n True) (docker_shutdown_app X n True False)) (\<lambda>_. ret ()) s1 = (Inr (), s2)"
      and del: "delete_app_dir X n s2 = (Inr (), s3)" and remove: "db_apps (apps_remove n) s3 = (Inr (), s4)"
      and traefik: "write_traefik_dyn_config X s4 = (Inr (), s5)" and update: "on_apps_update X s5 = (Inr (), w)"
    using w by (auto simp: seq_Inr_iff)
  let ?left = "x_rmtree_left X (app_dir X n) (sh_env s2)"
  have 2: "rest n s2 = rest n ?s"
    using moves_keepsD [OF rest_uninstall_mark mark] moves_keepsD [OF rest_teardown stop] by simp
  have 3: "s3 = s2\<lparr>sh_fs := fs_rmtree_leaving ?left (app_dir X n) (sh_fs s2)\<rparr>"
    using del by (simp add: delete_app_dir_apply)
  have 4: "s4 = s3\<lparr>sh_apps := filter (\<lambda>r. ia_name r \<noteq> n) (sh_apps s3)\<rparr>"
    using remove by (auto simp: apps_remove_def tbl_delete_def act_simps)
  have apps: "sh_apps w = sh_apps s4" and locks: "sh_locks w = sh_locks s4"
    using moves_keepsD [OF traefik_keeps traefik, where f = "\<lambda>s. (sh_apps s, sh_locks s)"]
      moves_keepsD [OF moves_keeps_on_apps_update update, where f = "\<lambda>s. (sh_apps s, sh_locks s)"] by simp_all
  have plain: "app_dir X n = get_installed_apps_path X @ [n]"
    using assms(2,3) by (rule app_dir_plain)
  have fs: "sh_fs t q = fs_rmtree_leaving ?left (app_dir X n) (sh_fs s) q"
    if "\<not> starts_with q (traefik_dyn_path X)" for q
    using moves_keepsD [OF moves_keeps_on_apps_update update, where f = sh_fs]
      traefik_fs_elsewhere [OF that, of s4] traefik 2 by (simp add: t 3 4)
  have below: "sh_fs t q = (if list_ex (starts_with q) ?left then sh_fs s q else None)"
    if "starts_with (app_dir X n) q" for q
    using fs [OF traefik_elsewhere [OF plain that]] that assms(4) by (simp add: fs_rmtree_leaving_def)
  have outside: "sh_fs t q = sh_fs s q"
    if "\<not> starts_with (app_dir X n) q" and "\<not> starts_with q (traefik_dyn_path X)" for q
    using fs [OF that(2)] that(1) by (simp add: fs_rmtree_leaving_def)
  have "others n t = others n s"
    using 2 apps by (simp add: others_def t 3 4)
  then have other: "\<forall>m. m \<noteq> n \<longrightarrow> tbl_find ia_name m (sh_apps t) = tbl_find ia_name m (sh_apps s)"
    by (auto simp: others_def others_of_def fun_eq_iff split: if_splits)
  have "tbl_find ia_name n (sh_apps t) = None"
    using apps by (simp add: t 4 tbl_find_filter)
  moreover have "sh_locks t = sh_locks s"
    using locks 2 by (simp add: t 3 4)
  moreover have "sh_app_cache t = []"
    using on_apps_update_clears [OF update] by (simp add: t)
  ultimately show ?thesis
    using other below outside by blast
qed

definition uninstall_witness :: "real shard" where
  "uninstall_witness =
     lifecycle_witness\<lparr>sh_identities := [sample_identity ''abcdef'' True]\<rparr>"

lemma uninstall_witness_runs: "fst (worker_uninstall sample_ext ''a'' uninstall_witness) = Inr ()"
  by code_simp

lemma uninstall_task_removes_witness:
  "\<exists>t. worker_uninstall sample_ext ''a'' uninstall_witness = (Inr (), t)
     \<and> tbl_find ia_name ''a'' (sh_apps t) = None \<and> sh_fs t (app_dir sample_ext ''a'') = None
     \<and> sh_fs t [''r'', ''core'', ''installed_apps''] = sh_fs uninstall_witness [''r'', ''core'', ''installed_apps'']"
proof -
  obtain t where t: "worker_uninstall sample_ext ''a'' uninstall_witness = (Inr (), t)"
    using uninstall_witness_runs by (metis prod.collapse)
  have dirs: "path_comps ''a'' = [''a'']" "\<not> is_absolute ''a''"
    "sh_fs uninstall_witness (app_dir sample_ext ''a'') = Some Dir"
    "starts_with (app_dir sample_ext ''a'') (app_dir sample_ext ''a'')"
    "\<not> starts_with (app_dir sample_ext ''a'') [''r'', ''core'', ''installed_apps'']"
    "\<not> starts_with [''r'', ''core'', ''installed_apps''] (traefik_dyn_path sample_ext)"
    by code_simp+
  have "x_rmtree_left sample_ext p e = []" for p e by (simp add: sample_ext_def)
  then show ?thesis
    using uninstall_task_removes [OF t dirs(1-3)] dirs(4-6) t by auto
qed

text \<open>
  One app with unreadable metadata blocks uninstallation, its own included: when announcing the
  apps raises anything but a \<open>KeyError\<close>, an uninstallation raises it after it has set the status,
  before anything was stopped or deleted.
\<close>

theorem uninstall_blocked_by_bad_metadata:
  assumes "tbl_find ia_name n (sh_apps s) = Some a" and "ia_status a \<noteq> PAUSED" and "n \<notin> set (sh_locks s)"
    and "collect_res (enrich_installed_app_with_meta X (sh_fs s)) (set_st n UNINSTALLING (sh_apps s)) = Inl ValidationError"
    and "worker_uninstall X n s = (r, t)"
  shows "r = Inl ValidationError \<and> sh_apps t = set_st n UNINSTALLING (sh_apps s)
    \<and> sh_fs t = sh_fs s \<and> sh_ran t = sh_ran s"
proof -
  let ?s = "s\<lparr>sh_locks := n # sh_locks s, sh_apps := set_st n UNINSTALLING (sh_apps s)\<rparr>"
  obtain c where "on_apps_update X ?s = (Inl ValidationError, ?s\<lparr>sh_app_cache := c\<rparr>)"
    using assms(4)
    by (cases "x_cache_first X")
      (auto simp: on_apps_update_def invalidate_app_cache_def send_apps_update_apply act_simps
        intro: that [of "[]"] that [of "sh_app_cache s"])
  then have "uninstall_mark X n (s\<lparr>sh_locks := n # sh_locks s\<rparr>) = (Inl ValidationError, ?s\<lparr>sh_app_cache := c\<rparr>)"
    using assms(1,2) by (simp add: uninstall_mark_def update_app_status_apply act_simps)
  then show ?thesis
    using assms(3,5) by (auto simp: worker_uninstall_def with_lock_def act_simps)
qed

definition bad_meta_ext :: "real ext" where
  "bad_meta_ext = sample_ext\<lparr>x_parser := sample_parser\<lparr>decode_fields := (\<lambda>_. None)\<rparr>\<rparr>"

lemma uninstall_blocked_by_bad_metadata_witness:
  "fst (worker_uninstall bad_meta_ext ''a'' uninstall_witness) = Inl ValidationError"
proof -
  let ?a = "\<lparr>ia_name = ''a'', ia_reason = Reason_STORE, ia_status = RUNNING, ia_last_access = None\<rparr>"
  have apps: "sh_apps uninstall_witness = [?a]" "sh_locks uninstall_witness = []"
    by (simp_all add: uninstall_witness_def lifecycle_witness_def one_running_app_def sample_shard_def)
  have "collect_res (enrich_installed_app_with_meta bad_meta_ext (sh_fs uninstall_witness))
      (set_st ''a'' UNINSTALLING (sh_apps uninstall_witness)) = Inl ValidationError"
    by code_simp
  then show ?thesis
    using uninstall_blocked_by_bad_metadata [of "''a''" uninstall_witness ?a bad_meta_ext] apps
    by (cases "worker_uninstall bad_meta_ext ''a'' uninstall_witness") (simp add: tbl_find_def)
qed

section \<open>The worker\<close>

abbreviation queue_view :: "'e shard \<Rightarrow> install_task list \<times> string list" where
  "queue_view s \<equiv> (sh_tasks s, sh_locks s)"

lemma queue_view_with_lock:
  assumes "moves (keeps queue_view) m"
  shows "moves (keeps queue_view) (with_lock n m)"
proof (rule movesI)
  fix s :: "'a shard"
  obtain r t where t: "m (s\<lparr>sh_locks := n # sh_locks s\<rparr>) = (r, t)" by (meson surj_pair)
  then show "keeps queue_view s (snd (with_lock n m s))"
    using moves_keepsD [OF assms t] by (simp add: keeps_def with_lock_def)
qed

lemma tasks_container_op: "moves (keeps queue_view) (compose X n args)"
  unfolding compose_def by (intro keeps.moves_rules moves_keeps_subprocess) auto

lemma tasks_run_compose: "moves (keeps queue_view) (run_compose X n args)"
  by (rule run_compose_keeps) simp_all

lemmas tasks_rules =
  keeps.moves_rules moves_keeps_zoom moves_keeps_modify moves_keeps_world queue_view_with_lock moves_keeps_subprocess moves_keeps_on_apps_update moves_keeps_get_all moves_keeps_portal
  moves_keeps_world_res moves_keeps_now moves_keeps_on_fs tasks_run_compose render_keeps traefik_keeps

lemma tasks_update_status: "moves (keeps queue_view) (update_app_status X n st)"
  unfolding update_app_status_def by (auto intro!: tasks_rules split: option.split)

lemma tasks_get_app: "moves (keeps queue_view) (get_app_from_db n)"
  unfolding get_app_from_db_def by (auto intro!: tasks_rules split: option.split)

lemma tasks_install_or_error:
  assumes "moves (keeps queue_view) fetch"
  shows "moves (keeps queue_view) (install_or_error X n fetch)"
  unfolding install_or_error_def install_app_from_zip_def docker_create_app_containers_def
    on_app_install_error_def
  using assms by (auto intro!: tasks_rules tasks_update_status moves_keeps_broadcast)

lemma tasks_download: "moves (keeps queue_view) (download_app_zip X n)"
  unfolding download_app_zip_def Let_def by (auto intro!: tasks_rules)

lemma tasks_stop: "moves (keeps queue_view) (docker_stop_app X n b)"
  unfolding docker_stop_app_def db_status_def record_app_transition_def metrics_def set_status_row_def
  by (auto intro!: tasks_rules split: option.split)

lemma tasks_shutdown: "moves (keeps queue_view) (docker_shutdown_app X n b f)"
  unfolding docker_shutdown_app_def db_status_def set_status_row_def by (auto intro!: tasks_rules)

lemma tasks_unpause: "moves (keeps queue_view) (docker_unpause_app X n)"
  unfolding docker_unpause_app_def db_status_def do_unpause_def mark_running_def set_status_row_def
    record_unpause_latency_def record_app_transition_def metrics_def
  by (auto intro!: tasks_rules)

lemma run_task_keeps_queue: "moves (keeps queue_view) (run_task X ty n)"
proof (cases ty)
  case Install_From_Store
  then show ?thesis
    by (auto simp: worker_install_from_store_def assert_app_status_def
        intro!: tasks_rules tasks_get_app tasks_update_status tasks_install_or_error tasks_download)
next
  case Install_From_Zip
  then show ?thesis
    by (auto simp: worker_install_from_existing_zip_def assert_app_status_def
        intro!: tasks_rules tasks_get_app tasks_update_status tasks_install_or_error)
next
  case Uninstall
  then show ?thesis
    by (auto simp: worker_uninstall_def uninstall_mark_def delete_app_dir_def split: exn.split
        intro!: tasks_rules tasks_get_app tasks_update_status tasks_unpause tasks_stop tasks_shutdown)
next
  case Reinstall
  then show ?thesis
    by (auto simp: worker_reinstall_def assert_app_status_def reinstall_shutdown_def delete_app_dir_def
        intro!: tasks_rules tasks_get_app tasks_update_status tasks_install_or_error tasks_download
          tasks_stop tasks_shutdown)
qed

text \<open>One round, unfolded: the first task is taken off the queue and run, whatever it raises.\<close>

lemma run_worker_step_Nil: "sh_tasks s = [] \<Longrightarrow> run_worker_step X s = (Inr (), s)"
  by (simp add: run_worker_step_def act_simps)

lemma run_worker_step_Cons:
  assumes "sh_tasks s = k # ks"
    and "run_task X (it_task_type k) (it_app_name k) (s\<lparr>sh_tasks := ks, sh_current_task := Some k\<rparr>) = (r, u)"
  shows "run_worker_step X s = (Inr (), u\<lparr>sh_current_task := None\<rparr>) \<and> sh_tasks u = ks"
  using assms moves_keepsD [OF run_task_keeps_queue assms(2)]
  by (cases r) (simp_all add: run_worker_step_def act_simps)

definition run_worker :: "'e ext \<Rightarrow> nat \<Rightarrow> ('e shard, unit) act" where
  "run_worker X n = for_each (\<lambda>_. run_worker_step X) [0..<n]"

lemma run_worker_0 [simp]: "run_worker X 0 s = (Inr (), s)"
  by (simp add: run_worker_def act_simps)

lemma run_worker_Suc:
  assumes "run_worker_step X s = (Inr (), v)"
  shows "run_worker X (Suc n) s = run_worker X n v"
proof -
  have shift: "for_each (\<lambda>_. m) xs = for_each (\<lambda>_. m) ys" if "length xs = length ys"
    for m :: "('s, unit) act" and xs ys :: "nat list"
    using that by (induction xs ys rule: list_induct2) simp_all
  have "[0..<Suc n] = 0 # [1..<Suc n]" by (simp add: upt_rec)
  then show ?thesis
    using assms shift [of "[1..<Suc n]" "[0..<n]" "run_worker_step X"]
    by (simp add: run_worker_def act_apply(4))
qed

text \<open>
  \<open>tasks_run X s ks t\<close>: the tasks \<open>ks\<close> were run one after the other, each once, each as the current task
  and from the state in which the one before it left the shard, whatever it returned or raised; \<open>t\<close> is the
  state after the last one.
\<close>

primrec tasks_run :: "'e ext \<Rightarrow> 'e shard \<Rightarrow> install_task list \<Rightarrow> 'e shard \<Rightarrow> bool" where
  "tasks_run X s [] t \<longleftrightarrow> t = s"
| "tasks_run X s (k # ks) t \<longleftrightarrow>
     (\<exists>r u. run_task X (it_task_type k) (it_app_name k)
          (s\<lparr>sh_tasks := tl (sh_tasks s), sh_current_task := Some k\<rparr>) = (r, u)
        \<and> tasks_run X (u\<lparr>sh_current_task := None\<rparr>) ks t)"

text \<open>
  C11. The worker runs the tasks in the order they were queued, each exactly once, and survives all of
  them: \<open>n\<close> rounds of its loop return, and what they have done is to run the first \<open>n\<close> queued tasks
  one after the other, whatever each of them raised; the others stay queued, in their order.
\<close>

theorem worker_runs_queue_in_order:
  assumes "n \<le> length (sh_tasks s)"
  shows "\<exists>t. run_worker X n s = (Inr (), t) \<and> tasks_run X s (take n (sh_tasks s)) t
    \<and> sh_tasks t = drop n (sh_tasks s) \<and> (0 < n \<longrightarrow> sh_current_task t = None)"
  using assms
proof (induction n arbitrary: s)
  case 0
  then show ?case by simp
next
  case (Suc n)
  then obtain k ks where ks: "sh_tasks s = k # ks" by (cases "sh_tasks s") auto
  obtain r u where u: "run_task X (it_task_type k) (it_app_name k) (s\<lparr>sh_tasks := ks, sh_current_task := Some k\<rparr>) = (r, u)"
    by (meson surj_pair)
  let ?v = "u\<lparr>sh_current_task := None\<rparr>"
  have step: "run_worker_step X s = (Inr (), ?v)" and tasks: "sh_tasks ?v = ks"
    using run_worker_step_Cons [OF ks u] by simp_all
  have "n \<le> length (sh_tasks ?v)" using Suc.prems ks tasks by simp
  then obtain t where t: "run_worker X n ?v = (Inr (), t)" "tasks_run X ?v (take n ks) t"
      "sh_tasks t = drop n ks" "0 < n \<longrightarrow> sh_current_task t = None"
    using Suc.IH [of ?v] tasks by auto
  have "sh_current_task t = None"
    using t by (cases n) auto
  then show ?case
    using t u ks run_worker_Suc [OF step, of n] by auto
qed

definition two_tasks :: "real shard" where
  "two_tasks = (queued_app STOPPED)\<lparr>sh_tasks :=
     [\<lparr>it_app_name = ''a'', it_task_type = Install_From_Store\<rparr>, \<lparr>it_app_name = ''a'', it_task_type = Uninstall\<rparr>]\<rparr>"

lemma worker_runs_queue_in_order_witness:
  "\<exists>t. run_worker sample_ext 2 two_tasks = (Inr (), t)
     \<and> tasks_run sample_ext two_tasks (sh_tasks two_tasks) t \<and> sh_tasks t = []"
proof -
  have "length (sh_tasks two_tasks) = 2" by (simp add: two_tasks_def)
  then show ?thesis
    using worker_runs_queue_in_order [of 2 two_tasks sample_ext] by (auto simp del: tasks_run.simps)
qed

end
