(* ===== verification/Installation.thy ===== *)
theory Installation
  imports Worker
begin

text \<open>
  \<open>service/app_installation/__init__.py\<close> and the endpoints of \<open>web/protected/apps.py\<close> and
  \<open>web/management/apps.py\<close>: requests for installation work change the status column, queue a task and
  announce the apps.
\<close>

section \<open>service/app_installation/__init__.py\<close>

definition STORE_KEY_INITIAL_APPS_INSTALLED :: string where
  "STORE_KEY_INITIAL_APPS_INSTALLED = ''initial_apps_installed''"

definition queued_row :: "string \<Rightarrow> installation_reason \<Rightarrow> app_row" where
  "queued_row n reason =
     \<lparr>ia_name = n, ia_reason = reason, ia_status = INSTALLATION_QUEUED, ia_last_access = None\<rparr>"

definition install_app_from_store :: "'e ext \<Rightarrow> string \<Rightarrow> installation_reason \<Rightarrow> ('e shard, unit) act" where
  "install_app_from_store X n reason =
     bnd (app_exists_in_store X n) (\<lambda>in_store.
     if \<not> in_store then raise (AppDoesNotExist n)
     else
       bnd (app_exists_in_db n) (\<lambda>in_db.
       if in_db then raise (AppAlreadyInstalled n)
       else
         seq (db_apps (apps_insert (queued_row n reason)))
         (seq (enqueue \<lparr>it_app_name = n, it_task_type = Install_From_Store\<rparr>)
         (on_apps_update X))))"

definition install_app_from_uploaded_zip ::
    "'e ext \<Rightarrow> string \<Rightarrow> path \<Rightarrow> installation_reason \<Rightarrow> ('e shard, unit) act" where
  "install_app_from_uploaded_zip X n zip_file reason =
     bnd (app_exists_in_db n) (\<lambda>in_db.
     if in_db then raise (AppAlreadyInstalled n)
     else
       (let target_zip = app_zip_path X n in
        seq (on_fs (fs_mkdirs (parent target_zip)))
        (seq (on_fs (fs_move zip_file target_zip))
        (seq (db_apps (apps_insert (queued_row n reason)))
        (seq (enqueue \<lparr>it_app_name = n, it_task_type = Install_From_Zip\<rparr>)
        (on_apps_update X))))))"

definition uninstall_app :: "'e ext \<Rightarrow> string \<Rightarrow> ('e shard, unit) act" where
  "uninstall_app X n =
     bnd (app_exists_in_db n) (\<lambda>in_db.
     if \<not> in_db then raise (AppNotInstalled n)
     else
       seq (update_app_status X n UNINSTALLATION_QUEUED)
       (seq (enqueue \<lparr>it_app_name = n, it_task_type = Uninstall\<rparr>)
       (on_apps_update X)))"

definition reinstall_app :: "'e ext \<Rightarrow> string \<Rightarrow> ('e shard, unit) act" where
  "reinstall_app X n =
     bnd (app_exists_in_store X n) (\<lambda>in_store.
     if \<not> in_store then raise (AppDoesNotExist n)
     else
       bnd (app_exists_in_db n) (\<lambda>in_db.
       if \<not> in_db then raise (AppNotInstalled n)
       else
         seq (update_app_status X n REINSTALLATION_QUEUED)
         (enqueue \<lparr>it_app_name = n, it_task_type = Reinstall\<rparr>)))"

definition reconcile_interrupted_uninstalls :: "('e shard, unit) act" where
  "reconcile_interrupted_uninstalls =
     bnd (db_apps apps_get_all) (\<lambda>all_apps.
     for_each
       (\<lambda>a. if ia_status a \<notin> set [UNINSTALLATION_QUEUED, UNINSTALLING] then ret ()
            else enqueue \<lparr>it_app_name = ia_name a, it_task_type = Uninstall\<rparr>)
       all_apps)"

text \<open>The difference of two Python sets comes in some order; here in the order of the settings.\<close>

definition refresh_init_apps :: "'e ext \<Rightarrow> ('e shard, unit) act" where
  "refresh_init_apps X =
     try_else (get_value STORE_KEY_INITIAL_APPS_INSTALLED)
       (\<lambda>e. case e of
          KeyError _ \<Rightarrow>
            bnd (db_apps apps_get_all) (\<lambda>all_apps.
            seq (for_each (\<lambda>n. install_app_from_store X n Reason_CONFIG)
                   (filter (\<lambda>n. n \<notin> ia_name ` set all_apps) (remdups (initial_apps (cfg X)))))
            (set_value STORE_KEY_INITIAL_APPS_INSTALLED (JBool True)))
        | _ \<Rightarrow> raise e)
       (\<lambda>_. ret ())"

definition login_docker_registries :: "'e ext \<Rightarrow> ('e shard, unit) act" where
  "login_docker_registries X =
     for_each
       (\<lambda>r. try_else
          (subprocess X [''docker'', ''login'', ''-u'', reg_username r, ''-p'', reg_password r, reg_uri r])
          (\<lambda>e. case e of SubprocessError _ \<Rightarrow> ret () | _ \<Rightarrow> if is_os_error e then ret () else raise e)
          (\<lambda>_. ret ()))
       (registries (cfg X))"

section \<open>web/protected/apps.py\<close>

definition list_all_apps :: "'e ext \<Rightarrow> ('e shard, (app_row \<times> app_meta option) list) act" where
  "list_all_apps X =
     bnd (db_apps apps_get_all) (\<lambda>apps.
     bnd (gets sh_fs) (\<lambda>fs.
     lift_res (collect_res (enrich_installed_app_with_meta X fs) apps)))"

definition get_app :: "'e ext \<Rightarrow> string \<Rightarrow> ('e shard, app_row \<times> app_meta option) act" where
  "get_app X n =
     bnd (db_apps (apps_get_by_name n)) (\<lambda>a.
       case a of
         None \<Rightarrow> raise (HTTPException 404)
       | Some a \<Rightarrow> bnd (gets sh_fs) (\<lambda>fs. lift_res (enrich_installed_app_with_meta X fs a)))"

definition get_app_icon :: "'e ext \<Rightarrow> string \<Rightarrow> ('e shard, string) act" where
  "get_app_icon X n =
     bnd (try_except (app_metadata X n)
            (\<lambda>e. case e of MetadataNotFound _ \<Rightarrow> raise (HTTPException 404) | _ \<Rightarrow> raise e)) (\<lambda>meta.
     bnd (gets sh_fs) (\<lambda>fs.
     lift_res (fs_read fs (path_join (app_dir X n) (am_icon meta)))))"

definition web_uninstall_app :: "'e ext \<Rightarrow> string \<Rightarrow> ('e shard, unit) act" where
  "web_uninstall_app X n =
     try_except (uninstall_app X n)
       (\<lambda>e. case e of AppNotInstalled _ \<Rightarrow> raise (HTTPException 404) | _ \<Rightarrow> raise e)"

definition web_install_app :: "'e ext \<Rightarrow> string \<Rightarrow> ('e shard, unit) act" where
  "web_install_app X n =
     try_except (install_app_from_store X n Reason_STORE)
       (\<lambda>e. case e of
          AppDoesNotExist _ \<Rightarrow> raise (HTTPException 404)
        | AppAlreadyInstalled _ \<Rightarrow> raise (HTTPException 409)
        | _ \<Rightarrow> raise e)"

definition web_reinstall_app :: "'e ext \<Rightarrow> string \<Rightarrow> ('e shard, unit) act" where
  "web_reinstall_app X n =
     try_except (reinstall_app X n)
       (\<lambda>e. case e of
          AppDoesNotExist _ \<Rightarrow> raise (HTTPException 404)
        | AppNotInstalled _ \<Rightarrow> raise (HTTPException 404)
        | _ \<Rightarrow> raise e)"

text \<open>
  An upload goes to \<open>upload.zip\<close> in a fresh temporary directory \<open>tmp\<close>, which is removed on the way
  out, whatever happens.
\<close>

definition upload_app :: "'e ext \<Rightarrow> path \<Rightarrow> string \<Rightarrow> ('e shard, unit) act" where
  "upload_app X upload_path content =
     seq (on_fs (fs_write upload_path content))
     (bnd (try_except (lift_res (validate_app_zip (x_parser X) (x_open_zip X content)))
             (\<lambda>e. case e of InvalidAppZip _ \<Rightarrow> raise (HTTPException 400) | _ \<Rightarrow> raise e)) (\<lambda>meta.
      try_except (install_app_from_uploaded_zip X (am_name meta) upload_path Reason_CUSTOM)
        (\<lambda>e. case e of AppAlreadyInstalled _ \<Rightarrow> raise (HTTPException 409) | _ \<Rightarrow> raise e)))"

definition install_custom_app :: "'e ext \<Rightarrow> path \<Rightarrow> string \<Rightarrow> string \<Rightarrow> ('e shard, unit) act" where
  "install_custom_app X tmp filename content =
     (if \<not> ends_with ''.zip'' filename then raise (HTTPException 400)
      else
        seq (on_fs (modify (\<lambda>fs. fs(tmp \<mapsto> Dir))))
        (\<lambda>s. case upload_app X (tmp @ [''upload.zip'']) content s of
               (r, t) \<Rightarrow> (r, t\<lparr>sh_fs := fs_rmtree tmp (sh_fs t)\<rparr>)))"

section \<open>web/management/apps.py\<close>

definition management_install_app :: "'e ext \<Rightarrow> string \<Rightarrow> ('e shard, unit) act" where
  "management_install_app X n =
     try_except (install_app_from_store X n Reason_STORE)
       (\<lambda>e. case e of AppAlreadyInstalled _ \<Rightarrow> raise (HTTPException 409) | _ \<Rightarrow> raise e)"

section \<open>Requests\<close>

lemma app_exists_in_store_apply:
  "app_exists_in_store X n s =
     (case x_httpx_get X (store_zip_url X n) (sh_env s) of
        (Inl e, v) \<Rightarrow> (Inl e, s\<lparr>sh_env := v\<rparr>) | (Inr q, v) \<Rightarrow> (Inr (status_code q = 200), s\<lparr>sh_env := v\<rparr>))"
  by (simp add: app_exists_in_store_def world_res_def act_simps split: prod.split sum.split)

lemma metadata_ok_set_st [simp]: "metadata_ok X fs (set_st n st apps) = metadata_ok X fs apps"
  by (simp add: metadata_ok_def)

lemma on_apps_update_Inr_iff: "fst (on_apps_update X s) = Inr () \<longleftrightarrow> metadata_ok X (sh_fs s) (sh_apps s)"
  using on_apps_update_ok [of X s] on_apps_update_raises [of X s]
  by (cases "metadata_ok X (sh_fs s) (sh_apps s)") auto

lemma on_apps_update_frame:
  "on_apps_update X s = (r, t) \<Longrightarrow>
     sh_apps t = sh_apps s \<and> sh_tasks t = sh_tasks s \<and> sh_fs t = sh_fs s \<and> sh_ran t = sh_ran s \<and> sh_locks t = sh_locks s"
  using moves_keepsD [OF moves_keeps_on_apps_update, of "\<lambda>s. (sh_apps s, sh_tasks s, sh_fs s, sh_ran s, sh_locks s)" X s r t]
  by simp

text \<open>
  A request to install an app from the store is refused, without any effect on the tables and
  the queue, when the store does not have it or it is already installed; otherwise one row in status
  queued and one task are appended, even when the announcement then raises because the metadata of
  another installed app cannot be loaded.
\<close>

theorem install_request_outcome:
  assumes "x_httpx_get X (store_zip_url X n) (sh_env s) = (Inr q, e)"
    and "install_app_from_store X n reason s = (r, t)"
  shows "if status_code q \<noteq> 200 then r = Inl (AppDoesNotExist n) \<and> t = s\<lparr>sh_env := e\<rparr>
    else if tbl_find ia_name n (sh_apps s) \<noteq> None then r = Inl (AppAlreadyInstalled n) \<and> t = s\<lparr>sh_env := e\<rparr>
    else sh_apps t = sh_apps s @ [queued_row n reason]
      \<and> sh_tasks t = sh_tasks s @ [\<lparr>it_app_name = n, it_task_type = Install_From_Store\<rparr>]
      \<and> (r = Inr ()) = metadata_ok X (sh_fs s) (sh_apps s @ [queued_row n reason])"
proof (cases "status_code q = 200 \<and> tbl_find ia_name n (sh_apps s) = None")
  case False
  then show ?thesis
    using assms by (auto simp: install_app_from_store_def app_exists_in_store_apply act_simps)
next
  case True
  let ?u = "s\<lparr>sh_env := e, sh_apps := sh_apps s @ [queued_row n reason],
      sh_tasks := sh_tasks s @ [\<lparr>it_app_name = n, it_task_type = Install_From_Store\<rparr>]\<rparr>"
  have "on_apps_update X ?u = (r, t)"
    using assms True
    by (simp add: install_app_from_store_def app_exists_in_store_apply enqueue_def apps_insert_def
        tbl_insert_def queued_row_def act_simps)
  then show ?thesis
    using True on_apps_update_frame [of X ?u r t] on_apps_update_Inr_iff [of X ?u] by auto
qed

lemma install_request_outcome_witness:
  "install_app_from_store sample_ext ''b'' Reason_STORE (queued_app STOPPED)
     = (Inl (AppDoesNotExist ''b''), (queued_app STOPPED)\<lparr>sh_env := 0\<rparr>)"
proof -
  obtain r t where rt: "install_app_from_store sample_ext ''b'' Reason_STORE (queued_app STOPPED) = (r, t)"
    by (meson surj_pair)
  have "x_httpx_get sample_ext (store_zip_url sample_ext ''b'') (sh_env (queued_app STOPPED))
      = (Inr \<lparr>status_code = 404, body_text = [], body_json = None\<rparr>, 0)"
    by (simp add: sample_ext_def queued_app_def sample_shard_def)
  from install_request_outcome [OF this rt] rt show ?thesis by simp
qed

lemma uninstall_app_Inr:
  assumes "uninstall_app X n s = (Inr (), t)"
  shows "tbl_find ia_name n (sh_apps s) \<noteq> None \<and> sh_apps t = set_st n UNINSTALLATION_QUEUED (sh_apps s)
    \<and> sh_tasks t = sh_tasks s @ [\<lparr>it_app_name = n, it_task_type = Uninstall\<rparr>]
    \<and> sh_ran t = sh_ran s \<and> sh_locks t = sh_locks s \<and> sh_fs t = sh_fs s"
proof -
  obtain a u where a: "tbl_find ia_name n (sh_apps s) = Some a"
    and u: "on_apps_update X (s\<lparr>sh_apps := set_st n UNINSTALLATION_QUEUED (sh_apps s)\<rparr>) = (Inr (), u)"
    and t: "on_apps_update X (u\<lparr>sh_tasks := sh_tasks u @ [\<lparr>it_app_name = n, it_task_type = Uninstall\<rparr>]\<rparr>) = (Inr (), t)"
    using assms
    by (auto simp: uninstall_app_def bnd_Inr_iff seq_Inr_iff act_atoms app_exists_in_db_apply
        update_app_status_apply enqueue_def modify_def split: if_splits)
  show ?thesis
    using a on_apps_update_frame [OF u] on_apps_update_frame [OF t] by simp
qed

lemma teardown_not_unpause:
  fixes v :: "'e shard"
  assumes "map_option ia_status (tbl_find ia_name n (sh_apps v)) \<noteq> Some PAUSED"
  shows "runs_only not_unpause v (snd ((try_except
      (seq (docker_stop_app X n True) (docker_shutdown_app X n True False)) (\<lambda>_. ret ())) v))"
proof -
  obtain p w where w: "docker_stop_app X n True v = (p, w)" by (meson surj_pair)
  have 1: "runs_only not_unpause v w"
    using stop_not_unpause [OF assms, of X True] w by simp
  have "scoped X n STOPPED v w"
    using movesD [OF op_scoped [where oper = Op_Stop, simplified] w] .
  then have "map_option ia_status (tbl_find ia_name n (sh_apps w)) \<noteq> Some PAUSED"
    using assms by (auto simp: scoped_def find_set_st)
  then have 2: "runs_only not_unpause w (snd (docker_shutdown_app X n True False w))"
    by (rule shutdown_not_unpause)
  show ?thesis
    using 1 2 w runs_only.frame_trans [OF 1 2]
    by (auto simp: act_simps split: sum.split prod.split)
qed

lemma removal_not_unpause:
  "moves (runs_only not_unpause)
     (seq (delete_app_dir X n) (seq (db_apps (apps_remove n)) (seq (write_traefik_dyn_config X) (on_apps_update X))))"
  unfolding delete_app_dir_def
  by (intro runs_only.moves_rules runs_only_kept [OF moves_keeps_zoom] runs_only_kept [OF traefik_keeps]
      runs_only_kept [OF moves_keeps_on_apps_update] runs_only_kept [OF moves_keeps_on_fs]) simp_all

lemma mark_not_unpause:
  fixes u :: "'e shard"
  assumes "tbl_find ia_name n (sh_apps u) = Some a" and "ia_status a \<noteq> PAUSED" and "uninstall_mark X n u = (q, v)"
  shows "runs_only not_unpause u v \<and> map_option ia_status (tbl_find ia_name n (sh_apps v)) \<noteq> Some PAUSED"
proof -
  obtain p w where w: "on_apps_update X (u\<lparr>sh_apps := set_st n UNINSTALLING (sh_apps u)\<rparr>) = (p, w)"
    by (meson surj_pair)
  have "v = w"
    using assms w
    by (auto simp: uninstall_mark_def update_app_status_apply act_simps split: sum.splits exn.splits)
  then show ?thesis
    using on_apps_update_frame [OF w] assms(1) by (auto simp: runs_only_def find_set_st)
qed

lemma worker_uninstall_not_unpause:
  fixes u :: "'e shard"
  assumes "tbl_find ia_name n (sh_apps u) = Some a" and "ia_status a \<noteq> PAUSED" and "worker_uninstall X n u = (r, t)"
  shows "runs_only not_unpause u t"
proof (cases "n \<in> set (sh_locks u)")
  case True
  then show ?thesis
    using assms(3) by (simp add: worker_uninstall_def with_lock_def runs_only.frame_refl)
next
  case False
  let ?u = "u\<lparr>sh_locks := n # sh_locks u\<rparr>"
  let ?down = "try_except (seq (docker_stop_app X n True) (docker_shutdown_app X n True False)) (\<lambda>_. ret ())"
  let ?remove = "seq (delete_app_dir X n) (seq (db_apps (apps_remove n))
      (seq (write_traefik_dyn_config X) (on_apps_update X)))"
  obtain q v where v: "uninstall_mark X n ?u = (q, v)" by (meson surj_pair)
  obtain q' v' where v': "?down v = (q', v')" by (meson surj_pair)
  have mark: "runs_only not_unpause ?u v" "map_option ia_status (tbl_find ia_name n (sh_apps v)) \<noteq> Some PAUSED"
    using mark_not_unpause [OF _ assms(2) v] assms(1) by simp_all
  then have "runs_only not_unpause ?u v'"
    using teardown_not_unpause [of n v X] v' runs_only.frame_trans by fastforce
  moreover have "runs_only not_unpause v' (snd (?remove v'))"
    using removal_not_unpause [of X n] unfolding moves_def by blast
  ultimately have "runs_only not_unpause ?u (snd (seq (uninstall_mark X n) (seq ?down ?remove) ?u))"
    using v v' mark(1) runs_only.frame_trans
    by (cases q; cases q') (simp_all add: act_apply(4) [of "uninstall_mark X n"]
        act_apply(4) [of "try_except _ _"], blast)
  then show ?thesis
    using assms(3) False by (auto simp: worker_uninstall_def with_lock_def runs_only_def split: prod.splits)
qed

lemma uninstall_request_returns: "fst (uninstall_app sample_ext ''a'' (queued_app PAUSED)) = Inr ()"
  by code_simp

text \<open>
  C33. A paused app is never unfrozen before it is uninstalled: the request overwrites the status
  the worker looks at, so the branch of the worker that unpauses is not taken, and none of the
  commands it runs is an \<open>unpause\<close>.
\<close>

theorem paused_app_uninstalled_frozen:
  assumes "tbl_find ia_name n (sh_apps s) = Some a" and "ia_status a = PAUSED"
    and "uninstall_app X n s = (Inr (), u)" and "worker_uninstall X n u = (r, t)"
  shows "\<exists>cs. sh_ran t = sh_ran s @ cs \<and> list_all not_unpause cs"
proof -
  note U = uninstall_app_Inr [OF assms(3)]
  have "tbl_find ia_name n (sh_apps u) = Some (a\<lparr>ia_status := UNINSTALLATION_QUEUED\<rparr>)"
    using U assms(1) by (simp add: find_set_st)
  then have "runs_only not_unpause u t"
    by (rule worker_uninstall_not_unpause [OF _ _ assms(4)]) simp
  then show ?thesis using U by (simp add: runs_only_def)
qed

lemma paused_app_uninstalled_frozen_witness:
  "\<exists>u t cs. sh_ran t = sh_ran (queued_app PAUSED) @ cs \<and> list_all not_unpause cs
     \<and> t = snd (worker_uninstall sample_ext ''a'' u)"
proof -
  obtain u where u: "uninstall_app sample_ext ''a'' (queued_app PAUSED) = (Inr (), u)"
    using uninstall_request_returns by (metis prod.collapse)
  obtain r t where t: "worker_uninstall sample_ext ''a'' u = (r, t)" by (meson surj_pair)
  from paused_app_uninstalled_frozen [OF queued_find _ u t] obtain cs where
    "sh_ran t = sh_ran (queued_app PAUSED) @ cs" "list_all not_unpause cs" by auto
  then show ?thesis using t by (intro exI [of _ u] exI [of _ t] exI [of _ cs]) simp
qed

section \<open>Every queued app has its task\<close>

fun wants :: "app_status \<Rightarrow> task_type list" where
  "wants INSTALLATION_QUEUED = [Install_From_Store, Install_From_Zip]"
| "wants UNINSTALLATION_QUEUED = [Uninstall]"
| "wants REINSTALLATION_QUEUED = [Reinstall]"
| "wants _ = []"

lemma wants_cases: "ty \<in> set (wants st) \<Longrightarrow>
    (st = INSTALLATION_QUEUED \<and> ty \<in> {Install_From_Store, Install_From_Zip})
    \<or> (st = UNINSTALLATION_QUEUED \<and> ty = Uninstall) \<or> (st = REINSTALLATION_QUEUED \<and> ty = Reinstall)"
  by (cases st) auto

definition settled_row :: "app_row option \<Rightarrow> bool" where
  "settled_row r \<longleftrightarrow> (case r of None \<Rightarrow> True | Some b \<Rightarrow> wants (ia_status b) = [])"

definition settled :: "string \<Rightarrow> 'e shard \<Rightarrow> bool" where
  "settled n s \<longleftrightarrow> settled_row (tbl_find ia_name n (sh_apps s))"

definition covered :: "install_task list \<Rightarrow> app_row \<Rightarrow> bool" where
  "covered tasks a \<longleftrightarrow> wants (ia_status a) = []
     \<or> list_ex (\<lambda>k. it_app_name k = ia_name a \<and> it_task_type k \<in> set (wants (ia_status a))) tasks"

text \<open>Every app but those in \<open>E\<close> has the task it waits for.\<close>

definition queue_covers :: "string set \<Rightarrow> 'e shard \<Rightarrow> bool" where
  "queue_covers E s \<longleftrightarrow>
     (\<forall>n a. tbl_find ia_name n (sh_apps s) = Some a \<longrightarrow> n \<notin> E \<longrightarrow> covered (sh_tasks s) a)"

lemma covered_append: "covered tasks a \<Longrightarrow> covered (tasks @ ks) a"
  by (auto simp: covered_def)

lemma settled_set_st [simp]: "wants st = [] \<Longrightarrow> settled_row (tbl_find ia_name n (set_st n st apps))"
  by (simp add: settled_row_def find_set_st split: option.split)

lemma settled_scoped:
  assumes "wants st = []" and "moves (scoped X n st) m"
  shows "moves (preserves (settled n)) m"
proof (rule movesI)
  fix s
  have "sh_apps (snd (m s)) = sh_apps s \<or> sh_apps (snd (m s)) = set_st n st (sh_apps s)"
    using assms(2) by (simp add: moves_def scoped_def)
  then show "preserves (settled n) s (snd (m s))"
    using assms(1) by (auto simp: preserves_def settled_def)
qed

lemma settled_rows: "moves (keeps sh_apps) m \<Longrightarrow> moves (preserves (settled n)) m"
  using moves_preserves_keeps [of sh_apps m "\<lambda>apps. settled_row (tbl_find ia_name n apps)"]
  by (simp add: settled_def [abs_def])

lemma settled_remove: "moves (preserves (settled n)) (db_apps (apps_remove n))"
  by (simp add: moves_def preserves_def settled_def apps_remove_def tbl_delete_def act_simps
      tbl_find_filter settled_row_def)

lemma settled_uninstall_rest:
  "moves (preserves (settled n))
     (seq (try_except (seq (docker_stop_app X n True) (docker_shutdown_app X n True False)) (\<lambda>_. ret ()))
     (seq (delete_app_dir X n)
     (seq (db_apps (apps_remove n))
     (seq (write_traefik_dyn_config X)
     (on_apps_update X)))))"
  unfolding delete_app_dir_def
  by (intro preserves.moves_rules settled_remove settled_rows [OF moves_keeps_on_fs] settled_rows [OF traefik_keeps]
      settled_rows [OF moves_keeps_on_apps_update]
      settled_scoped [OF _ op_scoped [where oper = Op_Stop, simplified]]
      settled_scoped [OF _ op_scoped [where oper = Op_Shutdown, simplified]]) simp_all

lemma settled_uninstall_mark:
  assumes "uninstall_mark X n s = (r, t)"
  shows "settled n t"
proof (cases "tbl_find ia_name n (sh_apps s)")
  case None
  then show ?thesis
    using assms by (auto simp: uninstall_mark_def settled_def settled_row_def act_simps)
next
  case (Some a)
  have rows: "sh_apps (snd (on_apps_update X u)) = sh_apps u" for u :: "'a shard"
    by (rule on_apps_update_rows [OF prod.collapse [symmetric]])
  have mark: "moves (preserves (settled n)) (update_app_status X n UNINSTALLING)"
    by (rule movesI) (simp add: preserves_def settled_def update_app_status_apply rows)
  show ?thesis
  proof (cases "ia_status a = PAUSED")
    case True
    have get: "moves (preserves (settled n)) (get_app_from_db n)"
      by (simp add: moves_def preserves_def get_app_from_db_apply split: option.split)
    have "moves (preserves (settled n)) (uninstall_mark X n)"
      unfolding uninstall_mark_def
      by (auto intro!: preserves.moves_rules get mark
          settled_scoped [OF _ op_scoped [where oper = Op_Unpause, simplified]] split: exn.split)
    then show ?thesis
      using assms
    proof (rule moves_preservesD)
      show "settled n s" using Some True by (simp add: settled_def settled_row_def)
    qed
  next
    case False
    obtain q v where v: "on_apps_update X (s\<lparr>sh_apps := set_st n UNINSTALLING (sh_apps s)\<rparr>) = (q, v)"
      by (meson surj_pair)
    have "t = v"
      using Some False assms v
      by (auto simp: uninstall_mark_def update_app_status_apply act_simps split: sum.splits exn.splits)
    then show ?thesis
      using on_apps_update_rows [OF v] by (simp add: settled_def)
  qed
qed

lemma settled_uninstall:
  assumes "n \<notin> set (sh_locks s)" and "worker_uninstall X n s = (r, t)"
  shows "settled n t"
proof -
  let ?s = "s\<lparr>sh_locks := n # sh_locks s\<rparr>"
  let ?rest = "seq (try_except (seq (docker_stop_app X n True) (docker_shutdown_app X n True False)) (\<lambda>_. ret ()))
     (seq (delete_app_dir X n) (seq (db_apps (apps_remove n)) (seq (write_traefik_dyn_config X) (on_apps_update X))))"
  obtain q u where u: "uninstall_mark X n ?s = (q, u)" by (meson surj_pair)
  have "settled n u" using settled_uninstall_mark [OF u] .
  moreover have "preserves (settled n) u (snd (?rest u))"
    using settled_uninstall_rest [of n X] unfolding moves_def by blast
  ultimately have "settled n (snd (seq (uninstall_mark X n) ?rest ?s))"
    using u by (cases q) (simp_all add: act_apply(4) [of "uninstall_mark X n"] preserves_def)
  then show ?thesis
    using assms by (auto simp: worker_uninstall_def with_lock_def settled_def split: prod.splits)
qed

lemma settled_install_or_error:
  assumes "tbl_find ia_name n (sh_apps s) \<noteq> None" and "moves (keeps sh_apps) fetch"
    and "install_or_error X n fetch s = (r, t)"
  shows "settled n t"
  using install_or_error_rows [OF assms] by (auto simp: settled_def)

lemma settled_reinstall:
  assumes a: "tbl_find ia_name n (sh_apps s) = Some a" and st: "ia_status a = REINSTALLATION_QUEUED"
    and run: "worker_reinstall X n s = (r, t)"
  shows "settled n t"
proof (cases "metadata_ok X (sh_fs s) (sh_apps s)")
  case True
  obtain u where u: "worker_reinstall X n s = seq (delete_app_dir X n) (install_or_error X n (download_app_zip X n)) u"
      "sh_apps u = set_st n REINSTALLING (sh_apps s)"
    using reinstall_unfold [OF a st True] by blast
  obtain v where v: "delete_app_dir X n u = (Inr (), v)" "sh_apps v = sh_apps u"
    by (simp add: delete_app_dir_apply)
  then have "install_or_error X n (download_app_zip X n) v = (r, t)"
    using run u by (simp add: act_apply(4))
  then show ?thesis
    by (rule settled_install_or_error [rotated 2]) (simp_all add: u v a find_set_st download_rows)
next
  case False
  let ?s = "s\<lparr>sh_apps := set_st n REINSTALLING (sh_apps s)\<rparr>"
  have "metadata_ok X (sh_fs ?s) (sh_apps ?s) = metadata_ok X (sh_fs s) (sh_apps s)"
    by (simp add: metadata_ok_def)
  then obtain e u where u: "on_apps_update X ?s = (Inl e, u)"
    using on_apps_update_raises [of X ?s] False by (cases "on_apps_update X ?s") auto
  then have "t = u"
    using run a st
    by (simp add: worker_reinstall_def assert_app_status_def update_app_status_apply
        act_apply(3,4) get_app_from_db_apply ret_def)
  then show ?thesis
    using on_apps_update_rows [OF u] by (simp add: settled_def)
qed

text \<open>A task other than an uninstallation does nothing to an app that does not want it.\<close>

lemma unwanted_task:
  assumes "ty \<noteq> Uninstall" and "run_task X ty n s = (r, t)"
    and "\<And>a. tbl_find ia_name n (sh_apps s) = Some a \<Longrightarrow> ty \<notin> set (wants (ia_status a))"
  shows "t = s"
  using assms
  by (cases ty; cases "tbl_find ia_name n (sh_apps s)")
    (auto simp: worker_install_from_store_def worker_install_from_existing_zip_def
      worker_reinstall_def assert_app_status_def act_simps split: if_splits)

text \<open>A task either settles the status of its app or, when it was queued for something else, leaves the row.\<close>

lemma run_task_settles:
  assumes free: "n \<notin> set (sh_locks s)" and run: "run_task X ty n s = (r, t)"
  shows "settled n t \<or> (sh_apps t = sh_apps s
    \<and> (\<forall>a. tbl_find ia_name n (sh_apps s) = Some a \<longrightarrow> ty \<notin> set (wants (ia_status a))))"
proof (cases "\<exists>a. tbl_find ia_name n (sh_apps s) = Some a \<and> ty \<in> set (wants (ia_status a))")
  case False
  then show ?thesis
    using settled_uninstall [OF free, of X r t] unwanted_task [OF _ run] run by (cases "ty = Uninstall") auto
next
  case True
  then obtain a where a: "tbl_find ia_name n (sh_apps s) = Some a" and want: "ty \<in> set (wants (ia_status a))" by blast
  from want consider "ia_status a = INSTALLATION_QUEUED" "ty \<in> {Install_From_Store, Install_From_Zip}"
    | "ty = Uninstall" | "ia_status a = REINSTALLATION_QUEUED" "ty = Reinstall"
    using wants_cases by blast
  then show ?thesis
  proof cases
    case 1
    from install_task_rows [OF 1(2) a 1(1) run] obtain st
      where "sh_apps t = set_st n st (sh_apps s)" "st \<in> {STOPPED, ERROR, INSTALLING}" by (auto split: if_splits)
    then show ?thesis by (auto simp: settled_def)
  next
    case 2
    then show ?thesis using settled_uninstall [OF free] run by simp
  next
    case 3
    then show ?thesis using settled_reinstall [OF a 3(1)] run by simp
  qed
qed

text \<open>The parts of the tasks leave other apps alone.\<close>

lemma task_parts_others:
  "moves (keeps (others n)) (update_app_status X n st)"
  "moves (keeps (others n)) (get_app_from_db n)"
  "moves (keeps sh_apps) fetch \<Longrightarrow> moves (keeps (others n)) (install_or_error X n fetch)"
  "moves (keeps (others n)) (uninstall_mark X n)"
  "moves (keeps (others n)) (delete_app_dir X n)"
  "moves (keeps (others n)) (docker_stop_app X n b)"
  "moves (keeps (others n)) (docker_shutdown_app X n b f)"
  "moves (keeps (others n)) (db_apps (apps_remove n))"
  "moves (keeps (others n)) (write_traefik_dyn_config X)"
  "moves (keeps (others n)) (on_apps_update X)"
proof -
  have upd: "moves (keeps (others n)) (update_app_status X n st)" for st
    using rest_update_app_status [of n X st] by (simp add: moves_def keeps_def)
  then show "moves (keeps (others n)) (update_app_status X n st)" .
  show "moves (keeps (others n)) (get_app_from_db n)"
    by (simp add: moves_def keeps_def get_app_from_db_apply split: option.split)
  have err: "moves (keeps (others n)) (on_app_install_error e n)" for e
    unfolding on_app_install_error_def by (rule moves_keeps_broadcast) (simp add: others_def)
  show "moves (keeps (others n)) (install_or_error X n fetch)" if "moves (keeps sh_apps) fetch"
    unfolding install_or_error_def
    by (intro keeps.moves_rules upd err others_if_rows [OF that] others_if_rows [OF install_app_from_zip_rows])
  show "moves (keeps (others n)) (uninstall_mark X n)"
    using rest_uninstall_mark [of n X] by (simp add: moves_def keeps_def)
  show "moves (keeps (others n)) (delete_app_dir X n)"
    unfolding delete_app_dir_def by (intro keeps.moves_rules moves_keeps_on_fs) (simp add: others_def)
  show "moves (keeps (others n)) (docker_stop_app X n b)"
    unfolding docker_stop_app_def record_app_transition_def
    by (auto intro!: others_scoped [where st = STOPPED and X = X] scoped_rules split: option.split)
  show "moves (keeps (others n)) (docker_shutdown_app X n b f)"
    unfolding docker_shutdown_app_def
    by (auto intro!: others_scoped [where st = DOWN and X = X] scoped_rules)
  show "moves (keeps (others n)) (db_apps (apps_remove n))"
    by (simp add: moves_def keeps_def others_def apps_remove_def tbl_delete_def act_simps)
  show "moves (keeps (others n)) (write_traefik_dyn_config X)"
    by (rule traefik_keeps) (simp add: others_def)
  show "moves (keeps (others n)) (on_apps_update X)"
    by (rule moves_keeps_on_apps_update) (simp_all add: others_def)
qed

lemma run_task_others: "moves (keeps (others n)) (run_task X ty n)"
proof (cases ty)
  case Install_From_Store
  then show ?thesis
    by (auto simp: worker_install_from_store_def assert_app_status_def
        intro!: keeps.moves_rules task_parts_others download_rows)
next
  case Install_From_Zip
  then show ?thesis
    by (auto simp: worker_install_from_existing_zip_def assert_app_status_def
        intro!: keeps.moves_rules task_parts_others)
next
  case Uninstall
  have "moves (keeps (others n)) (worker_uninstall X n)"
    unfolding worker_uninstall_def
    by (intro moves_keeps_with_lock keeps.moves_rules task_parts_others) (simp add: others_def)
  then show ?thesis using Uninstall by simp
next
  case Reinstall
  then show ?thesis
    by (auto simp: worker_reinstall_def assert_app_status_def reinstall_shutdown_def
        intro!: keeps.moves_rules task_parts_others download_rows)
qed

section \<open>The installation machinery as a transition system\<close>

text \<open>
  What can happen to the apps and the queue, in any order: requests, with any outcome; operations on
  containers; the shutdown of apps when the process ends; rounds of the worker, whatever the task
  raises; a restart, which loses the queue and then queues the interrupted uninstallations; and anything
  else that leaves the status of every app and the queue alone, such as the passing of time and changes
  of files.  The set beside the state records which apps may wait without a task, and why: \<open>excuse\<close> adds
  an app when a request has set its status and then raised, because the metadata of some app
  could not be loaded, before it had queued the task, and takes it out with the next request for the app
  that returns; a restart adds the apps that wait for an installation or a reinstallation, whose tasks it
  loses.
\<close>

definition excuse :: "'e ext \<Rightarrow> string \<Rightarrow> 'e shard \<Rightarrow> unit result \<Rightarrow> 'e shard \<Rightarrow> string set \<Rightarrow> string set" where
  "excuse X n s r t E =
     (if r = Inr () then E - {n}
      else if tbl_find ia_name n (sh_apps s) \<noteq> None \<and> \<not> metadata_ok X (sh_fs s) (sh_apps s)
        \<and> sh_apps t \<noteq> sh_apps s then insert n E
      else E)"

definition names_in :: "app_status set \<Rightarrow> 'e shard \<Rightarrow> string set" where
  "names_in sts s = ia_name ` {a \<in> set (sh_apps s). ia_status a \<in> sts}"

definition statuses :: "'e shard \<Rightarrow> (string \<times> app_status) list" where
  "statuses s = map (\<lambda>a. (ia_name a, ia_status a)) (sh_apps s)"

definition new_process :: "'e shard \<Rightarrow> 'e shard" where
  "new_process s = s\<lparr>sh_tasks := [], sh_current_task := None, sh_worker_started := False, sh_locks := []\<rparr>"

inductive install_step :: "'e ext \<Rightarrow> 'e shard \<times> string set \<Rightarrow> 'e shard \<times> string set \<Rightarrow> bool" for X where
  request_store: "install_app_from_store X n reason s = (r, t) \<Longrightarrow> install_step X (s, E) (t, excuse X n s r t E)"
| request_zip: "install_app_from_uploaded_zip X n z reason s = (r, t) \<Longrightarrow>
    install_step X (s, E) (t, excuse X n s r t E)"
| request_uninstall: "uninstall_app X n s = (r, t) \<Longrightarrow> install_step X (s, E) (t, excuse X n s r t E)"
| request_reinstall: "reinstall_app X n s = (r, t) \<Longrightarrow> install_step X (s, E) (t, excuse X n s r t E)"
| container: "op_act X oper n s = (r, t) \<Longrightarrow> install_step X (s, E) (t, E)"
| app_shutdown: "docker_shutdown_app X n b force s = (r, t) \<Longrightarrow> install_step X (s, E) (t, E)"
| worker: "run_worker_step X s = (r, t) \<Longrightarrow> install_step X (s, E) (t, E)"
| restart: "reconcile_interrupted_uninstalls (new_process s) = (r, t) \<Longrightarrow>
    install_step X (s, E)
      (t, (E - names_in {UNINSTALLATION_QUEUED, UNINSTALLING} s) \<union> names_in {INSTALLATION_QUEUED, REINSTALLATION_QUEUED} s)"
| elsewhere: "statuses t = statuses s \<Longrightarrow> sh_tasks t = sh_tasks s \<Longrightarrow> sh_locks t = sh_locks s \<Longrightarrow>
    install_step X (s, E) (t, E)"

text \<open>The invariant: every app that is not excused has its task, and no lock is held between two steps.\<close>

definition queue_inv :: "'e shard \<times> string set \<Rightarrow> bool" where
  "queue_inv c \<longleftrightarrow> (case c of (s, E) \<Rightarrow> queue_covers E s \<and> sh_locks s = [])"

lemma queue_covers_mono: "queue_covers E s \<Longrightarrow> E \<subseteq> F \<Longrightarrow> queue_covers F s"
  by (auto simp: queue_covers_def)

lemma queue_covers_same:
  "queue_covers E s \<Longrightarrow> sh_apps t = sh_apps s \<Longrightarrow> sh_tasks t = sh_tasks s @ ks \<Longrightarrow> queue_covers E t"
  by (simp add: queue_covers_def covered_append)

lemma queue_covers_append_row:
  assumes "queue_covers E s" and "sh_apps t = sh_apps s @ [row]" and "sh_tasks t = sh_tasks s @ ks"
    and "covered (sh_tasks t) row" and "tbl_find ia_name (ia_name row) (sh_apps s) = None"
  shows "queue_covers (E - {ia_name row}) t"
proof -
  have "covered (sh_tasks t) a" if "tbl_find ia_name n (sh_apps t) = Some a" "n \<notin> E - {ia_name row}" for n a
  proof (cases "tbl_find ia_name n (sh_apps s)")
    case None
    then have "a = row" using that assms(2) by (simp add: tbl_find_snoc split: if_splits)
    then show ?thesis using assms(4) by simp
  next
    case (Some b)
    then have "a = b" using that assms(2) by (simp add: tbl_find_snoc)
    moreover have "n \<noteq> ia_name row" using Some assms(5) by auto
    ultimately show ?thesis
      using Some assms(1,3) that(2) by (simp add: queue_covers_def covered_append)
  qed
  then show ?thesis by (simp add: queue_covers_def)
qed

lemma queue_covers_set_st:
  assumes "queue_covers E s" and "sh_apps t = set_st n st (sh_apps s)"
    and "sh_tasks t = sh_tasks s @ ks" and "n \<in> F \<or> (\<exists>k \<in> set ks. it_app_name k = n \<and> it_task_type k \<in> set (wants st))"
    and "E - {n} \<subseteq> F"
  shows "queue_covers F t"
proof -
  have "covered (sh_tasks t) a" if "tbl_find ia_name m (sh_apps t) = Some a" "m \<notin> F" for m a
  proof (cases "m = n")
    case True
    have "ia_name a = n" using tbl_find_key [OF that(1)] True by simp
    moreover have "ia_status a = st"
      using that assms(2) True by (auto simp: find_set_st)
    ultimately show ?thesis using assms(3,4) that(2) True by (auto simp: covered_def list_ex_iff)
  next
    case False
    then have "covered (sh_tasks s) a"
      using that assms(1,2,5) by (auto simp: queue_covers_def find_set_st)
    then show ?thesis by (simp add: assms(3) covered_append)
  qed
  then show ?thesis by (simp add: queue_covers_def)
qed

text \<open>A request to install an app either changes nothing of the rows and the queue, or appends to both.\<close>

lemma install_request_cases:
  assumes "(install_app_from_store X n reason s = (r, t) \<and> ty = Install_From_Store)
    \<or> (install_app_from_uploaded_zip X n z reason s = (r, t) \<and> ty = Install_From_Zip)"
  shows "sh_locks t = sh_locks s
    \<and> ((r \<noteq> Inr () \<and> sh_apps t = sh_apps s \<and> sh_tasks t = sh_tasks s)
      \<or> (tbl_find ia_name n (sh_apps s) = None \<and> sh_apps t = sh_apps s @ [queued_row n reason]
        \<and> sh_tasks t = sh_tasks s @ [\<lparr>it_app_name = n, it_task_type = ty\<rparr>]))"
  using assms
  by (elim disjE conjE)
    (auto simp: install_app_from_store_def install_app_from_uploaded_zip_def app_exists_in_store_apply
      app_exists_in_db_apply enqueue_def apps_insert_def Let_def tbl_insert_def queued_row_def act_simps
      dest!: on_apps_update_frame split: prod.splits sum.splits if_splits)

text \<open>
  A request to uninstall or reinstall an app returns after setting the status and queueing the
  task; or it raises without touching the rows and the queue; or it raises after setting the status.
\<close>

lemma uninstall_request_cases:
  assumes "uninstall_app X n s = (r, t)"
  shows "sh_locks t = sh_locks s
    \<and> ((r = Inr () \<and> sh_apps t = set_st n UNINSTALLATION_QUEUED (sh_apps s)
        \<and> sh_tasks t = sh_tasks s @ [\<lparr>it_app_name = n, it_task_type = Uninstall\<rparr>])
      \<or> (r \<noteq> Inr () \<and> sh_apps t = sh_apps s \<and> sh_tasks t = sh_tasks s)
      \<or> (r \<noteq> Inr () \<and> tbl_find ia_name n (sh_apps s) \<noteq> None \<and> \<not> metadata_ok X (sh_fs s) (sh_apps s)
        \<and> sh_apps t = set_st n UNINSTALLATION_QUEUED (sh_apps s) \<and> sh_tasks t = sh_tasks s))"
proof (cases "tbl_find ia_name n (sh_apps s)")
  case None
  then show ?thesis using assms by (auto simp: uninstall_app_def app_exists_in_db_apply act_simps)
next
  case (Some a)
  let ?s = "s\<lparr>sh_apps := set_st n UNINSTALLATION_QUEUED (sh_apps s)\<rparr>"
  obtain q u where u: "on_apps_update X ?s = (q, u)" by (meson surj_pair)
  have ok: "q = Inr () \<longleftrightarrow> metadata_ok X (sh_fs s) (sh_apps s)"
    using on_apps_update_Inr_iff [of X ?s] u by simp
  let ?v = "u\<lparr>sh_tasks := sh_tasks u @ [\<lparr>it_app_name = n, it_task_type = Uninstall\<rparr>]\<rparr>"
  obtain p w where w: "on_apps_update X ?v = (p, w)" by (meson surj_pair)
  have "p = Inr () \<longleftrightarrow> metadata_ok X (sh_fs s) (sh_apps s)"
    using on_apps_update_Inr_iff [of X ?v] w on_apps_update_frame [OF u] by simp
  then show ?thesis
    using assms Some u w ok on_apps_update_frame [OF u] on_apps_update_frame [OF w]
    by (cases q) (auto simp: uninstall_app_def app_exists_in_db_apply update_app_status_apply enqueue_def act_simps)
qed

lemma reinstall_request_cases:
  assumes "reinstall_app X n s = (r, t)"
  shows "sh_locks t = sh_locks s
    \<and> ((r = Inr () \<and> sh_apps t = set_st n REINSTALLATION_QUEUED (sh_apps s)
        \<and> sh_tasks t = sh_tasks s @ [\<lparr>it_app_name = n, it_task_type = Reinstall\<rparr>])
      \<or> (r \<noteq> Inr () \<and> sh_apps t = sh_apps s \<and> sh_tasks t = sh_tasks s)
      \<or> (r \<noteq> Inr () \<and> tbl_find ia_name n (sh_apps s) \<noteq> None \<and> \<not> metadata_ok X (sh_fs s) (sh_apps s)
        \<and> sh_apps t = set_st n REINSTALLATION_QUEUED (sh_apps s) \<and> sh_tasks t = sh_tasks s))"
proof -
  obtain q v where v: "x_httpx_get X (store_zip_url X n) (sh_env s) = (q, v)" by (meson surj_pair)
  let ?s = "s\<lparr>sh_env := v, sh_apps := set_st n REINSTALLATION_QUEUED (sh_apps s)\<rparr>"
  obtain p u where u: "on_apps_update X ?s = (p, u)" by (meson surj_pair)
  have ok: "p = Inr () \<longleftrightarrow> metadata_ok X (sh_fs s) (sh_apps s)"
    using on_apps_update_Inr_iff [of X ?s] u by simp
  show ?thesis
    using assms v u ok on_apps_update_frame [OF u]
    by (cases q; cases p)
      (auto simp: reinstall_app_def app_exists_in_store_apply app_exists_in_db_apply update_app_status_apply
        enqueue_def act_simps split: if_splits)
qed

lemma request_inv:
  assumes "queue_inv (s, E)" and "sh_locks t = sh_locks s" and "ty \<in> set (wants st)"
    and "(r = Inr () \<and> sh_apps t = set_st n st (sh_apps s)
        \<and> sh_tasks t = sh_tasks s @ [\<lparr>it_app_name = n, it_task_type = ty\<rparr>])
      \<or> (r \<noteq> Inr () \<and> sh_apps t = sh_apps s \<and> sh_tasks t = sh_tasks s)
      \<or> (r \<noteq> Inr () \<and> tbl_find ia_name n (sh_apps s) \<noteq> None \<and> \<not> metadata_ok X (sh_fs s) (sh_apps s)
        \<and> sh_apps t = set_st n st (sh_apps s) \<and> sh_tasks t = sh_tasks s)"
  shows "queue_inv (t, excuse X n s r t E)"
proof -
  have cov: "queue_covers E s" using assms(1) by (simp add: queue_inv_def)
  have "queue_covers (excuse X n s r t E) t"
    using assms(4)
  proof (elim disjE)
    assume *: "r = Inr () \<and> sh_apps t = set_st n st (sh_apps s)
        \<and> sh_tasks t = sh_tasks s @ [\<lparr>it_app_name = n, it_task_type = ty\<rparr>]"
    show ?thesis
      by (rule queue_covers_set_st [OF cov, of t n st "[\<lparr>it_app_name = n, it_task_type = ty\<rparr>]"])
        (use * assms(3) in \<open>simp_all add: excuse_def\<close>)
  next
    assume "r \<noteq> Inr () \<and> sh_apps t = sh_apps s \<and> sh_tasks t = sh_tasks s"
    then show ?thesis using queue_covers_same [OF cov, of t "[]"] by (simp add: excuse_def)
  next
    assume *: "r \<noteq> Inr () \<and> tbl_find ia_name n (sh_apps s) \<noteq> None \<and> \<not> metadata_ok X (sh_fs s) (sh_apps s)
        \<and> sh_apps t = set_st n st (sh_apps s) \<and> sh_tasks t = sh_tasks s"
    show ?thesis
    proof (cases "sh_apps t = sh_apps s")
      case True
      then show ?thesis using * queue_covers_same [OF cov, of t "[]"] by (simp add: excuse_def)
    next
      case False
      show ?thesis
        by (rule queue_covers_set_st [OF cov, of t n st "[]"]) (use * False in \<open>auto simp: excuse_def\<close>)
    qed
  qed
  then show ?thesis using assms(1,2) by (simp add: queue_inv_def)
qed

lemma install_request_inv:
  assumes "queue_inv (s, E)" and "sh_locks t = sh_locks s" and "ty \<in> set (wants INSTALLATION_QUEUED)"
    and "(r \<noteq> Inr () \<and> sh_apps t = sh_apps s \<and> sh_tasks t = sh_tasks s)
      \<or> (tbl_find ia_name n (sh_apps s) = None \<and> sh_apps t = sh_apps s @ [queued_row n reason]
        \<and> sh_tasks t = sh_tasks s @ [\<lparr>it_app_name = n, it_task_type = ty\<rparr>])"
  shows "queue_inv (t, excuse X n s r t E)"
proof -
  have cov: "queue_covers E s" using assms(1) by (simp add: queue_inv_def)
  have "queue_covers (excuse X n s r t E) t"
    using assms(4)
  proof
    assume "r \<noteq> Inr () \<and> sh_apps t = sh_apps s \<and> sh_tasks t = sh_tasks s"
    then show ?thesis using queue_covers_same [OF cov, of t "[]"] by (simp add: excuse_def)
  next
    assume *: "tbl_find ia_name n (sh_apps s) = None \<and> sh_apps t = sh_apps s @ [queued_row n reason]
        \<and> sh_tasks t = sh_tasks s @ [\<lparr>it_app_name = n, it_task_type = ty\<rparr>]"
    have "queue_covers (E - {ia_name (queued_row n reason)}) t"
      by (rule queue_covers_append_row [OF cov, of t "queued_row n reason" "[\<lparr>it_app_name = n, it_task_type = ty\<rparr>]"])
        (use * assms(3) in \<open>auto simp: covered_def queued_row_def\<close>)
    then show ?thesis
      by (rule queue_covers_mono) (use * in \<open>auto simp: excuse_def queued_row_def\<close>)
  qed
  then show ?thesis using assms(1,2) by (simp add: queue_inv_def)
qed

lemma queue_view_op: "moves (keeps queue_view) (op_act X oper n)"
proof (cases oper)
  case Op_Start
  have state: "moves (keeps queue_view) (get_app_container_state X n)"
    unfolding get_app_container_state_def by (auto intro!: tasks_rules split: exn.split)
  have up: "moves (keeps queue_view) (compose_up X n)"
    unfolding compose_up_def by (auto intro!: tasks_rules split: exn.split)
  have mark: "moves (keeps queue_view) (mark_running X n)"
    unfolding mark_running_def set_status_row_def by (auto intro!: tasks_rules)
  have unp: "moves (keeps queue_view) (do_unpause X n)"
    unfolding do_unpause_def record_unpause_latency_def record_app_transition_def metrics_def
    by (auto intro!: tasks_rules)
  have "moves (keeps queue_view) (start_app X n)"
    unfolding start_app_def throttle_def start_app_unthrottled_def revive_def db_status_def
    by (auto intro!: tasks_rules state up mark unp split: option.split container_state.split exn.split)
  then show ?thesis using Op_Start by simp
next
  case Op_Pause
  have "moves (keeps queue_view) (docker_pause_app X n)"
    unfolding docker_pause_app_def db_status_def set_status_row_def reclaim_compose_stack_def reclaim_container_def
      record_pause_latency_def record_app_transition_def metrics_def
    by (auto intro!: tasks_rules tasks_container_op split: option.split)
  then show ?thesis using Op_Pause by simp
qed (simp_all add: tasks_unpause tasks_stop tasks_shutdown)

lemma status_change_inv:
  assumes "queue_inv (s, E)" and "queue_view t = queue_view s" and "wants st = []"
    and "sh_apps t = sh_apps s \<or> sh_apps t = set_st n st (sh_apps s)"
  shows "queue_inv (t, E)"
proof -
  have "covered ks (a\<lparr>ia_status := st\<rparr>)" for ks a using assms(3) by (simp add: covered_def)
  then have "queue_covers E t"
    using assms unfolding queue_covers_def queue_inv_def
    by (elim disjE) (simp, auto simp: find_set_st split: if_splits)
  then show ?thesis using assms(1,2) by (simp add: queue_inv_def)
qed

lemma shutdown_scoped: "moves (scoped X n DOWN) (docker_shutdown_app X n b force)"
  unfolding docker_shutdown_app_def by (auto intro!: scoped_rules)

lemma worker_inv:
  assumes inv: "queue_inv (s, E)" and run: "run_worker_step X s = (r, t)"
  shows "queue_inv (t, E)"
proof (cases "sh_tasks s")
  case Nil
  then show ?thesis using assms run_worker_step_Nil [OF Nil, of X] by simp
next
  case (Cons k ks)
  let ?n = "it_app_name k" and ?s = "s\<lparr>sh_tasks := ks, sh_current_task := Some k\<rparr>"
  have cov: "queue_covers E s" and free: "sh_locks s = []" using inv by (simp_all add: queue_inv_def)
  obtain q u where u: "run_task X (it_task_type k) ?n ?s = (q, u)" by (meson surj_pair)
  have t: "t = u\<lparr>sh_current_task := None\<rparr>"
    using run_worker_step_Cons [OF Cons u] run by simp
  have view: "sh_tasks u = ks" "sh_locks u = []"
    using moves_keepsD [OF run_task_keeps_queue u] free by simp_all
  have others: "others_of ?n (sh_apps u) = others_of ?n (sh_apps s)"
    using moves_keepsD [OF run_task_others u] by (simp add: others_def)
  have own: "settled ?n u \<or> (sh_apps u = sh_apps s
      \<and> (\<forall>a. tbl_find ia_name ?n (sh_apps s) = Some a \<longrightarrow> it_task_type k \<notin> set (wants (ia_status a))))"
    using run_task_settles [OF _ u] free by simp
  have "covered ks a" if a: "tbl_find ia_name m (sh_apps u) = Some a" and m: "m \<notin> E" for m a
  proof (cases "m = ?n \<and> settled ?n u")
    case True
    then show ?thesis using a by (simp add: settled_def settled_row_def covered_def)
  next
    case False
    have same: "tbl_find ia_name m (sh_apps s) = Some a"
      using False others own a by (auto simp: others_of_def fun_eq_iff split: if_splits)
    then have "covered (k # ks) a"
      using cov m Cons unfolding queue_covers_def by metis
    moreover have "ia_name a = m" using a by (rule tbl_find_key)
    ultimately show ?thesis using False own same by (auto simp: covered_def)
  qed
  then show ?thesis by (simp add: queue_inv_def queue_covers_def t view)
qed

definition interrupted :: "app_row \<Rightarrow> bool" where
  "interrupted a \<longleftrightarrow> ia_status a \<in> {UNINSTALLATION_QUEUED, UNINSTALLING}"

lemma for_each_enqueue:
  "for_each (\<lambda>a. if ia_status a \<notin> set [UNINSTALLATION_QUEUED, UNINSTALLING] then ret ()
      else enqueue \<lparr>it_app_name = ia_name a, it_task_type = Uninstall\<rparr>) apps s =
   (Inr (), s\<lparr>sh_tasks := sh_tasks s @
      map (\<lambda>a. \<lparr>it_app_name = ia_name a, it_task_type = Uninstall\<rparr>) (filter interrupted apps)\<rparr>)"
  by (induction apps arbitrary: s) (simp_all add: enqueue_def interrupted_def act_simps)

lemma reconcile_apply:
  "reconcile_interrupted_uninstalls s =
     (Inr (), s\<lparr>sh_tasks := sh_tasks s @
        map (\<lambda>a. \<lparr>it_app_name = ia_name a, it_task_type = Uninstall\<rparr>) (filter interrupted (sh_apps s))\<rparr>)"
  using for_each_enqueue [of "sh_apps s" s]
  by (simp add: reconcile_interrupted_uninstalls_def apps_get_all_def act_apply(3,5) zoom_apply)

lemma restart_inv:
  assumes "reconcile_interrupted_uninstalls (new_process s) = (r, t)"
  shows "queue_inv (t, (E - names_in {UNINSTALLATION_QUEUED, UNINSTALLING} s)
    \<union> names_in {INSTALLATION_QUEUED, REINSTALLATION_QUEUED} s)"
proof -
  let ?ks = "map (\<lambda>a. \<lparr>it_app_name = ia_name a, it_task_type = Uninstall\<rparr>) (filter interrupted (sh_apps s))"
  have t: "sh_apps t = sh_apps s" "sh_tasks t = ?ks" "sh_locks t = []"
    using assms by (auto simp: reconcile_apply new_process_def)
  have "covered ?ks a" if row: "tbl_find ia_name n (sh_apps s) = Some a"
    and n: "n \<notin> names_in {INSTALLATION_QUEUED, REINSTALLATION_QUEUED} s" for n a
  proof -
    have "a \<in> set (sh_apps s)" and "ia_name a = n"
      using row unfolding tbl_find_def by (auto dest: find_SomeD)
    then show ?thesis
      using n by (cases "ia_status a") (auto simp: covered_def list_ex_iff interrupted_def names_in_def)
  qed
  then show ?thesis by (simp add: queue_inv_def queue_covers_def t)
qed

lemma status_row: "map_option ia_status (tbl_find ia_name n (sh_apps s)) = map_of (statuses s) n"
proof -
  have "map_option ia_status (tbl_find ia_name n rows) = map_of (map (\<lambda>a. (ia_name a, ia_status a)) rows) n" for rows
    by (induction rows) (simp_all add: tbl_find_def)
  then show ?thesis by (simp add: statuses_def)
qed

lemma elsewhere_inv:
  assumes "queue_inv (s, E)" and same: "statuses t = statuses s"
    and view: "sh_tasks t = sh_tasks s" "sh_locks t = sh_locks s"
  shows "queue_inv (t, E)"
proof -
  have "covered (sh_tasks t) a" if a: "tbl_find ia_name n (sh_apps t) = Some a" and n: "n \<notin> E" for n a
  proof -
    have "map_option ia_status (tbl_find ia_name n (sh_apps s)) = Some (ia_status a)"
      using a status_row [of n t] status_row [of n s] same by simp
    then obtain b where b: "tbl_find ia_name n (sh_apps s) = Some b" "ia_status b = ia_status a" by auto
    have "covered (sh_tasks s) b"
      using assms(1) b(1) n by (simp add: queue_inv_def queue_covers_def)
    then show ?thesis
      using b tbl_find_key [OF b(1)] tbl_find_key [OF a] view(1) by (simp add: covered_def)
  qed
  then show ?thesis using assms(1) view(2) by (simp add: queue_inv_def queue_covers_def)
qed

lemma install_step_inv: "install_step X c d \<Longrightarrow> queue_inv c \<Longrightarrow> queue_inv d"
proof (induction rule: install_step.induct)
  case (request_store n reason s r t E)
  then show ?case
    using install_request_cases [of X n reason s r t Install_From_Store]
      install_request_inv [of s E t Install_From_Store r n reason X] by simp
next
  case (request_zip n z reason s r t E)
  then show ?case
    using install_request_cases [of X n reason s r t Install_From_Zip z]
      install_request_inv [of s E t Install_From_Zip r n reason X] by simp
next
  case (request_uninstall n s r t E)
  then show ?case
    using uninstall_request_cases [of X n s r t] request_inv [of s E t Uninstall UNINSTALLATION_QUEUED r n X] by simp
next
  case (request_reinstall n s r t E)
  then show ?case
    using reinstall_request_cases [of X n s r t] request_inv [of s E t Reinstall REINSTALLATION_QUEUED r n X] by simp
next
  case (container oper n s r t E)
  have "wants (op_target oper) = []" by (cases oper) simp_all
  then show ?case
    using status_change_inv [OF container.prems moves_keepsD [OF queue_view_op container.hyps], of "op_target oper" n]
      movesD [OF op_scoped container.hyps] by (simp add: scoped_def)
next
  case (app_shutdown n b force s r t E)
  then show ?case
    using status_change_inv [OF app_shutdown.prems moves_keepsD [OF tasks_shutdown app_shutdown.hyps], of DOWN n]
      movesD [OF shutdown_scoped app_shutdown.hyps] by (simp add: scoped_def)
next
  case (worker s r t E)
  then show ?case by (blast intro: worker_inv)
next
  case (restart s r t E)
  show ?case using restart.hyps by (rule restart_inv)
next
  case (elsewhere t s E)
  then show ?case by (blast intro: elsewhere_inv)
qed

lemma install_steps_inv: "(install_step X)\<^sup>*\<^sup>* c d \<Longrightarrow> queue_inv c \<Longrightarrow> queue_inv d"
  by (induction rule: rtranclp_induct) (auto intro: install_step_inv)

text \<open>
  C8. No queued app is stuck without a task, with two exceptions that the theorem names: whatever
  requests, operations on containers, rounds of the worker and restarts have come, with whatever
  outcome, every app in one of the three queued statuses has a task of the right kind in the queue, unless
  a request for it raised between setting the status and queueing the task, because the metadata of some
  app could not be loaded, or a restart lost the queue while it waited for an installation or a
  reinstallation.  So once the queue has been worked off, no other app is left waiting; and no lock of an
  app is held between two steps, so that the worker never has to wait for one.
\<close>

theorem no_queued_app_forgotten:
  assumes "(install_step X)\<^sup>*\<^sup>* (s, E) (t, F)" and "queue_covers E s" and "sh_locks s = []"
  shows "queue_covers F t \<and> (sh_tasks t = [] \<longrightarrow> (\<forall>n. n \<notin> F \<longrightarrow> settled n t)) \<and> sh_locks t = []"
proof -
  have "queue_inv (t, F)"
    using install_steps_inv [OF assms(1)] assms(2,3) by (simp add: queue_inv_def)
  then show ?thesis
    by (auto simp: queue_inv_def queue_covers_def settled_def settled_row_def covered_def split: option.split)
qed

text \<open>
  The app is asked to be uninstalled, the process restarts, and the worker takes a round: no app is
  excused, and none is left waiting.
\<close>

lemma no_queued_app_forgotten_witness:
  "\<exists>t. (install_step sample_ext)\<^sup>*\<^sup>* (queued_app PAUSED, {}) (t, {}) \<and> sh_tasks t = [] \<and> settled ''a'' t"
proof -
  obtain r u where u: "uninstall_app sample_ext ''a'' (queued_app PAUSED) = (r, u)" by (meson surj_pair)
  have r: "r = Inr ()" using u by (metis fst_conv uninstall_request_returns)
  note U = uninstall_app_Inr [OF u [unfolded r]]
  have apps: "sh_apps u = [\<lparr>ia_name = ''a'', ia_reason = Reason_STORE, ia_status = UNINSTALLATION_QUEUED,
      ia_last_access = None\<rparr>]"
    using U by (simp add: queued_app_def set_st_def)
  obtain q v where v: "reconcile_interrupted_uninstalls (new_process u) = (q, v)" by (meson surj_pair)
  then have tasks: "sh_tasks v = [\<lparr>it_app_name = ''a'', it_task_type = Uninstall\<rparr>]"
    using apps by (auto simp: reconcile_apply new_process_def interrupted_def)
  obtain p w where w: "run_worker_step sample_ext v = (p, w)" by (meson surj_pair)
  have "sh_tasks w = []"
  proof -
    obtain p' z where "run_task sample_ext Uninstall ''a'' (v\<lparr>sh_tasks := [],
        sh_current_task := Some \<lparr>it_app_name = ''a'', it_task_type = Uninstall\<rparr>\<rparr>) = (p', z)" by (meson surj_pair)
    then show ?thesis using run_worker_step_Cons [OF tasks, of sample_ext p' z] w by simp
  qed
  have "install_step sample_ext (queued_app PAUSED, {}) (u, {})"
    using request_uninstall [OF u, of "{}"] r by (simp add: excuse_def)
  moreover have "install_step sample_ext (u, {}) (v, {})"
  proof -
    have "names_in {INSTALLATION_QUEUED, REINSTALLATION_QUEUED} u = {}"
      using apps by (auto simp: names_in_def)
    then show ?thesis using restart [OF v, of sample_ext "{}"] by simp
  qed
  moreover have "install_step sample_ext (v, {}) (w, {})"
    using w by (rule worker)
  ultimately have steps: "(install_step sample_ext)\<^sup>*\<^sup>* (queued_app PAUSED, {}) (w, {})"
    by (meson converse_rtranclp_into_rtranclp rtranclp.rtrancl_refl)
  have "queue_covers {} (queued_app PAUSED)" "sh_locks (queued_app PAUSED) = []"
    by (auto simp: queue_covers_def queued_app_def sample_shard_def tbl_find_def covered_def split: if_splits)
  from no_queued_app_forgotten [OF steps this] show ?thesis
    using steps \<open>sh_tasks w = []\<close> by blast
qed

text \<open>
  The exceptions are real.  A request to uninstall an app, while the metadata of some installed app cannot
  be loaded, marks the app and raises before it queues anything.
\<close>

lemma uninstall_request_strands:
  assumes "tbl_find ia_name n (sh_apps s) = Some a" and "\<not> metadata_ok X (sh_fs s) (sh_apps s)"
    and "uninstall_app X n s = (r, t)"
  shows "r \<noteq> Inr () \<and> sh_apps t = set_st n UNINSTALLATION_QUEUED (sh_apps s) \<and> sh_tasks t = sh_tasks s"
proof -
  let ?s = "s\<lparr>sh_apps := set_st n UNINSTALLATION_QUEUED (sh_apps s)\<rparr>"
  obtain q u where u: "on_apps_update X ?s = (q, u)" by (meson surj_pair)
  have "q \<noteq> Inr ()" using on_apps_update_Inr_iff [of X ?s] u assms(2) by simp
  then show ?thesis
    using assms u on_apps_update_frame [OF u]
    by (cases q) (auto simp: uninstall_app_def app_exists_in_db_apply update_app_status_apply act_simps)
qed

text \<open>
  When the process ends, every app is shut down with force, and one that waits for its uninstallation is
  then marked as down, so that the next start does not resume the uninstallation.
\<close>

lemma shutdown_forgets_uninstallation:
  assumes "tbl_find ia_name n (sh_apps s) = Some a" and "docker_shutdown_app X n True True s = (Inr (), t)"
  shows "tbl_find ia_name n (sh_apps t) = Some (a\<lparr>ia_status := DOWN\<rparr>)"
proof -
  let ?unpause = "if ia_status a = PAUSED then run_compose X n [''unpause''] else ret ()"
  obtain u v w where u: "?unpause s = (Inr (), u)" and v: "run_compose X n [''down''] u = (Inr (), v)"
    and w: "set_status_row n DOWN v = (Inr (), w)" and t: "on_apps_update X w = (Inr (), t)"
    using assms by (auto simp: docker_shutdown_app_def bnd_Inr_iff seq_Inr_iff db_status_apply)
  have compose: "moves (keeps sh_apps) (run_compose X n args)" for args
    by (rule run_compose_keeps) simp_all
  have "moves (keeps sh_apps) ?unpause" by (intro keeps.moves_rules compose)
  from moves_keepsD [OF this u] moves_keepsD [OF compose v] have "sh_apps v = sh_apps s" by simp
  moreover have "sh_apps w = set_st n DOWN (sh_apps v)"
    using w by (auto simp: set_status_row_apply)
  ultimately show ?thesis
    using on_apps_update_frame [OF t] assms(1) by (simp add: find_set_st)
qed

text \<open>
  A restart resumes every interrupted uninstallation: from an empty queue, the tasks queued are one
  uninstallation for each app whose uninstallation was asked for or under way, in the order of the
  rows, and nothing else changes; apps that waited for an installation get no task.
\<close>

theorem reconcile_resumes:
  assumes "sh_tasks s = []"
  shows "reconcile_interrupted_uninstalls s =
      (Inr (), s\<lparr>sh_tasks := map (\<lambda>a. \<lparr>it_app_name = ia_name a, it_task_type = Uninstall\<rparr>)
         (filter interrupted (sh_apps s))\<rparr>)"
  by (simp add: reconcile_apply assms)

end
