(* ===== verification/Db_Snapshot.thy ===== *)
theory Db_Snapshot
  imports State
begin

text \<open>
  \<open>database/db_snapshot.py\<close>: the dump of every table to one JSON file before a backup, and its restore on
  a fresh shard, which inserts rows given as dictionaries; the columns, their types, defaults and
  keys are those of \<open>migrations/shard-core-0001-init.sql\<close>.  A status, icon or reason outside its
  enumeration is refused here when the row is inserted; the program stores the text and refuses it
  when the row is read.
\<close>

section \<open>Values of the enumerations\<close>

fun reason_value :: "installation_reason \<Rightarrow> string" where
  "reason_value Reason_UNKNOWN = ''unknown''"
| "reason_value Reason_CONFIG = ''config''"
| "reason_value Reason_CUSTOM = ''custom''"
| "reason_value Reason_STORE = ''store''"

fun icon_value :: "icon \<Rightarrow> string" where
  "icon_value Icon_UNKNOWN = ''unknown''"
| "icon_value Icon_SMARTPHONE = ''smartphone''"
| "icon_value Icon_TABLET = ''tablet''"
| "icon_value Icon_NOTEBOOK = ''notebook''"
| "icon_value Icon_DESKTOP = ''desktop''"

fun tour_status_value :: "tour_status \<Rightarrow> string" where
  "tour_status_value SEEN = ''seen''"
| "tour_status_value UNSEEN = ''unseen''"

definition member_of :: "('a \<Rightarrow> string) \<Rightarrow> 'a list \<Rightarrow> string \<Rightarrow> 'a result" where
  "member_of val xs s = (case find (\<lambda>x. val x = s) xs of None \<Rightarrow> Inl ValidationError | Some x \<Rightarrow> Inr x)"

definition reason_of :: "string \<Rightarrow> installation_reason result" where
  "reason_of = member_of reason_value [Reason_UNKNOWN, Reason_CONFIG, Reason_CUSTOM, Reason_STORE]"

definition status_of :: "string \<Rightarrow> app_status result" where
  "status_of =
     member_of status_value
       [UNKNOWN, INSTALLATION_QUEUED, INSTALLING, STOPPED, RUNNING, PAUSED, UNINSTALLATION_QUEUED,
        UNINSTALLING, REINSTALLATION_QUEUED, REINSTALLING, DOWN, ERROR]"

definition icon_of :: "string \<Rightarrow> icon result" where
  "icon_of = member_of icon_value [Icon_UNKNOWN, Icon_SMARTPHONE, Icon_TABLET, Icon_NOTEBOOK, Icon_DESKTOP]"

definition tour_status_of :: "string \<Rightarrow> tour_status result" where
  "tour_status_of = member_of tour_status_value [SEEN, UNSEEN]"

lemma enum_of_value [simp]:
  "reason_of (reason_value r) = Inr r"
  "status_of (status_value st) = Inr st"
  "icon_of (icon_value i) = Inr i"
  "tour_status_of (tour_status_value ts) = Inr ts"
     apply (cases r; simp add: reason_of_def member_of_def)
    apply (cases st; simp add: status_of_def member_of_def)
   apply (cases i; simp add: icon_of_def member_of_def)
  apply (cases ts; simp add: tour_status_of_def member_of_def)
  done

section \<open>Rows as dictionaries\<close>

text \<open>What the cursor's \<open>dict_row\<close> factory returns for \<open>SELECT *\<close>.\<close>

definition app_dict :: "app_row \<Rightarrow> dict" where
  "app_dict r =
     [(''name'', JStr (ia_name r)), (''installation_reason'', JStr (reason_value (ia_reason r))),
      (''status'', JStr (status_value (ia_status r))), (''last_access'', or_null JTime (ia_last_access r))]"

definition identity_dict :: "identity_row \<Rightarrow> dict" where
  "identity_dict r =
     [(''id'', JStr (id_id r)), (''name'', or_null JStr (id_name r)), (''email'', or_null JStr (id_email r)),
      (''description'', or_null JStr (id_description r)),
      (''private_key'', or_null JStr (id_private_key r)), (''is_default'', JBool (id_is_default r))]"

definition terminal_dict :: "terminal_row \<Rightarrow> dict" where
  "terminal_dict r =
     [(''id'', JStr (tm_id r)), (''name'', JStr (tm_name r)), (''icon'', JStr (icon_value (tm_icon r))),
      (''last_connection'', or_null JTime (tm_last_connection r))]"

definition peer_dict :: "peer_row \<Rightarrow> dict" where
  "peer_dict r =
     [(''id'', JStr (pe_id r)), (''name'', or_null JStr (pe_name r)),
      (''public_bytes_b64'', or_null JStr (pe_public_bytes_b64 r)),
      (''is_reachable'', or_null JBool (pe_is_reachable r))]"

definition backup_dict :: "backup_row \<Rightarrow> dict" where
  "backup_dict r =
     [(''id'', JInt (bk_id r)), (''directories'', bk_directories r),
      (''start_time'', or_null JTime (bk_start_time r)), (''end_time'', or_null JTime (bk_end_time r))]"

definition tour_dict :: "tour_row \<Rightarrow> dict" where
  "tour_dict r = [(''name'', JStr (to_name r)), (''status'', JStr (tour_status_value (to_status r)))]"

definition usage_dict :: "usage_row \<Rightarrow> dict" where
  "usage_dict r =
     [(''id'', JInt (us_id r)), (''timestamp'', JTime (us_timestamp r)),
      (''installed_apps'', us_installed_apps r)]"

definition kv_dict :: "string \<times> json \<Rightarrow> dict" where
  "kv_dict kv = [(''key'', JStr (fst kv)), (''value'', snd kv)]"

text \<open>The tables of the schema with those of the migration tool, in the order of their names.\<close>

definition SCHEMA_TABLES :: "string list" where
  "SCHEMA_TABLES =
     [''_yoyo_log'', ''_yoyo_migration'', ''_yoyo_version'', ''app_usage_tracks'', ''backups'',
      ''identities'', ''installed_apps'', ''kv_store'', ''peers'', ''terminals'', ''tours'', ''yoyo_lock'']"

definition list_data_tables :: "string list" where
  "list_data_tables = filter (\<lambda>t. \<not> like ''%yoyo%'' t) SCHEMA_TABLES"

definition select_all :: "'e shard \<Rightarrow> string \<Rightarrow> dict list" where
  "select_all s t =
     (if t = ''app_usage_tracks'' then map usage_dict (se_rows (sh_usage s))
      else if t = ''backups'' then map backup_dict (se_rows (sh_backups s))
      else if t = ''identities'' then map identity_dict (sh_identities s)
      else if t = ''installed_apps'' then map app_dict (sh_apps s)
      else if t = ''kv_store'' then map kv_dict (sh_kv s)
      else if t = ''peers'' then map peer_dict (sh_peers s)
      else if t = ''terminals'' then map terminal_dict (sh_terminals s)
      else if t = ''tours'' then map tour_dict (sh_tours s)
      else [])"

section \<open>Inserting a dictionary\<close>

definition column :: "dict \<Rightarrow> string \<Rightarrow> json \<Rightarrow> json" where
  "column d k dflt = (case map_of d k of None \<Rightarrow> dflt | Some v \<Rightarrow> v)"

definition not_null :: "'a option result \<Rightarrow> 'a result" where
  "not_null r =
     bind_res r (\<lambda>v. case v of None \<Rightarrow> Inl (OtherError ''NotNullViolation'') | Some x \<Rightarrow> Inr x)"

fun bool_cell :: "json \<Rightarrow> bool option result" where
  "bool_cell (JBool b) = Inr (Some b)"
| "bool_cell JNull = Inr None"
| "bool_cell _ = Inl (OtherError ''DataError'')"

fun time_cell :: "'e ext \<Rightarrow> json \<Rightarrow> real option result" where
  "time_cell X (JTime t) = Inr (Some t)"
| "time_cell X JNull = Inr None"
| "time_cell X (JStr s) =
     (case x_pg_timestamp X s of None \<Rightarrow> Inl (OtherError ''DataError'') | Some t \<Rightarrow> Inr (Some t))"
| "time_cell X _ = Inl (OtherError ''DataError'')"

fun serial_cell :: "json \<Rightarrow> int result" where
  "serial_cell (JInt i) = Inr i"
| "serial_cell JNull = Inl (OtherError ''NotNullViolation'')"
| "serial_cell _ = Inl (OtherError ''DataError'')"

definition known_columns :: "string list \<Rightarrow> dict \<Rightarrow> unit result" where
  "known_columns cs d =
     (if list_all (\<lambda>kv. fst kv \<in> set cs) d then Inr () else Inl (OtherError ''UndefinedColumn''))"

definition app_of_dict :: "'e ext \<Rightarrow> dict \<Rightarrow> app_row result" where
  "app_of_dict X d =
     bind_res (known_columns [''name'', ''installation_reason'', ''status'', ''last_access''] d) (\<lambda>_.
     bind_res (not_null (text_cell (column d ''name'' JNull))) (\<lambda>n.
     bind_res (bind_res (not_null (text_cell (column d ''installation_reason'' (JStr ''unknown'')))) reason_of) (\<lambda>r.
     bind_res (bind_res (not_null (text_cell (column d ''status'' (JStr ''unknown'')))) status_of) (\<lambda>st.
     bind_res (time_cell X (column d ''last_access'' JNull)) (\<lambda>t.
     Inr \<lparr>ia_name = n, ia_reason = r, ia_status = st, ia_last_access = t\<rparr>)))))"

definition identity_of_dict :: "dict \<Rightarrow> identity_row result" where
  "identity_of_dict d =
     bind_res (known_columns [''id'', ''name'', ''email'', ''description'', ''private_key'', ''is_default''] d) (\<lambda>_.
     bind_res (not_null (text_cell (column d ''id'' JNull))) (\<lambda>i.
     bind_res (text_cell (column d ''name'' JNull)) (\<lambda>n.
     bind_res (text_cell (column d ''email'' JNull)) (\<lambda>e.
     bind_res (text_cell (column d ''description'' JNull)) (\<lambda>ds.
     bind_res (text_cell (column d ''private_key'' JNull)) (\<lambda>k.
     bind_res (not_null (bool_cell (column d ''is_default'' (JBool False)))) (\<lambda>b.
     Inr \<lparr>id_id = i, id_name = n, id_email = e, id_description = ds, id_private_key = k,
          id_is_default = b\<rparr>)))))))"

definition terminal_of_dict :: "'e ext \<Rightarrow> dict \<Rightarrow> terminal_row result" where
  "terminal_of_dict X d =
     bind_res (known_columns [''id'', ''name'', ''icon'', ''last_connection''] d) (\<lambda>_.
     bind_res (not_null (text_cell (column d ''id'' JNull))) (\<lambda>i.
     bind_res (not_null (text_cell (column d ''name'' JNull))) (\<lambda>n.
     bind_res (bind_res (not_null (text_cell (column d ''icon'' (JStr ''unknown'')))) icon_of) (\<lambda>ic.
     bind_res (time_cell X (column d ''last_connection'' JNull)) (\<lambda>t.
     Inr \<lparr>tm_id = i, tm_name = n, tm_icon = ic, tm_last_connection = t\<rparr>)))))"

definition peer_of_dict :: "dict \<Rightarrow> peer_row result" where
  "peer_of_dict d =
     bind_res (known_columns [''id'', ''name'', ''public_bytes_b64'', ''is_reachable''] d) (\<lambda>_.
     bind_res (not_null (text_cell (column d ''id'' JNull))) (\<lambda>i.
     bind_res (text_cell (column d ''name'' JNull)) (\<lambda>n.
     bind_res (text_cell (column d ''public_bytes_b64'' JNull)) (\<lambda>p.
     bind_res (bool_cell (column d ''is_reachable'' (JBool True))) (\<lambda>b.
     Inr \<lparr>pe_id = i, pe_name = n, pe_public_bytes_b64 = p, pe_is_reachable = b\<rparr>)))))"

definition tour_of_dict :: "dict \<Rightarrow> tour_row result" where
  "tour_of_dict d =
     bind_res (known_columns [''name'', ''status''] d) (\<lambda>_.
     bind_res (not_null (text_cell (column d ''name'' JNull))) (\<lambda>n.
     bind_res (bind_res (not_null (text_cell (column d ''status'' JNull))) tour_status_of) (\<lambda>st.
     Inr \<lparr>to_name = n, to_status = st\<rparr>)))"

text \<open>A row of a table with a serial key, up to that key.\<close>

definition backup_of_dict :: "'e ext \<Rightarrow> dict \<Rightarrow> (int \<Rightarrow> backup_row) result" where
  "backup_of_dict X d =
     bind_res (known_columns [''id'', ''directories'', ''start_time'', ''end_time''] d) (\<lambda>_.
     bind_res (time_cell X (column d ''start_time'' JNull)) (\<lambda>st.
     bind_res (time_cell X (column d ''end_time'' JNull)) (\<lambda>en.
     Inr (\<lambda>i. \<lparr>bk_id = i, bk_directories = column d ''directories'' JNull, bk_start_time = st,
               bk_end_time = en\<rparr>))))"

definition usage_of_dict :: "'e ext \<Rightarrow> dict \<Rightarrow> (int \<Rightarrow> usage_row) result" where
  "usage_of_dict X d =
     bind_res (known_columns [''id'', ''timestamp'', ''installed_apps''] d) (\<lambda>_.
     bind_res (not_null (time_cell X (column d ''timestamp'' JNull))) (\<lambda>t.
       if column d ''installed_apps'' JNull = JNull then Inl (OtherError ''NotNullViolation'')
       else Inr (\<lambda>i. \<lparr>us_id = i, us_timestamp = t, us_installed_apps = column d ''installed_apps'' JNull\<rparr>)))"

definition kv_of_dict :: "dict \<Rightarrow> (string \<times> json) result" where
  "kv_of_dict d =
     bind_res (known_columns [''key'', ''value''] d) (\<lambda>_.
     bind_res (not_null (text_cell (column d ''key'' JNull))) (\<lambda>k.
     Inr (k, column d ''value'' JNull)))"

definition kv_insert_ignore :: "string \<times> json \<Rightarrow> (dict, unit) act" where
  "kv_insert_ignore kv = modify (\<lambda>t. if map_of t (fst kv) \<noteq> None then t else t @ [kv])"

definition serial_row :: "('r \<Rightarrow> int) \<Rightarrow> dict \<Rightarrow> (int \<Rightarrow> 'r) \<Rightarrow> ('r serial, unit) act" where
  "serial_row key d mk =
     (case map_of d ''id'' of
        Some i \<Rightarrow> bnd (lift_res (serial_cell i)) (\<lambda>n. serial_insert_ignore key (mk n))
      | None \<Rightarrow> try_except (seq (serial_insert key mk) (ret ()))
                  (\<lambda>e. case e of UniqueViolation \<Rightarrow> ret () | _ \<Rightarrow> raise e))"

text \<open>\<open>INSERT INTO t (...) VALUES (...) ON CONFLICT DO NOTHING\<close>\<close>

definition insert_row :: "'e ext \<Rightarrow> string \<Rightarrow> dict \<Rightarrow> ('e shard, unit) act" where
  "insert_row X t d =
     (if t = ''app_usage_tracks'' then
        bnd (lift_res (usage_of_dict X d)) (\<lambda>mk. db_usage (serial_row us_id d mk))
      else if t = ''backups'' then
        bnd (lift_res (backup_of_dict X d)) (\<lambda>mk. db_backups (serial_row bk_id d mk))
      else if t = ''identities'' then
        bnd (lift_res (identity_of_dict d)) (\<lambda>r. db_identities (tbl_insert_ignore id_id r))
      else if t = ''installed_apps'' then
        bnd (lift_res (app_of_dict X d)) (\<lambda>r. db_apps (tbl_insert_ignore ia_name r))
      else if t = ''kv_store'' then bnd (lift_res (kv_of_dict d)) (\<lambda>kv. db_kv (kv_insert_ignore kv))
      else if t = ''peers'' then
        bnd (lift_res (peer_of_dict d)) (\<lambda>r. db_peers (tbl_insert_ignore pe_id r))
      else if t = ''terminals'' then
        bnd (lift_res (terminal_of_dict X d)) (\<lambda>r. db_terminals (tbl_insert_ignore tm_id r))
      else if t = ''tours'' then
        bnd (lift_res (tour_of_dict d)) (\<lambda>r. db_tours (tbl_insert_ignore to_name r))
      else raise (OtherError ''UndefinedTable''))"

section \<open>Writing and restoring a snapshot\<close>

definition snapshot_path :: "'e ext \<Rightarrow> path" where
  "snapshot_path X = path_join (path_root (cfg X)) ''core/db_snapshot.json''"

definition snapshot :: "'e shard \<Rightarrow> json" where
  "snapshot s = JObj (map (\<lambda>t. (t, JArr (map JObj (select_all s t)))) list_data_tables)"

definition write_db_snapshot :: "'e ext \<Rightarrow> ('e shard, unit) act" where
  "write_db_snapshot X =
     bnd (gets snapshot) (\<lambda>snap.
     let p = snapshot_path X; tmp = parent p @ [last p @ ''.tmp''] in
     seq (on_fs (fs_mkdirs (parent p)))
     (seq (on_fs (fs_write tmp (x_json_dumps X snap)))
     (on_fs (fs_move tmp p))))"

text \<open>
  \<open>async with db_conn() as conn\<close> around several statements: an exception rolls all of them back;
  what a sequence has issued stays used.
\<close>

definition rollback :: "'e shard \<Rightarrow> 'e shard \<Rightarrow> 'e shard" where
  "rollback s t =
     t\<lparr>sh_apps := sh_apps s, sh_identities := sh_identities s, sh_terminals := sh_terminals s,
       sh_peers := sh_peers s, sh_tours := sh_tours s, sh_kv := sh_kv s,
       sh_backups := (sh_backups t)\<lparr>se_rows := se_rows (sh_backups s)\<rparr>,
       sh_usage := (sh_usage t)\<lparr>se_rows := se_rows (sh_usage s)\<rparr>\<rparr>"

definition transaction :: "('e shard, 'a) act \<Rightarrow> ('e shard, 'a) act" where
  "transaction m s = (case m s of (Inl e, t) \<Rightarrow> (Inl e, rollback s t) | (Inr x, t) \<Rightarrow> (Inr x, t))"

text \<open>\<open>v.items()\<close> and the iteration over the rows of a table that is not empty\<close>

fun items :: "json \<Rightarrow> dict result" where
  "items (JObj d) = Inr d"
| "items _ = Inl AttributeError"

fun iterate :: "json \<Rightarrow> json list result" where
  "iterate (JArr xs) = Inr xs"
| "iterate (JObj d) = Inr (map (\<lambda>kv. JStr (fst kv)) d)"
| "iterate (JStr s) = Inr (map (\<lambda>c. JStr [c]) s)"
| "iterate _ = Inl TypeError"

definition column_types :: "string \<Rightarrow> (string \<times> string) list" where
  "column_types t =
     (let text = ''text''; tz = ''timestamp with time zone'' in
      if t = ''app_usage_tracks'' then
        [(''id'', ''integer''), (''timestamp'', tz), (''installed_apps'', ''jsonb'')]
      else if t = ''backups'' then
        [(''id'', ''integer''), (''directories'', ''jsonb''), (''start_time'', tz), (''end_time'', tz)]
      else if t = ''identities'' then
        [(''id'', text), (''name'', text), (''email'', text), (''description'', text),
         (''private_key'', text), (''is_default'', ''boolean'')]
      else if t = ''installed_apps'' then
        [(''name'', text), (''installation_reason'', text), (''status'', text), (''last_access'', tz)]
      else if t = ''kv_store'' then [(''key'', text), (''value'', ''jsonb'')]
      else if t = ''peers'' then
        [(''id'', text), (''name'', text), (''public_bytes_b64'', text), (''is_reachable'', ''boolean'')]
      else if t = ''terminals'' then
        [(''id'', text), (''name'', text), (''icon'', text), (''last_connection'', tz)]
      else if t = ''tours'' then [(''name'', text), (''status'', text)]
      else [])"

text \<open>\<open>datetime.fromisoformat\<close>; the string of a datetime is written \<open>JTime\<close>.\<close>

fun fromisoformat :: "'e ext \<Rightarrow> json \<Rightarrow> real result" where
  "fromisoformat X (JTime t) = Inr t"
| "fromisoformat X (JStr s) =
     (case x_fromisoformat X s of None \<Rightarrow> Inl (ValueError s) | Some t \<Rightarrow> Inr t)"
| "fromisoformat X _ = Inl TypeError"

definition adapt_value :: "'e ext \<Rightarrow> json \<Rightarrow> string option \<Rightarrow> json result" where
  "adapt_value X v ty =
     (if v = JNull then Inr JNull
      else if ty = Some ''jsonb'' then Inr v
      else if ty \<in> {Some ''timestamp with time zone'', Some ''timestamp without time zone''} then
        bind_res (fromisoformat X v) (\<lambda>t. Inr (JTime t))
      else Inr v)"

fun adapt_values :: "'e ext \<Rightarrow> (string \<times> string) list \<Rightarrow> dict \<Rightarrow> dict result" where
  "adapt_values X types [] = Inr []"
| "adapt_values X types ((c, v) # d) =
     bind_res (adapt_value X v (map_of types c)) (\<lambda>w.
     bind_res (adapt_values X types d) (\<lambda>d'. Inr ((c, w) # d')))"

definition restore_row :: "'e ext \<Rightarrow> string \<Rightarrow> json \<Rightarrow> ('e shard, unit) act" where
  "restore_row X t row =
     bnd (lift_res (items row)) (\<lambda>d.
     bnd (lift_res (adapt_values X (column_types t) d)) (\<lambda>values.
     insert_row X t values))"

text \<open>Only the \<open>id\<close> of \<open>app_usage_tracks\<close> and of \<open>backups\<close> has a sequence.\<close>

definition reset_sequences :: "string \<Rightarrow> ('e shard, unit) act" where
  "reset_sequences t =
     (if t = ''app_usage_tracks'' then db_usage (serial_setval us_id)
      else if t = ''backups'' then db_backups (serial_setval bk_id)
      else ret ())"

definition restore_table :: "'e ext \<Rightarrow> string \<times> json \<Rightarrow> ('e shard, unit) act" where
  "restore_table X tr =
     (if \<not> truthy (snd tr) then ret ()
      else bnd (lift_res (iterate (snd tr))) (\<lambda>rows.
        seq (for_each (restore_row X (fst tr)) rows)
        (reset_sequences (fst tr))))"

definition db_already_populated :: "('e shard, bool) act" where
  "db_already_populated = gets (\<lambda>s. sh_identities s \<noteq> [])"

definition loads :: "'e ext \<Rightarrow> string \<Rightarrow> json result" where
  "loads X txt = (case json_loads (x_parser X) txt of None \<Rightarrow> Inl JSONDecodeError | Some j \<Rightarrow> Inr j)"

definition restore_db_snapshot :: "'e ext \<Rightarrow> ('e shard, unit) act" where
  "restore_db_snapshot X =
     bnd (gets (\<lambda>s. fs_exists (sh_fs s) (snapshot_path X))) (\<lambda>there.
     if \<not> there then ret ()
     else transaction
       (bnd db_already_populated (\<lambda>populated.
          if populated then ret ()
          else
            bnd (bnd (gets sh_fs) (\<lambda>fs. lift_res (fs_read fs (snapshot_path X)))) (\<lambda>txt.
            bnd (lift_res (loads X txt)) (\<lambda>j.
            bnd (lift_res (items j)) (\<lambda>tables.
            for_each (restore_table X) tables))))))"

section \<open>A snapshot brings the database back\<close>

text \<open>What the schema guarantees of the tables: keys are unique, and no usage track lacks its apps.\<close>

definition db_consistent :: "'e shard \<Rightarrow> bool" where
  "db_consistent s \<longleftrightarrow>
     tbl_ok ia_name (sh_apps s) \<and> tbl_ok id_id (sh_identities s) \<and> tbl_ok tm_id (sh_terminals s)
     \<and> tbl_ok pe_id (sh_peers s) \<and> tbl_ok to_name (sh_tours s) \<and> dict_ok (sh_kv s)
     \<and> tbl_ok bk_id (se_rows (sh_backups s)) \<and> tbl_ok us_id (se_rows (sh_usage s))
     \<and> list_all (\<lambda>r. us_installed_apps r \<noteq> JNull) (se_rows (sh_usage s))"

definition same_data :: "'e shard \<Rightarrow> 'e shard \<Rightarrow> bool" where
  "same_data s t \<longleftrightarrow>
     sh_apps t = sh_apps s \<and> sh_identities t = sh_identities s \<and> sh_terminals t = sh_terminals s
     \<and> sh_peers t = sh_peers s \<and> sh_tours t = sh_tours s \<and> sh_kv t = sh_kv s
     \<and> se_rows (sh_backups t) = se_rows (sh_backups s) \<and> se_rows (sh_usage t) = se_rows (sh_usage s)"

definition no_data :: "'e shard \<Rightarrow> bool" where
  "no_data s \<longleftrightarrow>
     sh_apps s = [] \<and> sh_identities s = [] \<and> sh_terminals s = [] \<and> sh_peers s = [] \<and> sh_tours s = []
     \<and> sh_kv s = [] \<and> se_rows (sh_backups s) = [] \<and> se_rows (sh_usage s) = []"

lemmas row_dict_defs =
  app_dict_def identity_dict_def terminal_dict_def peer_dict_def backup_dict_def tour_dict_def
  usage_dict_def kv_dict_def

lemmas of_dict_defs =
  app_of_dict_def identity_of_dict_def terminal_of_dict_def peer_of_dict_def backup_of_dict_def
  tour_of_dict_def usage_of_dict_def kv_of_dict_def

text \<open>The values of a row go through the adapters and the columns of the table unchanged.\<close>

lemma adapt_row:
  "adapt_values X (column_types ''installed_apps'') (app_dict a) = Inr (app_dict a)"
  "adapt_values X (column_types ''identities'') (identity_dict i) = Inr (identity_dict i)"
  "adapt_values X (column_types ''terminals'') (terminal_dict t) = Inr (terminal_dict t)"
  "adapt_values X (column_types ''peers'') (peer_dict p) = Inr (peer_dict p)"
  "adapt_values X (column_types ''backups'') (backup_dict b) = Inr (backup_dict b)"
  "adapt_values X (column_types ''tours'') (tour_dict r) = Inr (tour_dict r)"
  "adapt_values X (column_types ''app_usage_tracks'') (usage_dict u) = Inr (usage_dict u)"
  "adapt_values X (column_types ''kv_store'') (kv_dict kv) = Inr (kv_dict kv)"
  by (simp_all add: row_dict_defs column_types_def Let_def adapt_value_def or_null_def split: option.split)

lemma row_of_dict:
  "app_of_dict X (app_dict a) = Inr a"
  "identity_of_dict (identity_dict i) = Inr i"
  "terminal_of_dict X (terminal_dict t) = Inr t"
  "peer_of_dict (peer_dict p) = Inr p"
  "backup_of_dict X (backup_dict b) = Inr (\<lambda>n. b\<lparr>bk_id := n\<rparr>)"
  "tour_of_dict (tour_dict r) = Inr r"
  "us_installed_apps u \<noteq> JNull \<Longrightarrow> usage_of_dict X (usage_dict u) = Inr (\<lambda>n. u\<lparr>us_id := n\<rparr>)"
  "kv_of_dict (kv_dict kv) = Inr kv"
  by (cases a; cases i; cases t; cases p; cases b; cases r; cases u; cases kv;
      simp add: row_dict_defs of_dict_defs known_columns_def column_def not_null_def text_cell_def
        or_null_def split: option.split)+

lemma insert_dict:
  "insert_row X ''installed_apps'' (app_dict a) = db_apps (tbl_insert_ignore ia_name a)"
  "insert_row X ''identities'' (identity_dict i) = db_identities (tbl_insert_ignore id_id i)"
  "insert_row X ''terminals'' (terminal_dict t) = db_terminals (tbl_insert_ignore tm_id t)"
  "insert_row X ''peers'' (peer_dict p) = db_peers (tbl_insert_ignore pe_id p)"
  "insert_row X ''backups'' (backup_dict b) = db_backups (serial_insert_ignore bk_id b)"
  "insert_row X ''tours'' (tour_dict r) = db_tours (tbl_insert_ignore to_name r)"
  "us_installed_apps u \<noteq> JNull \<Longrightarrow>
     insert_row X ''app_usage_tracks'' (usage_dict u) = db_usage (serial_insert_ignore us_id u)"
  "insert_row X ''kv_store'' (kv_dict kv) = db_kv (kv_insert_ignore kv)"
  by (rule ext, simp add: insert_row_def row_of_dict act_simps serial_row_def
        backup_dict_def [of b, THEN arg_cong [of _ _ "\<lambda>d. map_of d ''id''"]]
        usage_dict_def [of u, THEN arg_cong [of _ _ "\<lambda>d. map_of d ''id''"]])+

lemma restore_row_dict:
  "restore_row X ''installed_apps'' (JObj (app_dict a)) = db_apps (tbl_insert_ignore ia_name a)"
  "restore_row X ''identities'' (JObj (identity_dict i)) = db_identities (tbl_insert_ignore id_id i)"
  "restore_row X ''terminals'' (JObj (terminal_dict t)) = db_terminals (tbl_insert_ignore tm_id t)"
  "restore_row X ''peers'' (JObj (peer_dict p)) = db_peers (tbl_insert_ignore pe_id p)"
  "restore_row X ''backups'' (JObj (backup_dict b)) = db_backups (serial_insert_ignore bk_id b)"
  "restore_row X ''tours'' (JObj (tour_dict r)) = db_tours (tbl_insert_ignore to_name r)"
  "us_installed_apps u \<noteq> JNull \<Longrightarrow>
     restore_row X ''app_usage_tracks'' (JObj (usage_dict u)) = db_usage (serial_insert_ignore us_id u)"
  "restore_row X ''kv_store'' (JObj (kv_dict kv)) = db_kv (kv_insert_ignore kv)"
  by (rule ext, simp add: restore_row_def adapt_row insert_dict act_simps)+

text \<open>Inserting rows with new keys, one after the other, appends them.\<close>

lemma fill_keyed:
  "distinct (map key (t @ rs)) \<Longrightarrow> for_each (tbl_insert_ignore key) rs t = (Inr (), t @ rs)"
proof (induction rs arbitrary: t)
  case Nil
  show ?case by (simp add: act_simps)
next
  case (Cons r rs)
  have "tbl_find key (key r) t = None"
    using Cons.prems by (auto simp: tbl_find_None_iff)
  moreover have "distinct (map key ((t @ [r]) @ rs))" using Cons.prems by simp
  ultimately show ?case using Cons.IH by (simp add: tbl_insert_ignore_def act_simps)
qed

lemma fill_serial:
  "distinct (map key (se_rows t @ rs)) \<Longrightarrow>
     for_each (serial_insert_ignore key) rs t = (Inr (), t\<lparr>se_rows := se_rows t @ rs\<rparr>)"
proof (induction rs arbitrary: t)
  case Nil
  show ?case by (simp add: act_simps)
next
  case (Cons r rs)
  have "tbl_find key (key r) (se_rows t) = None"
    using Cons.prems by (auto simp: tbl_find_None_iff)
  moreover have "distinct (map key (se_rows (t\<lparr>se_rows := se_rows t @ [r]\<rparr>) @ rs))"
    using Cons.prems by simp
  ultimately show ?case
    using Cons.IH [of "t\<lparr>se_rows := se_rows t @ [r]\<rparr>"] by (simp add: serial_insert_ignore_def act_simps)
qed

lemma fill_kv: "dict_ok (t @ kvs) \<Longrightarrow> for_each kv_insert_ignore kvs t = (Inr (), t @ kvs)"
proof (induction kvs arbitrary: t)
  case Nil
  show ?case by (simp add: act_simps)
next
  case (Cons kv kvs)
  have "map_of t (fst kv) = None"
    using Cons.prems by (force simp: dict_ok_def map_of_eq_None_iff)
  moreover have "dict_ok ((t @ [kv]) @ kvs)" using Cons.prems by simp
  ultimately show ?case using Cons.IH by (simp add: kv_insert_ignore_def act_simps)
qed

lemma for_each_map: "for_each f (map g xs) = for_each (\<lambda>x. f (g x)) xs"
  by (induction xs) simp_all

lemma for_each_cong: "(\<And>x. x \<in> set xs \<Longrightarrow> f x = g x) \<Longrightarrow> for_each f xs = for_each g xs"
  by (induction xs) simp_all

lemma for_each_zoom:
  assumes "\<And>x s. get (put (\<lambda>_. x) s) = x" and "\<And>x y s. put (\<lambda>_. y) (put (\<lambda>_. x) s) = put (\<lambda>_. y) s"
    and "\<And>s. put (\<lambda>_. get s) s = s"
  shows "for_each (\<lambda>r. zoom get put (f r)) rs = zoom get put (for_each f rs)"
proof (rule ext)
  show "for_each (\<lambda>r. zoom get put (f r)) rs s = zoom get put (for_each f rs) s" for s
  proof (induction rs arbitrary: s)
    case Nil
    show ?case using assms(3) by (simp add: act_simps)
  next
    case (Cons r rs)
    then show ?case
      using assms by (simp add: act_simps split: prod.split sum.split)
  qed
qed

lemma restore_keyed:
  assumes "\<And>r. r \<in> set rs \<Longrightarrow> restore_row X t (JObj (dict_of r)) = zoom get put (ins r)"
    and "\<And>x s. get (put (\<lambda>_. x) s) = x" and "\<And>x y s. put (\<lambda>_. y) (put (\<lambda>_. x) s) = put (\<lambda>_. y) s"
    and "\<And>s. put (\<lambda>_. get s) s = s" and "for_each ins rs (get u) = (Inr (), v)"
    and "rs = [] \<Longrightarrow> v = get u"
  shows "restore_table X (t, JArr (map JObj (map dict_of rs))) u
    = (if rs = [] then (Inr (), u) else reset_sequences t (put (\<lambda>_. v) u))"
proof (cases "rs = []")
  case True
  then show ?thesis by (simp add: restore_table_def act_simps)
next
  case False
  have "for_each (restore_row X t) (map JObj (map dict_of rs)) = for_each (\<lambda>r. zoom get put (ins r)) rs"
    unfolding for_each_map using assms(1) by (intro for_each_cong) simp
  also have "\<dots> = zoom get put (for_each ins rs)"
    by (rule for_each_zoom) (use assms(2-4) in auto)
  finally show ?thesis
    using False assms(5) by (simp add: restore_table_def act_simps)
qed

lemma restore_apps:
  assumes "sh_apps u = []" and "tbl_ok ia_name rs"
  shows "restore_table X (''installed_apps'', JArr (map JObj (map app_dict rs))) u = (Inr (), u\<lparr>sh_apps := rs\<rparr>)"
  using restore_keyed [of rs X "''installed_apps''" app_dict sh_apps sh_apps_update "tbl_insert_ignore ia_name" u rs]
    fill_keyed [of ia_name "[]" rs] assms
  by (auto simp: restore_row_dict tbl_ok_def reset_sequences_def act_simps split: if_splits)

lemma restore_identities:
  assumes "sh_identities u = []" and "tbl_ok id_id rs"
  shows "restore_table X (''identities'', JArr (map JObj (map identity_dict rs))) u
    = (Inr (), u\<lparr>sh_identities := rs\<rparr>)"
  using restore_keyed [of rs X "''identities''" identity_dict sh_identities sh_identities_update
      "tbl_insert_ignore id_id" u rs] fill_keyed [of id_id "[]" rs] assms
  by (auto simp: restore_row_dict tbl_ok_def reset_sequences_def act_simps split: if_splits)

lemma restore_terminals:
  assumes "sh_terminals u = []" and "tbl_ok tm_id rs"
  shows "restore_table X (''terminals'', JArr (map JObj (map terminal_dict rs))) u
    = (Inr (), u\<lparr>sh_terminals := rs\<rparr>)"
  using restore_keyed [of rs X "''terminals''" terminal_dict sh_terminals sh_terminals_update
      "tbl_insert_ignore tm_id" u rs] fill_keyed [of tm_id "[]" rs] assms
  by (auto simp: restore_row_dict tbl_ok_def reset_sequences_def act_simps split: if_splits)

lemma restore_peers:
  assumes "sh_peers u = []" and "tbl_ok pe_id rs"
  shows "restore_table X (''peers'', JArr (map JObj (map peer_dict rs))) u = (Inr (), u\<lparr>sh_peers := rs\<rparr>)"
  using restore_keyed [of rs X "''peers''" peer_dict sh_peers sh_peers_update "tbl_insert_ignore pe_id" u rs]
    fill_keyed [of pe_id "[]" rs] assms
  by (auto simp: restore_row_dict tbl_ok_def reset_sequences_def act_simps split: if_splits)

lemma restore_tours:
  assumes "sh_tours u = []" and "tbl_ok to_name rs"
  shows "restore_table X (''tours'', JArr (map JObj (map tour_dict rs))) u = (Inr (), u\<lparr>sh_tours := rs\<rparr>)"
  using restore_keyed [of rs X "''tours''" tour_dict sh_tours sh_tours_update "tbl_insert_ignore to_name" u rs]
    fill_keyed [of to_name "[]" rs] assms
  by (auto simp: restore_row_dict tbl_ok_def reset_sequences_def act_simps split: if_splits)

lemma restore_kv:
  assumes "sh_kv u = []" and "dict_ok kvs"
  shows "restore_table X (''kv_store'', JArr (map JObj (map kv_dict kvs))) u = (Inr (), u\<lparr>sh_kv := kvs\<rparr>)"
  using restore_keyed [of kvs X "''kv_store''" kv_dict sh_kv sh_kv_update kv_insert_ignore u kvs]
    fill_kv [of "[]" kvs] assms
  by (auto simp: restore_row_dict reset_sequences_def act_simps split: if_splits)

text \<open>After the rows of a table with a sequence, the sequence is past every key.\<close>

lemma restore_backups:
  assumes "se_rows (sh_backups u) = []" and "tbl_ok bk_id rs"
  shows "\<exists>v. restore_table X (''backups'', JArr (map JObj (map backup_dict rs))) u = (Inr (), u\<lparr>sh_backups := v\<rparr>)
    \<and> se_rows v = rs \<and> serial_ok bk_id v"
proof (cases "rs = []")
  case True
  then show ?thesis
    using assms(1) by (intro exI [of _ "sh_backups u"]) (simp add: restore_table_def act_simps serial_ok_def tbl_ok_def)
next
  case False
  let ?w = "(sh_backups u)\<lparr>se_rows := rs\<rparr>"
  have "restore_table X (''backups'', JArr (map JObj (map backup_dict rs))) u
      = reset_sequences ''backups'' (u\<lparr>sh_backups := ?w\<rparr>)"
    using restore_keyed [of rs X "''backups''" backup_dict sh_backups sh_backups_update
        "serial_insert_ignore bk_id" u ?w] fill_serial [of bk_id "sh_backups u" rs] assms False
    by (simp add: restore_row_dict tbl_ok_def)
  also have "\<dots> = (Inr (), u\<lparr>sh_backups := snd (serial_setval bk_id ?w)\<rparr>)"
    by (simp add: reset_sequences_def act_simps serial_setval_def)
  finally show ?thesis
    using serial_setval_ok [of bk_id ?w] assms(2)
    by (intro exI [of _ "snd (serial_setval bk_id ?w)"]) (simp add: serial_setval_def act_simps)
qed

lemma restore_usage:
  assumes "se_rows (sh_usage u) = []" and "tbl_ok us_id rs"
    and "list_all (\<lambda>r. us_installed_apps r \<noteq> JNull) rs"
  shows "\<exists>v. restore_table X (''app_usage_tracks'', JArr (map JObj (map usage_dict rs))) u = (Inr (), u\<lparr>sh_usage := v\<rparr>)
    \<and> se_rows v = rs \<and> serial_ok us_id v"
proof (cases "rs = []")
  case True
  then show ?thesis
    using assms(1) by (intro exI [of _ "sh_usage u"]) (simp add: restore_table_def act_simps serial_ok_def tbl_ok_def)
next
  case False
  let ?w = "(sh_usage u)\<lparr>se_rows := rs\<rparr>"
  have "restore_table X (''app_usage_tracks'', JArr (map JObj (map usage_dict rs))) u
      = reset_sequences ''app_usage_tracks'' (u\<lparr>sh_usage := ?w\<rparr>)"
    using restore_keyed [of rs X "''app_usage_tracks''" usage_dict sh_usage sh_usage_update
        "serial_insert_ignore us_id" u ?w] fill_serial [of us_id "sh_usage u" rs] assms False
    by (simp add: restore_row_dict tbl_ok_def list_all_iff)
  also have "\<dots> = (Inr (), u\<lparr>sh_usage := snd (serial_setval us_id ?w)\<rparr>)"
    by (simp add: reset_sequences_def act_simps serial_setval_def)
  finally show ?thesis
    using serial_setval_ok [of us_id ?w] assms(2)
    by (intro exI [of _ "snd (serial_setval us_id ?w)"]) (simp add: serial_setval_def act_simps)
qed

lemma data_tables:
  "list_data_tables =
     [''app_usage_tracks'', ''backups'', ''identities'', ''installed_apps'', ''kv_store'', ''peers'',
      ''terminals'', ''tours'']"
  by code_simp

lemma restore_all:
  assumes "db_consistent s" and "no_data u"
  shows "\<exists>v. for_each (restore_table X) (map (\<lambda>t. (t, JArr (map JObj (select_all s t)))) list_data_tables) u = (Inr (), v)
    \<and> same_data s v \<and> serial_ok bk_id (sh_backups v) \<and> serial_ok us_id (sh_usage v)"
proof -
  have s: "tbl_ok ia_name (sh_apps s)" "tbl_ok id_id (sh_identities s)" "tbl_ok tm_id (sh_terminals s)"
      "tbl_ok pe_id (sh_peers s)" "tbl_ok to_name (sh_tours s)" "dict_ok (sh_kv s)"
    using assms(1) by (simp_all add: db_consistent_def)
  have bk: "tbl_ok bk_id (se_rows (sh_backups s))" and us: "tbl_ok us_id (se_rows (sh_usage s))"
      "list_all (\<lambda>r. us_installed_apps r \<noteq> JNull) (se_rows (sh_usage s))"
    using assms(1) by (simp_all add: db_consistent_def)
  have u: "sh_apps u = []" "sh_identities u = []" "sh_terminals u = []" "sh_peers u = []"
      "sh_tours u = []" "sh_kv u = []" "se_rows (sh_backups u) = []" "se_rows (sh_usage u) = []"
    using assms(2) by (simp_all add: no_data_def)
  obtain a where a: "restore_table X (''app_usage_tracks'', JArr (map JObj (map usage_dict (se_rows (sh_usage s))))) u
      = (Inr (), u\<lparr>sh_usage := a\<rparr>)" "se_rows a = se_rows (sh_usage s)" "serial_ok us_id a"
    using restore_usage [OF u(8) us] by blast
  have "se_rows (sh_backups (u\<lparr>sh_usage := a\<rparr>)) = []" using u(7) by simp
  from restore_backups [OF this bk] obtain b where
    b: "restore_table X (''backups'', JArr (map JObj (map backup_dict (se_rows (sh_backups s))))) (u\<lparr>sh_usage := a\<rparr>)
      = (Inr (), u\<lparr>sh_usage := a, sh_backups := b\<rparr>)" "se_rows b = se_rows (sh_backups s)" "serial_ok bk_id b"
    by auto
  have "for_each (restore_table X) (map (\<lambda>t. (t, JArr (map JObj (select_all s t)))) list_data_tables) u
    = (Inr (), u\<lparr>sh_usage := a, sh_backups := b, sh_identities := sh_identities s, sh_apps := sh_apps s,
        sh_kv := sh_kv s, sh_peers := sh_peers s, sh_terminals := sh_terminals s, sh_tours := sh_tours s\<rparr>)"
    using u s
    by (simp add: data_tables select_all_def a(1) b(1) restore_identities restore_apps restore_kv
        restore_peers restore_terminals restore_tours act_simps del: map_map)
  then show ?thesis using a(2,3) b(2,3) by (simp add: same_data_def)
qed

lemma write_db_snapshot_file:
  assumes "write_db_snapshot X s = (Inr (), t)"
  shows "sh_fs t (snapshot_path X) = Some (File (x_json_dumps X (snapshot s)))"
proof -
  let ?p = "snapshot_path X"
  let ?tmp = "parent ?p @ [last ?p @ ''.tmp'']"
  obtain f1 f2 where f1: "fs_mkdirs (parent ?p) (sh_fs s) = (Inr (), f1)"
      and f2: "fs_write ?tmp (x_json_dumps X (snapshot s)) f1 = (Inr (), f2)"
      and mv: "fs_move ?tmp ?p f2 = (Inr (), sh_fs t)"
    using assms by (auto simp: write_db_snapshot_def Let_def act_simps split: prod.splits sum.splits)
  have "f2 ?tmp = Some (File (x_json_dumps X (snapshot s)))"
    using f2 by (auto simp: fs_write_def split: if_splits)
  then have "sh_fs t = f2(?tmp := None, ?p \<mapsto> File (x_json_dumps X (snapshot s)))"
    using mv by (auto simp: fs_move_def split: if_splits)
  then show ?thesis by simp
qed

lemma restore_after_write:
  assumes "db_consistent s"
    and "json_loads (x_parser X) (x_json_dumps X (snapshot s)) = Some (snapshot s)"
    and "write_db_snapshot X s = (Inr (), t)"
    and "sh_fs u (snapshot_path X) = sh_fs t (snapshot_path X)" and "no_data u"
  shows "\<exists>v. restore_db_snapshot X u = (Inr (), v) \<and> same_data s v
    \<and> serial_ok bk_id (sh_backups v) \<and> serial_ok us_id (sh_usage v)"
proof -
  have stored: "sh_fs u (snapshot_path X) = Some (File (x_json_dumps X (snapshot s)))"
    using write_db_snapshot_file [OF assms(3)] assms(4) by simp
  obtain v where v: "for_each (restore_table X) (map (\<lambda>t. (t, JArr (map JObj (select_all s t)))) list_data_tables) u = (Inr (), v)"
      "same_data s v" "serial_ok bk_id (sh_backups v)" "serial_ok us_id (sh_usage v)"
    using restore_all [OF assms(1,5)] by blast
  have empty: "sh_identities u = []" using assms(5) by (simp add: no_data_def)
  have items: "items (snapshot s) = Inr (map (\<lambda>t. (t, JArr (map JObj (select_all s t)))) list_data_tables)"
    by (simp add: snapshot_def)
  have "restore_db_snapshot X u = (Inr (), v)"
    using v(1)
    by (simp add: restore_db_snapshot_def transaction_def db_already_populated_def act_simps fs_exists_def
        fs_read_def stored loads_def assms(2) empty items)
  then show ?thesis using v(2-4) by blast
qed

text \<open>
  C34. A snapshot brings the database back: if the snapshot of a consistent database was written, and
  a shard without any data finds that file, its start returns and leaves every table as it was when
  the snapshot was taken; afterwards the two sequences are past every restored key, so that the next
  report and the next usage track are inserted and not refused.  The hypothesis on JSON is that the
  standard library reads this document back.
\<close>

theorem snapshot_restores_database:
  assumes "db_consistent s"
    and "json_loads (x_parser X) (x_json_dumps X (snapshot s)) = Some (snapshot s)"
    and "write_db_snapshot X s = (Inr (), t)"
    and "sh_fs u (snapshot_path X) = sh_fs t (snapshot_path X)" and "no_data u"
  shows "\<exists>v. restore_db_snapshot X u = (Inr (), v) \<and> same_data s v
    \<and> (\<forall>report. fst (backups_insert report (sh_backups v))
          = Inr \<lparr>bk_id = se_last (sh_backups v) + 1,
                 bk_directories = JArr (map backup_stats_dump (br_directories report)),
                 bk_start_time = Some (br_start_time report), bk_end_time = Some (br_end_time report)\<rparr>)
    \<and> (\<forall>time apps. fst (usage_insert time apps (sh_usage v))
          = Inr \<lparr>us_id = se_last (sh_usage v) + 1, us_timestamp = time, us_installed_apps = apps\<rparr>)"
proof -
  obtain v where v: "restore_db_snapshot X u = (Inr (), v)" "same_data s v"
      "serial_ok bk_id (sh_backups v)" "serial_ok us_id (sh_usage v)"
    using restore_after_write [OF assms] by blast
  show ?thesis
    by (intro exI [of _ v] conjI allI v(1,2))
      (simp_all add: backups_insert_def usage_insert_def serial_insert_fresh v(3,4))
qed

text \<open>A shard with one app, one backup report and a JSON reader that knows the written document.\<close>

definition snapshot_shard :: "real shard" where
  "snapshot_shard =
     sample_shard\<lparr>sh_apps := [\<lparr>ia_name = ''a'', ia_reason = Reason_STORE, ia_status = STOPPED, ia_last_access = None\<rparr>],
       sh_backups := \<lparr>se_rows = [\<lparr>bk_id = 3, bk_directories = JArr [], bk_start_time = Some 0, bk_end_time = Some 1\<rparr>],
                      se_last = 3\<rparr>\<rparr>"

definition snapshot_ext :: "real ext" where
  "snapshot_ext =
     sample_ext\<lparr>x_parser := sample_parser\<lparr>json_loads := (\<lambda>t. if t = ''j'' then Some (snapshot snapshot_shard) else None)\<rparr>\<rparr>"

lemma snapshot_witness_write:
  "\<exists>t. write_db_snapshot snapshot_ext snapshot_shard = (Inr (), t)"
proof -
  have root: "path_root (cfg snapshot_ext) = [''r'']" by (simp add: snapshot_ext_def sample_ext_def sample_cfg_def)
  have p: "snapshot_path snapshot_ext = [''r'', ''core'', ''db_snapshot.json'']"
    unfolding snapshot_path_def root by code_simp
  have fs: "sh_fs snapshot_shard = (\<lambda>_. None)" by (simp add: snapshot_shard_def sample_shard_def)
  show ?thesis
    by (simp add: write_db_snapshot_def Let_def act_simps p parent_def fs fs_mkdirs_def fs_write_def fs_move_def)
qed

lemma snapshot_restores_database_witness:
  "\<exists>t v. write_db_snapshot snapshot_ext snapshot_shard = (Inr (), t)
     \<and> restore_db_snapshot snapshot_ext (sample_shard\<lparr>sh_fs := sh_fs t\<rparr>) = (Inr (), v)
     \<and> same_data snapshot_shard v"
proof -
  obtain t where t: "write_db_snapshot snapshot_ext snapshot_shard = (Inr (), t)"
    using snapshot_witness_write by blast
  have "\<exists>v. restore_db_snapshot snapshot_ext (sample_shard\<lparr>sh_fs := sh_fs t\<rparr>) = (Inr (), v)
      \<and> same_data snapshot_shard v
    \<and> (\<forall>report. fst (backups_insert report (sh_backups v))
          = Inr \<lparr>bk_id = se_last (sh_backups v) + 1,
                 bk_directories = JArr (map backup_stats_dump (br_directories report)),
                 bk_start_time = Some (br_start_time report), bk_end_time = Some (br_end_time report)\<rparr>)
    \<and> (\<forall>time apps. fst (usage_insert time apps (sh_usage v))
          = Inr \<lparr>us_id = se_last (sh_usage v) + 1, us_timestamp = time, us_installed_apps = apps\<rparr>)"
  proof (rule snapshot_restores_database)
    show "db_consistent snapshot_shard"
      by (simp add: db_consistent_def snapshot_shard_def sample_shard_def tbl_ok_def dict_ok_def empty_serial_def)
    show "json_loads (x_parser snapshot_ext) (x_json_dumps snapshot_ext (snapshot snapshot_shard))
        = Some (snapshot snapshot_shard)"
      by (simp add: snapshot_ext_def sample_ext_def)
    show "write_db_snapshot snapshot_ext snapshot_shard = (Inr (), t)" by (rule t)
    show "sh_fs (sample_shard\<lparr>sh_fs := sh_fs t\<rparr>) (snapshot_path snapshot_ext) = sh_fs t (snapshot_path snapshot_ext)"
      by simp
    show "no_data (sample_shard\<lparr>sh_fs := sh_fs t\<rparr>)"
      by (simp add: no_data_def sample_shard_def empty_serial_def)
  qed
  with t show ?thesis by blast
qed

end
