(* ===== verification/Tinydb_Migration.thy ===== *)
theory Tinydb_Migration
  imports Db_Snapshot
begin

text \<open>
  \<open>database/tinydb_migration.py\<close>: on the first start after the switch to PostgreSQL the JSON file of
  the old database is read, its records are inserted and the file is renamed; and
  \<open>database.init_database\<close>, which runs this migration and the restore of a snapshot.
\<close>

section \<open>Reading the old file\<close>

definition TINYDATE_PREFIX :: string where
  "TINYDATE_PREFIX = ''{TinyDate}:''"

definition parse_tinydate_str :: "'e ext \<Rightarrow> string \<Rightarrow> json" where
  "parse_tinydate_str X s =
     (if starts_with TINYDATE_PREFIX s then
        (case x_fromisoformat X (drop (length TINYDATE_PREFIX) s) of
           Some t \<Rightarrow> JTime t
         | None \<Rightarrow> JStr s)
      else JStr s)"

primrec parse_tinydate :: "'e ext \<Rightarrow> json \<Rightarrow> json" where
  "parse_tinydate X JNull = JNull"
| "parse_tinydate X (JBool b) = JBool b"
| "parse_tinydate X (JInt i) = JInt i"
| "parse_tinydate X (JFloat x) = JFloat x"
| "parse_tinydate X (JStr s) = parse_tinydate_str X s"
| "parse_tinydate X (JTime t) = JTime t"
| "parse_tinydate X (JArr xs) = JArr (map (parse_tinydate X) xs)"
| "parse_tinydate X (JObj d) = JObj (map (map_prod (\<lambda>k. k) (parse_tinydate X)) d)"

definition IDENTITY_COLUMNS :: "string list" where
  "IDENTITY_COLUMNS = [''id'', ''name'', ''email'', ''description'', ''private_key'', ''is_default'']"

definition INSTALLED_APP_COLUMNS :: "string list" where
  "INSTALLED_APP_COLUMNS = [''name'', ''installation_reason'', ''status'', ''last_access'']"

definition TERMINAL_COLUMNS :: "string list" where
  "TERMINAL_COLUMNS = [''id'', ''name'', ''icon'', ''last_connection'']"

definition PEER_COLUMNS :: "string list" where
  "PEER_COLUMNS = [''id'', ''name'', ''public_bytes_b64'', ''is_reachable'']"

definition filter_keys :: "dict \<Rightarrow> string list \<Rightarrow> dict" where
  "filter_keys record allowed_keys = filter (\<lambda>kv. fst kv \<in> set allowed_keys) record"

definition setdefault :: "dict \<Rightarrow> string \<Rightarrow> json \<Rightarrow> dict" where
  "setdefault d k v = (if map_of d k = None then dict_set d k v else d)"

text \<open>
  The parameters of a statement: every placeholder needs its key in the dictionary, and keys
  without a placeholder are ignored.
\<close>

fun params :: "string list \<Rightarrow> dict \<Rightarrow> dict result" where
  "params [] d = Inr []"
| "params (c # cs) d =
     (case map_of d c of
        None \<Rightarrow> Inl (OtherError ''ProgrammingError'')
      | Some v \<Rightarrow> bind_res (params cs d) (\<lambda>ps. Inr ((c, v) # ps)))"

section \<open>The records of each table\<close>

text \<open>The records that a table object has, and \<open>data.get(table, {})\<close>\<close>

definition table_records :: "dict \<Rightarrow> string \<Rightarrow> json list result" where
  "table_records data t =
     bind_res (items (column data t (JObj []))) (\<lambda>d. Inr (map snd d))"

definition record_item :: "json \<Rightarrow> string \<Rightarrow> json result" where
  "record_item r k = (case r of JObj d \<Rightarrow> dict_item d k | _ \<Rightarrow> Inl TypeError)"

definition migrate_kv_record :: "json \<Rightarrow> ('e shard, unit) act" where
  "migrate_kv_record r =
     bnd (lift_res (record_item r ''key'')) (\<lambda>k.
     bnd (lift_res (record_item r ''value'')) (\<lambda>v.
     bnd (lift_res (not_null (text_cell k))) (\<lambda>key.
     db_kv (kv_insert_ignore (key, v)))))"

definition migrate_identity_record :: "json \<Rightarrow> ('e shard, unit) act" where
  "migrate_identity_record r =
     bnd (lift_res (items r)) (\<lambda>d.
     bnd (lift_res (params IDENTITY_COLUMNS (filter_keys d IDENTITY_COLUMNS))) (\<lambda>ps.
     bnd (lift_res (identity_of_dict ps)) (\<lambda>row.
     db_identities (tbl_insert_ignore id_id row))))"

definition migrate_app_record :: "'e ext \<Rightarrow> json \<Rightarrow> ('e shard, unit) act" where
  "migrate_app_record X r =
     bnd (lift_res (items r)) (\<lambda>d.
     let filtered = setdefault (setdefault (filter_keys d INSTALLED_APP_COLUMNS)
                      ''installation_reason'' (JStr ''unknown'')) ''status'' (JStr ''unknown'') in
     bnd (lift_res (params INSTALLED_APP_COLUMNS filtered)) (\<lambda>ps.
     bnd (lift_res (app_of_dict X ps)) (\<lambda>row.
     db_apps (tbl_insert_ignore ia_name row))))"

definition migrate_terminal_record :: "'e ext \<Rightarrow> json \<Rightarrow> ('e shard, unit) act" where
  "migrate_terminal_record X r =
     bnd (lift_res (items r)) (\<lambda>d.
     bnd (lift_res (params TERMINAL_COLUMNS
            (setdefault (filter_keys d TERMINAL_COLUMNS) ''icon'' (JStr ''unknown'')))) (\<lambda>ps.
     bnd (lift_res (terminal_of_dict X ps)) (\<lambda>row.
     db_terminals (tbl_insert_ignore tm_id row))))"

definition migrate_peer_record :: "json \<Rightarrow> ('e shard, unit) act" where
  "migrate_peer_record r =
     bnd (lift_res (items r)) (\<lambda>d.
     bnd (lift_res (params PEER_COLUMNS (filter_keys d PEER_COLUMNS))) (\<lambda>ps.
     bnd (lift_res (peer_of_dict ps)) (\<lambda>row.
     db_peers (tbl_insert_ignore pe_id row))))"

text \<open>Backup reports and usage tracks have no key of their own: each record is a new row.\<close>

definition migrate_backup_record :: "'e ext \<Rightarrow> json \<Rightarrow> ('e shard, unit) act" where
  "migrate_backup_record X r =
     bnd (lift_res (items r)) (\<lambda>d.
     bnd (lift_res (backup_of_dict X [(''directories'', column d ''directories'' (JArr [])),
            (''start_time'', column d ''startTime'' JNull), (''end_time'', column d ''endTime'' JNull)])) (\<lambda>mk.
     seq (db_backups (serial_insert bk_id mk)) (ret ())))"

definition migrate_tour_record :: "json \<Rightarrow> ('e shard, unit) act" where
  "migrate_tour_record r =
     bnd (lift_res (items r)) (\<lambda>d.
     bnd (lift_res (params [''name'', ''status''] d)) (\<lambda>ps.
     bnd (lift_res (tour_of_dict ps)) (\<lambda>row.
     db_tours (tbl_insert_ignore to_name row))))"

definition migrate_usage_record :: "'e ext \<Rightarrow> json \<Rightarrow> ('e shard, unit) act" where
  "migrate_usage_record X r =
     bnd (lift_res (record_item r ''timestamp'')) (\<lambda>ts.
     bnd (lift_res (record_item r ''installed_apps'')) (\<lambda>apps.
     bnd (lift_res (not_null (time_cell X ts))) (\<lambda>t.
     seq (db_usage (serial_insert us_id (\<lambda>i. \<lparr>us_id = i, us_timestamp = t, us_installed_apps = apps\<rparr>)))
     (ret ()))))"

definition migrate_table :: "dict \<Rightarrow> string \<Rightarrow> (json \<Rightarrow> ('e shard, unit) act) \<Rightarrow> ('e shard, unit) act" where
  "migrate_table data t f = bnd (lift_res (table_records data t)) (for_each f)"

definition migrate_tables :: "'e ext \<Rightarrow> dict \<Rightarrow> ('e shard, unit) act" where
  "migrate_tables X data =
     seq (migrate_table data ''_default'' migrate_kv_record)
     (seq (migrate_table data ''identities'' migrate_identity_record)
     (seq (migrate_table data ''installed_apps'' (migrate_app_record X))
     (seq (migrate_table data ''terminals'' (migrate_terminal_record X))
     (seq (migrate_table data ''peers'' migrate_peer_record)
     (seq (migrate_table data ''backups'' (migrate_backup_record X))
     (seq (migrate_table data ''tours'' migrate_tour_record)
     (migrate_table data ''app_usage_track'' (migrate_usage_record X))))))))"

definition tinydb_path :: "'e ext \<Rightarrow> path" where
  "tinydb_path X = path_root (cfg X) @ [''core'', ''shard_core_db.json'']"

definition tinydb_backup_path :: "'e ext \<Rightarrow> path" where
  "tinydb_backup_path X = path_root (cfg X) @ [''core'', ''shard_core_db.json.backup'']"

definition migrate_tinydb_data :: "'e ext \<Rightarrow> ('e shard, unit) act" where
  "migrate_tinydb_data X =
     bnd (gets (\<lambda>s. fs_exists (sh_fs s) (tinydb_path X))) (\<lambda>there.
     if \<not> there then ret ()
     else
       bnd (bnd (gets sh_fs) (\<lambda>fs. lift_res (fs_read fs (tinydb_path X)))) (\<lambda>txt.
       bnd (lift_res (loads X txt)) (\<lambda>raw.
       seq (transaction (bnd (lift_res (items (parse_tinydate X raw))) (migrate_tables X)))
       (on_fs (fs_move (tinydb_path X) (tinydb_backup_path X))))))"

section \<open>database.init_database\<close>

text \<open>The schema migrations of yoyo and the connection pool come before these two.\<close>

definition init_database :: "'e ext \<Rightarrow> ('e shard, unit) act" where
  "init_database X = seq (migrate_tinydb_data X) (restore_db_snapshot X)"

section \<open>Properties\<close>

definition keys_unique :: "'e shard \<Rightarrow> bool" where
  "keys_unique s \<longleftrightarrow>
     tbl_ok ia_name (sh_apps s) \<and> tbl_ok id_id (sh_identities s) \<and> tbl_ok tm_id (sh_terminals s)
     \<and> tbl_ok pe_id (sh_peers s) \<and> tbl_ok to_name (sh_tours s) \<and> dict_ok (sh_kv s)
     \<and> tbl_ok bk_id (se_rows (sh_backups s)) \<and> tbl_ok us_id (se_rows (sh_usage s))"

text \<open>\<open>appended s t\<close>: the tables of \<open>t\<close> are those of \<open>s\<close> with rows added, and no key became double.\<close>

definition appended :: "'e shard \<Rightarrow> 'e shard \<Rightarrow> bool" where
  "appended s t \<longleftrightarrow>
     starts_with (sh_apps s) (sh_apps t) \<and> starts_with (sh_identities s) (sh_identities t)
     \<and> starts_with (sh_terminals s) (sh_terminals t) \<and> starts_with (sh_peers s) (sh_peers t)
     \<and> starts_with (sh_tours s) (sh_tours t) \<and> starts_with (sh_kv s) (sh_kv t)
     \<and> starts_with (se_rows (sh_backups s)) (se_rows (sh_backups t))
     \<and> starts_with (se_rows (sh_usage s)) (se_rows (sh_usage t))
     \<and> (keys_unique s \<longrightarrow> keys_unique t)"

interpretation appended: frame appended
  by unfold_locales (auto simp: appended_def intro: starts_with_trans)

lemma appended_rollback: "appended s (rollback s t)"
  by (simp add: appended_def rollback_def keys_unique_def)

lemma moves_appended_transaction:
  assumes "moves appended m"
  shows "moves appended (transaction m)"
proof (rule movesI)
  show "appended s (snd (transaction m s))" for s
    using assms appended_rollback [of s]
    by (auto simp: transaction_def moves_def split: prod.split sum.split) (metis snd_conv)
qed

lemma tbl_ok_snoc: "tbl_ok key t \<Longrightarrow> tbl_find key (key r) t = None \<Longrightarrow> tbl_ok key (t @ [r])"
  by (auto simp: tbl_ok_def tbl_find_None_iff)

lemma moves_appended_inserts:
  "moves appended (db_apps (tbl_insert_ignore ia_name a))"
  "moves appended (db_identities (tbl_insert_ignore id_id i))"
  "moves appended (db_terminals (tbl_insert_ignore tm_id t))"
  "moves appended (db_peers (tbl_insert_ignore pe_id p))"
  "moves appended (db_tours (tbl_insert_ignore to_name r))"
  by (rule movesI, simp add: appended_def keys_unique_def tbl_insert_ignore_def act_simps tbl_ok_snoc)+

lemma moves_appended_kv: "moves appended (db_kv (kv_insert_ignore kv))"
  by (rule movesI)
    (auto simp: appended_def keys_unique_def kv_insert_ignore_def act_simps dict_ok_def map_of_eq_None_iff)

lemma serial_insert_appends:
  assumes "\<And>n. key (mk n) = n"
  shows "starts_with (se_rows t) (se_rows (snd (serial_insert key mk t)))"
    and "tbl_ok key (se_rows t) \<Longrightarrow> tbl_ok key (se_rows (snd (serial_insert key mk t)))"
  using assms by (simp_all add: serial_insert_def Let_def tbl_ok_snoc)

lemma moves_appended_backups:
  assumes "\<And>n. bk_id (mk n) = n"
  shows "moves appended (db_backups (serial_insert bk_id mk))"
  using serial_insert_appends [of bk_id mk, OF assms]
  by (intro movesI) (simp add: appended_def keys_unique_def act_simps split: prod.split, metis snd_conv)

lemma moves_appended_usages:
  assumes "\<And>n. us_id (mk n) = n"
  shows "moves appended (db_usage (serial_insert us_id mk))"
  using serial_insert_appends [of us_id mk, OF assms]
  by (intro movesI) (simp add: appended_def keys_unique_def act_simps split: prod.split, metis snd_conv)

lemma backup_of_dict_id: "backup_of_dict X d = Inr mk \<Longrightarrow> bk_id (mk n) = n"
  by (auto simp: backup_of_dict_def)

lemma moves_appended_backup: "moves appended (migrate_backup_record X r)"
  unfolding migrate_backup_record_def
  by (intro appended.moves_bnd_lift appended.moves_seq appended.moves_ret moves_appended_backups)
    (rule backup_of_dict_id)

lemma moves_appended_usage: "moves appended (migrate_usage_record X r)"
  unfolding migrate_usage_record_def
  by (intro appended.moves_rules moves_appended_usages) simp

lemma moves_appended_records:
  "moves appended (migrate_kv_record r)"
  "moves appended (migrate_identity_record r)"
  "moves appended (migrate_app_record X r)"
  "moves appended (migrate_terminal_record X r)"
  "moves appended (migrate_peer_record r)"
  "moves appended (migrate_tour_record r)"
  unfolding migrate_kv_record_def migrate_identity_record_def migrate_app_record_def Let_def
    migrate_terminal_record_def migrate_peer_record_def migrate_tour_record_def
  by (intro appended.moves_rules moves_appended_inserts moves_appended_kv)+

lemma moves_appended_tables: "moves appended (migrate_tables X data)"
  unfolding migrate_tables_def migrate_table_def
  by (intro appended.moves_rules moves_appended_records moves_appended_backup moves_appended_usage)

lemma moves_appended_fs: "moves appended (on_fs m)"
  by (rule movesI) (simp add: appended_def keys_unique_def act_simps split: prod.split)

lemma moves_appended_tinydb: "moves appended (migrate_tinydb_data X)"
  unfolding migrate_tinydb_data_def
  by (intro appended.moves_rules moves_appended_transaction moves_appended_tables moves_appended_fs)

lemma moves_keeps_fs_db:
  "moves (keeps sh_fs) (db_apps ma)" "moves (keeps sh_fs) (db_identities mi)"
  "moves (keeps sh_fs) (db_terminals mt)" "moves (keeps sh_fs) (db_peers mp)"
  "moves (keeps sh_fs) (db_tours mr)" "moves (keeps sh_fs) (db_kv mk)"
  "moves (keeps sh_fs) (db_backups mb)" "moves (keeps sh_fs) (db_usage mu)"
  by (rule moves_keeps_zoom, simp)+

lemma moves_keeps_fs_tables: "moves (keeps sh_fs) (migrate_tables X data)"
  unfolding migrate_tables_def migrate_table_def migrate_kv_record_def migrate_identity_record_def
    migrate_app_record_def Let_def migrate_terminal_record_def migrate_peer_record_def
    migrate_backup_record_def migrate_tour_record_def migrate_usage_record_def
  by (intro keeps.moves_rules moves_keeps_fs_db)

lemma moves_keeps_fs_transaction:
  assumes "moves (keeps sh_fs) m"
  shows "moves (keeps sh_fs) (transaction m)"
proof (rule movesI)
  show "keeps sh_fs s (snd (transaction m s))" for s
    using moves_keeps_snd [OF assms, of s]
    by (auto simp: keeps_def transaction_def rollback_def split: prod.split sum.split)
qed

lemma transaction_fails: "transaction m s = (Inl e, t) \<Longrightarrow> \<exists>u. t = rollback s u"
  by (auto simp: transaction_def split: prod.splits sum.splits)

lemma same_data_rollback: "same_data s (rollback s t)"
  by (simp add: same_data_def rollback_def)

lemma same_data_refl [simp]: "same_data s s"
  by (simp add: same_data_def)

text \<open>The import as one case distinction: what happens to the tables, then to the file.\<close>

abbreviation tinydb_insert :: "'e ext \<Rightarrow> json \<Rightarrow> ('e shard, unit) act" where
  "tinydb_insert X raw \<equiv> transaction (bnd (lift_res (items (parse_tinydate X raw))) (migrate_tables X))"

lemma tinydb_steps:
  "migrate_tinydb_data X s =
     (if sh_fs s (tinydb_path X) = None then (Inr (), s)
      else case fs_read (sh_fs s) (tinydb_path X) of
             Inl e \<Rightarrow> (Inl e, s)
           | Inr content \<Rightarrow>
               (case loads X content of
                  Inl e \<Rightarrow> (Inl e, s)
                | Inr raw \<Rightarrow>
                    (case tinydb_insert X raw s of
                       (Inl e, u) \<Rightarrow> (Inl e, u)
                     | (Inr _, u) \<Rightarrow>
                         (case fs_move (tinydb_path X) (tinydb_backup_path X) (sh_fs u) of
                            (r, fs) \<Rightarrow> (r, u\<lparr>sh_fs := fs\<rparr>)))))"
  by (simp add: migrate_tinydb_data_def fs_exists_def act_simps split: sum.split prod.split)

lemma tinydb_insert_keeps_fs: "tinydb_insert X raw s = (r, u) \<Longrightarrow> sh_fs u = sh_fs s"
  by (erule moves_keepsD [where f = sh_fs, rotated])
    (intro moves_keeps_fs_transaction keeps.moves_rules moves_keeps_fs_tables)

lemma fs_read_file: "fs_read fs p = Inr c \<Longrightarrow> fs p = Some (File c)"
  by (auto simp: fs_read_def split: option.splits node.splits if_splits)

lemma tinydb_fails:
  assumes "sh_fs s (tinydb_backup_path X) \<noteq> Some Dir" and "migrate_tinydb_data X s = (Inl e, t)"
  shows "same_data s t \<and> sh_fs t = sh_fs s"
proof (cases "fs_read (sh_fs s) (tinydb_path X)")
  case (Inl e')
  then show ?thesis using assms(2) by (simp add: tinydb_steps split: if_splits)
next
  case (Inr content)
  show ?thesis
  proof (cases "loads X content")
    case (Inl e')
    then show ?thesis using assms(2) Inr by (simp add: tinydb_steps split: if_splits)
  next
    case raw: (Inr raw)
    obtain r u where ru: "tinydb_insert X raw s = (r, u)" by (meson surj_pair)
    have stored: "sh_fs s (tinydb_path X) = Some (File content)" by (rule fs_read_file [OF Inr])
    have fs: "sh_fs u = sh_fs s" by (rule tinydb_insert_keeps_fs [OF ru])
    show ?thesis
    proof (cases r)
      case (Inl e')
      then have "t = u" using assms(2) Inr raw ru stored by (simp add: tinydb_steps)
      then show ?thesis using transaction_fails ru Inl fs same_data_rollback by metis
    next
      case (Inr x)
      then have False
        using assms \<open>fs_read (sh_fs s) (tinydb_path X) = Inr content\<close> raw ru stored fs
        by (simp add: tinydb_steps fs_move_def)
      then show ?thesis ..
    qed
  qed
qed

lemma tinydb_succeeds:
  assumes "migrate_tinydb_data X s = (Inr x, t)"
  shows "sh_fs t (tinydb_path X) = None"
proof (cases "sh_fs s (tinydb_path X) = None")
  case True
  then show ?thesis using assms by (simp add: tinydb_steps)
next
  case False
  obtain content where content: "fs_read (sh_fs s) (tinydb_path X) = Inr content"
    using assms False by (auto simp: tinydb_steps split: sum.splits)
  obtain raw where raw: "loads X content = Inr raw"
    using assms False content by (auto simp: tinydb_steps split: sum.splits)
  obtain r u where ru: "tinydb_insert X raw s = (r, u)" by (meson surj_pair)
  have fs: "sh_fs u = sh_fs s" by (rule tinydb_insert_keeps_fs [OF ru])
  have "fs_move (tinydb_path X) (tinydb_backup_path X) (sh_fs s) = (Inr x, sh_fs t)"
    using assms False content raw ru fs by (auto simp: tinydb_steps split: sum.splits prod.splits)
  then have "sh_fs t = (sh_fs s)(tinydb_path X := None, tinydb_backup_path X \<mapsto> File content)"
    by (auto simp: fs_move_def fs_read_file [OF content] split: if_splits)
  then show ?thesis by (simp add: tinydb_path_def tinydb_backup_path_def)
qed

text \<open>
  C35. The import of the old database happens completely or not at all, and once: if it raises, every
  table and the file system are as before, so that the next start tries again; if it returns, rows
  have only been added to the tables (rows that were there win over imported ones with the same
  key), keys stay unique, the old file is gone, and another start finds nothing to import.
\<close>

theorem tinydb_import_once:
  assumes "sh_fs s (tinydb_backup_path X) \<noteq> Some Dir" and "migrate_tinydb_data X s = (r, t)"
  shows "case r of
      Inl _ \<Rightarrow> same_data s t \<and> sh_fs t = sh_fs s
    | Inr _ \<Rightarrow> appended s t \<and> sh_fs t (tinydb_path X) = None \<and> migrate_tinydb_data X t = (Inr (), t)"
proof (cases r)
  case (Inl e)
  then show ?thesis using tinydb_fails assms by simp
next
  case (Inr x)
  then have gone: "sh_fs t (tinydb_path X) = None" using tinydb_succeeds assms(2) by blast
  moreover have "appended s t" using movesD [OF moves_appended_tinydb assms(2)] .
  ultimately show ?thesis using Inr by (simp add: tinydb_steps)
qed

text \<open>An old file with one identity, which has a computed field that is no column.\<close>

definition tinydb_identity :: identity_row where
  "tinydb_identity =
     \<lparr>id_id = ''i'', id_name = Some ''n'', id_email = None, id_description = None,
      id_private_key = Some ''k'', id_is_default = True\<rparr>"

definition tinydb_ext :: "real ext" where
  "tinydb_ext =
     sample_ext\<lparr>x_parser := sample_parser\<lparr>json_loads := (\<lambda>_. Some (JObj [(''identities'',
       JObj [(''1'', JObj (identity_dict tinydb_identity @ [(''short_id'', JStr ''i'')]))])]))\<rparr>\<rparr>"

definition tinydb_shard :: "real shard" where
  "tinydb_shard = sample_shard\<lparr>sh_fs := (\<lambda>p. if p = tinydb_path tinydb_ext then Some (File ''old'') else None)\<rparr>"

lemma tinydb_parsed:
  "loads tinydb_ext c = Inr (JObj [(''identities'',
       JObj [(''1'', JObj (identity_dict tinydb_identity @ [(''short_id'', JStr ''i'')]))])])"
  "map (map_prod (\<lambda>k. k) (parse_tinydate tinydb_ext)) (identity_dict tinydb_identity)
     = identity_dict tinydb_identity"
  "parse_tinydate_str tinydb_ext ''i'' = JStr ''i''"
  by (simp_all add: loads_def tinydb_ext_def identity_dict_def tinydb_identity_def parse_tinydate_str_def
      TINYDATE_PREFIX_def starts_with_def or_null_def)

lemma tinydb_inserts:
  assumes "sh_identities s = []"
  shows "migrate_identity_record (JObj (identity_dict tinydb_identity @ [(''short_id'', JStr ''i'')])) s
    = (Inr (), s\<lparr>sh_identities := [tinydb_identity]\<rparr>)"
  using assms
  by (simp add: migrate_identity_record_def act_simps filter_keys_def IDENTITY_COLUMNS_def identity_dict_def
      tinydb_identity_def or_null_def identity_of_dict_def known_columns_def column_def not_null_def
      text_cell_def tbl_insert_ignore_def tbl_find_def)

lemma tinydb_sample_run:
  "migrate_tinydb_data tinydb_ext tinydb_shard =
     (Inr (), tinydb_shard\<lparr>sh_identities := [tinydb_identity],
        sh_fs := (\<lambda>_. None)(tinydb_backup_path tinydb_ext \<mapsto> File ''old'')\<rparr>)"
proof -
  have ne: "tinydb_path tinydb_ext \<noteq> tinydb_backup_path tinydb_ext"
    by (simp add: tinydb_path_def tinydb_backup_path_def)
  have at: "sh_fs tinydb_shard (tinydb_path tinydb_ext) = Some (File ''old'')"
      "sh_fs tinydb_shard (tinydb_backup_path tinydb_ext) = None" "sh_identities tinydb_shard = []"
    using ne by (simp_all add: tinydb_shard_def sample_shard_def)
  have "tinydb_insert tinydb_ext (JObj [(''identities'',
       JObj [(''1'', JObj (identity_dict tinydb_identity @ [(''short_id'', JStr ''i'')]))])]) tinydb_shard
    = (Inr (), tinydb_shard\<lparr>sh_identities := [tinydb_identity]\<rparr>)"
    using at(3)
    by (simp add: transaction_def act_simps tinydb_parsed(2,3) migrate_tables_def migrate_table_def
        table_records_def column_def tinydb_inserts)
  moreover have "fs_move (tinydb_path tinydb_ext) (tinydb_backup_path tinydb_ext) (sh_fs tinydb_shard)
    = (Inr (), (\<lambda>_. None)(tinydb_backup_path tinydb_ext \<mapsto> File ''old''))"
    using ne at by (simp add: fs_move_def tinydb_shard_def fun_eq_iff)
  ultimately show ?thesis
    by (simp add: tinydb_steps at fs_read_def tinydb_parsed(1))
qed

lemma tinydb_import_once_witness:
  "\<exists>t. migrate_tinydb_data tinydb_ext tinydb_shard = (Inr (), t) \<and> sh_identities t = [tinydb_identity]
     \<and> appended tinydb_shard t \<and> sh_fs t (tinydb_path tinydb_ext) = None
     \<and> migrate_tinydb_data tinydb_ext t = (Inr (), t)"
proof -
  have "sh_fs tinydb_shard (tinydb_backup_path tinydb_ext) \<noteq> Some Dir"
    by (simp add: tinydb_shard_def)
  from tinydb_import_once [OF this tinydb_sample_run] tinydb_sample_run show ?thesis by simp
qed

end
