(* ===== verification/Backup.thy ===== *)
theory Backup
  imports Controller Tinydb_Migration
begin

text \<open>
  \<open>service/backup.py\<close>, \<open>util/passphrase.py\<close>, \<open>data_model/backup.py\<close> and \<open>web/protected/backup.py\<close>: the
  backup of the configured directories with rclone, the passphrase it encrypts with, the report and
  the endpoints.  \<open>start_backup\<close> creates a task that runs later: \<open>sh_backup_tasks\<close> are the tasks that
  have not begun, \<open>sh_backup_running\<close> is the one inside the lock, and \<open>backup_step\<close> interleaves
  requests and tasks.
\<close>

section \<open>util/passphrase.py\<close>

definition DICE :: string where
  "DICE = ''123456''"

fun generate_passphrase_numbers :: "'e ext \<Rightarrow> nat \<Rightarrow> ('e shard, string list) act" where
  "generate_passphrase_numbers X 0 = ret []"
| "generate_passphrase_numbers X (Suc n) =
     bnd (world (x_choices X 5 (length DICE))) (\<lambda>picks.
     bnd (generate_passphrase_numbers X n) (\<lambda>rest.
     ret (map (\<lambda>i. DICE ! i) picks # rest)))"

text \<open>\<open>s.split()\<close>: the words between runs of white space\<close>

fun py_words :: "string \<Rightarrow> string list" where
  "py_words [] = []"
| "py_words (c # cs) =
     (if is_space c then py_words cs
      else case cs of
             [] \<Rightarrow> [[c]]
           | d # ds \<Rightarrow> if is_space d then [c] # py_words ds
                     else case py_words cs of [] \<Rightarrow> [[c]] | w # ws \<Rightarrow> (c # w) # ws)"

definition find_word :: "string list \<Rightarrow> string \<Rightarrow> string result" where
  "find_word lines number =
     (case find (starts_with number) lines of
        None \<Rightarrow> Inl (ValueError number)
      | Some line \<Rightarrow> (case py_words line of _ # w # _ \<Rightarrow> Inr w | _ \<Rightarrow> Inl IndexError))"

fun collect_words :: "string list \<Rightarrow> string list \<Rightarrow> string list result" where
  "collect_words lines [] = Inr []"
| "collect_words lines (n # ns) =
     bind_res (find_word lines n) (\<lambda>w. bind_res (collect_words lines ns) (\<lambda>ws. Inr (w # ws)))"

definition get_passphrase :: "'e ext \<Rightarrow> string list \<Rightarrow> string result" where
  "get_passphrase X phrase_numbers =
     bind_res (x_wordlist X) (\<lambda>content.
     bind_res (collect_words (splitlines content) phrase_numbers) (\<lambda>ws.
     Inr (join_with '' '' ws)))"

section \<open>service/backup.py: the passphrase\<close>

definition STORE_KEY_BACKUP_PASSPHRASE :: string where
  "STORE_KEY_BACKUP_PASSPHRASE = ''backup_passphrase''"

definition STORE_KEY_BACKUP_PASSPHRASE_LAST_ACCESS :: string where
  "STORE_KEY_BACKUP_PASSPHRASE_LAST_ACCESS = ''backup_passphrase_last_access''"

definition ensure_backup_passphrase :: "'e ext \<Rightarrow> ('e shard, unit) act" where
  "ensure_backup_passphrase X =
     try_else (get_value STORE_KEY_BACKUP_PASSPHRASE)
       (\<lambda>e. case e of
              KeyError _ \<Rightarrow>
                bnd (generate_passphrase_numbers X 10) (\<lambda>numbers.
                bnd (lift_res (get_passphrase X numbers)) (\<lambda>passphrase.
                set_value STORE_KEY_BACKUP_PASSPHRASE (JStr passphrase)))
            | _ \<Rightarrow> raise e)
       (\<lambda>_. ret ())"

definition access_info_dump :: "real \<Rightarrow> string \<Rightarrow> json" where
  "access_info_dump t terminal_id = JObj [(''time'', JTime t), (''terminal_id'', JStr terminal_id)]"

definition get_backup_passphrase :: "'e ext \<Rightarrow> string \<Rightarrow> ('e shard, json) act" where
  "get_backup_passphrase X terminal_id =
     bnd (get_value STORE_KEY_BACKUP_PASSPHRASE) (\<lambda>passphrase.
     bnd (now X) (\<lambda>t.
     seq (set_value STORE_KEY_BACKUP_PASSPHRASE_LAST_ACCESS (access_info_dump t terminal_id))
     (ret passphrase)))"

text \<open>\<open>subprocess.run([...]).stdout.strip()\<close>: the return code is not looked at.\<close>

definition get_obscured_passphrase :: "'e ext \<Rightarrow> ('e shard, string) act" where
  "get_obscured_passphrase X =
     bnd (get_value STORE_KEY_BACKUP_PASSPHRASE) (\<lambda>v.
     case v of
       JStr passphrase \<Rightarrow>
         (let args = [''rclone'', ''obscure'', passphrase] in
          seq (modify (\<lambda>s. s\<lparr>sh_ran := sh_ran s @ [args]\<rparr>))
          (bnd (world (x_run X args)) (\<lambda>oc.
           case oc of Exited rc out err \<Rightarrow> ret (strip out) | _ \<Rightarrow> raise FileNotFoundError)))
     | _ \<Rightarrow> raise TypeError)"

section \<open>service/backup.py: the directories\<close>

definition backup_command :: "string \<Rightarrow> string \<Rightarrow> string \<Rightarrow> string \<Rightarrow> string" where
  "backup_command sas_token obscured_password container directory =
     (let nl = [CHR 0x0A] in
      nl @ ''rclone'' @ nl @ ''--azureblob-sas-url '' @ sas_token @ nl
      @ ''--crypt-password '' @ obscured_password @ nl
      @ ''--crypt-remote :azureblob:'' @ container @ nl
      @ ''sync '' @ directory @ '' :crypt:'' @ container @ ''/'' @ directory @ nl
      @ ''--create-empty-src-dirs --stats-log-level NOTICE --stats 1000m --use-json-log'' @ nl
      @ ''--fast-list'' @ nl)"

text \<open>\<open>stderr.decode().split("\n")[-2]\<close>\<close>

definition last_entry :: "string \<Rightarrow> string result" where
  "last_entry err =
     (let ls = split_on CHR 0x0A err in
      if length ls < 2 then Inl IndexError else Inr (ls ! (length ls - 2)))"

definition rclone_stats :: "'e ext \<Rightarrow> string \<Rightarrow> json result" where
  "rclone_stats X err =
     bind_res (last_entry err) (\<lambda>entry.
     bind_res (loads X entry) (\<lambda>result. record_item result ''stats''))"

definition backup_directory :: "'e ext \<Rightarrow> string \<Rightarrow> string \<Rightarrow> string \<Rightarrow> string \<Rightarrow> ('e shard, json) act" where
  "backup_directory X container rel_directory obscured_passphrase sas_token =
     (let args = py_words (backup_command sas_token obscured_passphrase container rel_directory) in
      seq (modify (\<lambda>s. s\<lparr>sh_ran := sh_ran s @ [args]\<rparr>))
      (bnd (world (x_run X args)) (\<lambda>oc.
       case oc of
         Exited rc out err \<Rightarrow>
           if rc \<noteq> 0 then raise (BackupFailed (strip err)) else lift_res (rclone_stats X err)
       | _ \<Rightarrow> raise FileNotFoundError)))"

text \<open>\<open>str(directory.relative_to(path_root))\<close>\<close>

definition relative_path :: "path \<Rightarrow> string" where
  "relative_path p = (if p = [] then ''.'' else join_with ''/'' p)"

definition get_relative_directory :: "'e ext \<Rightarrow> path \<Rightarrow> string result" where
  "get_relative_directory X directory =
     (let root = path_root (cfg X) in
      if starts_with root directory then Inr (relative_path (drop (length root) directory))
      else Inl (ValueError ''relative_to''))"

text \<open>One turn of the loop: none when the directory does not exist.\<close>

definition backup_one :: "'e ext \<Rightarrow> string \<Rightarrow> string \<Rightarrow> string \<Rightarrow> path \<Rightarrow> ('e shard, backup_stats option) act" where
  "backup_one X container obscured_passphrase sas_token directory =
     bnd (gets (\<lambda>s. fs_is_dir (sh_fs s) directory)) (\<lambda>is_dir.
     if \<not> is_dir then ret None
     else
       bnd (now X) (\<lambda>start_time.
       bnd (lift_res (get_relative_directory X directory)) (\<lambda>rel_directory.
       bnd (backup_directory X container rel_directory obscured_passphrase sas_token) (\<lambda>stats.
       bnd (now X) (\<lambda>end_time.
       bnd (lift_res (need (as_obj stats))) (\<lambda>d.
       ret (Some \<lparr>bs_directory = rel_directory, bs_start_time = start_time, bs_end_time = end_time,
                  bs_rclone_stats = d\<rparr>)))))))"

fun backup_each :: "'e ext \<Rightarrow> string \<Rightarrow> string \<Rightarrow> string \<Rightarrow> path list \<Rightarrow> ('e shard, backup_stats list) act" where
  "backup_each X container obscured_passphrase sas_token [] = ret []"
| "backup_each X container obscured_passphrase sas_token (d # ds) =
     bnd (backup_one X container obscured_passphrase sas_token d) (\<lambda>r.
     bnd (backup_each X container obscured_passphrase sas_token ds) (\<lambda>rs.
     ret (case r of None \<Rightarrow> rs | Some x \<Rightarrow> x # rs)))"

text \<open>
  \<open>urlunparse(urlparse(url)._replace(path=p))\<close> for a URL with a host and an absolute path \<open>p\<close>; the
  parameters after a semicolon of the last path segment stay.
\<close>

definition url_scheme_end :: "string \<Rightarrow> nat" where
  "url_scheme_end url = length (takeWhile (\<lambda>c. c \<noteq> CHR '':'') url)"

definition url_path_params :: "string \<Rightarrow> string" where
  "url_path_params p = dropWhile (\<lambda>c. c \<noteq> CHR '';'') (last (split_on CHR ''/'' p))"

definition replace_url_path :: "string \<Rightarrow> string \<Rightarrow> string" where
  "replace_url_path url p =
     (let n = url_scheme_end url;
          scheme = lower (take n url);
          rest = drop (n + 3) url;
          netloc = takeWhile (\<lambda>c. c \<notin> set ''/?#'') rest;
          remainder = dropWhile (\<lambda>c. c \<notin> set ''/?#'') rest;
          old_path = takeWhile (\<lambda>c. c \<notin> set ''?#'') remainder;
          query = dropWhile (\<lambda>c. c \<notin> set ''?#'') remainder
      in scheme @ ''://'' @ netloc @ p @ url_path_params old_path @ query)"

definition write_marker_blob :: "'e ext \<Rightarrow> string \<Rightarrow> string \<Rightarrow> ('e shard, unit) act" where
  "write_marker_blob X container sas_token =
     try_except
       (bnd (now X) (\<lambda>t.
        world_res (x_upload_blob X (replace_url_path sas_token (''/'' @ container @ ''/_last_backup''))
                     (x_isoformat X t))))
       (\<lambda>_. ret ())"

section \<open>service/backup.py: one backup\<close>

text \<open>The body of \<open>async with BACKUP_IN_PROGESS_LOCK\<close>\<close>

definition backup_work :: "'e ext \<Rightarrow> path list \<Rightarrow> string \<Rightarrow> string \<Rightarrow> ('e shard, unit) act" where
  "backup_work X directories container sas_token =
     bnd (now X) (\<lambda>overall_start_time.
     seq (write_db_snapshot X)
     (bnd (get_obscured_passphrase X) (\<lambda>obscured_passphrase.
      bnd (backup_each X container obscured_passphrase sas_token directories) (\<lambda>dir_stats.
      bnd (now X) (\<lambda>overall_end_time.
      seq (db_backups (backups_insert \<lparr>br_directories = dir_stats, br_start_time = overall_start_time,
             br_end_time = overall_end_time\<rparr>))
      (write_marker_blob X container sas_token))))))"

definition backup_directories :: "'e ext \<Rightarrow> path list \<Rightarrow> string \<Rightarrow> string \<Rightarrow> ('e shard, unit) act" where
  "backup_directories X directories container sas_token =
     bnd (gets sh_backup_lock) (\<lambda>locked.
     if locked then raise BackupInProgress
     else
       seq (modify (\<lambda>s. s\<lparr>sh_backup_lock := True\<rparr>))
       (try_else (backup_work X directories container sas_token)
          (\<lambda>e. seq (modify (\<lambda>s. s\<lparr>sh_backup_lock := False\<rparr>)) (raise e))
          (\<lambda>_. modify (\<lambda>s. s\<lparr>sh_backup_lock := False\<rparr>))))"

text \<open>
  \<open>start_backup\<close> up to its \<open>await\<close>, and from there on.  The callback on the end of the task is
  \<open>on_task_done\<close>.
\<close>

definition start_backup_check :: "('e shard, unit) act" where
  "start_backup_check =
     bnd (gets sh_backup_lock) (\<lambda>locked. if locked then raise BackupStartFailed else ret ())"

definition start_backup_submit :: "'e ext \<Rightarrow> ('e shard, unit) act" where
  "start_backup_submit X =
     (let directories = map (path_join (path_root (cfg X))) (backup_dirs (cfg X)) in
      bnd (try_except (get_backup_sas_url X)
             (\<lambda>e. case e of RequestsHTTPError _ \<Rightarrow> raise BackupStartFailed | _ \<Rightarrow> raise e)) (\<lambda>r.
      modify (\<lambda>s. s\<lparr>sh_backup_tasks := sh_backup_tasks s @ [(directories, snd r, fst r)]\<rparr>)))"

definition start_backup :: "'e ext \<Rightarrow> ('e shard, unit) act" where
  "start_backup X = seq start_backup_check (start_backup_submit X)"

definition on_task_done :: "exn option \<Rightarrow> ('e shard, unit) act" where
  "on_task_done e = on_backup_update e"

section \<open>Tasks\<close>

text \<open>A task begins: it takes the lock, or fails because another one has it.\<close>

definition backup_task_starts :: "('e shard, unit) act" where
  "backup_task_starts =
     bnd (gets sh_backup_tasks) (\<lambda>ts.
     case ts of
       [] \<Rightarrow> ret ()
     | task # rest \<Rightarrow>
         seq (modify (\<lambda>s. s\<lparr>sh_backup_tasks := rest\<rparr>))
         (bnd (gets sh_backup_lock) (\<lambda>locked.
          if locked then on_task_done (Some BackupInProgress)
          else modify (\<lambda>s. s\<lparr>sh_backup_lock := True, sh_backup_running := Some task\<rparr>))))"

text \<open>The task inside the lock does its work, releases the lock and is answered for.\<close>

definition backup_task_ends :: "'e ext \<Rightarrow> ('e shard, unit) act" where
  "backup_task_ends X =
     bnd (gets sh_backup_running) (\<lambda>running.
     case running of
       None \<Rightarrow> ret ()
     | Some (directories, container, sas_token) \<Rightarrow>
         (let release = modify (\<lambda>s. s\<lparr>sh_backup_lock := False, sh_backup_running := None\<rparr>) in
          try_else (backup_work X directories container sas_token)
            (\<lambda>e. seq release (on_task_done (Some e)))
            (\<lambda>_. seq release (on_task_done None))))"

section \<open>The report and the endpoints\<close>

definition backup_stats_of :: "json \<Rightarrow> backup_stats result" where
  "backup_stats_of j =
     bind_res (need (as_obj j)) (\<lambda>d.
     bind_res (required as_str d ''directory'') (\<lambda>n.
     bind_res (required as_time d ''startTime'') (\<lambda>st.
     bind_res (required as_time d ''endTime'') (\<lambda>en.
     bind_res (required as_obj d ''rclone_stats'') (\<lambda>st'.
     Inr \<lparr>bs_directory = n, bs_start_time = st, bs_end_time = en, bs_rclone_stats = st'\<rparr>)))))"

definition backup_report_of :: "json \<times> real option \<times> real option \<Rightarrow> backup_report result" where
  "backup_report_of row =
     (case row of
        (JArr ds, Some st, Some en) \<Rightarrow>
          bind_res (collect_res backup_stats_of ds) (\<lambda>dirs.
          Inr \<lparr>br_directories = dirs, br_start_time = st, br_end_time = en\<rparr>)
      | _ \<Rightarrow> Inl ValidationError)"

definition get_latest_backup_report :: "('e shard, backup_report option) act" where
  "get_latest_backup_report =
     bnd (db_backups backups_get_latest) (\<lambda>row.
     case row of
       None \<Rightarrow> ret None
     | Some r \<Rightarrow> bnd (lift_res (backup_report_of r)) (\<lambda>report. ret (Some report)))"

record access_info =
  ac_time :: real
  ac_terminal_id :: string
  ac_terminal_name :: string

definition access_info_of :: "json \<Rightarrow> (real \<times> string) result" where
  "access_info_of v =
     bind_res (need (as_obj v)) (\<lambda>d.
     bind_res (required as_time d ''time'') (\<lambda>t.
     bind_res (required as_str d ''terminal_id'') (\<lambda>i. Inr (t, i))))"

text \<open>\<open>web/protected/backup.py\<close>\<close>

definition get_backup_info :: "('e shard, backup_report option \<times> access_info option) act" where
  "get_backup_info =
     bnd (try_else (bnd (get_value STORE_KEY_BACKUP_PASSPHRASE_LAST_ACCESS) (\<lambda>v. lift_res (access_info_of v)))
            (\<lambda>e. case e of KeyError _ \<Rightarrow> ret None | _ \<Rightarrow> raise e)
            (\<lambda>(t, i).
               bnd (db_terminals (terminals_get_by_id i)) (\<lambda>terminal.
               ret (Some \<lparr>ac_time = t, ac_terminal_id = i,
                          ac_terminal_name = (case terminal of None \<Rightarrow> ''Unknown'' | Some r \<Rightarrow> tm_name r)\<rparr>)))) (\<lambda>info.
     bnd get_latest_backup_report (\<lambda>report.
     ret (report, info)))"

definition web_get_backup_passphrase :: "'e ext \<Rightarrow> string option \<Rightarrow> ('e shard, string) act" where
  "web_get_backup_passphrase X client_id =
     (case client_id of
        None \<Rightarrow> raise (HTTPException 400)
      | Some i \<Rightarrow>
          if i = [] then raise (HTTPException 400)
          else bnd (get_backup_passphrase X i) (\<lambda>v. lift_res (need (as_str v))))"

definition web_start_backup :: "'e ext \<Rightarrow> ('e shard, unit) act" where
  "web_start_backup X =
     try_except (start_backup X)
       (\<lambda>e. case e of BackupStartFailed \<Rightarrow> raise (HTTPException 500) | _ \<Rightarrow> raise e)"

section \<open>Frames\<close>

lemma moves_keeps_backup_directory:
  assumes "\<And>e s. f (s\<lparr>sh_env := e\<rparr>) = f s" and "\<And>s r. f (s\<lparr>sh_ran := r\<rparr>) = f s"
  shows "moves (keeps f) (backup_directory X c d p sas)"
proof -
  have "moves (keeps f) (case oc of
         Exited rc out err \<Rightarrow>
           if rc \<noteq> 0 then raise (BackupFailed (strip err)) else lift_res (rclone_stats X err)
       | _ \<Rightarrow> raise FileNotFoundError)" for oc
    by (cases oc) (simp_all add: keeps.moves_raise keeps.moves_lift_res)
  then show ?thesis
    unfolding backup_directory_def Let_def
    by (intro keeps.moves_seq keeps.moves_bnd moves_keeps_modify moves_keeps_world assms)
qed

lemma moves_keeps_backup_one:
  assumes "\<And>e s. f (s\<lparr>sh_env := e\<rparr>) = f s" and "\<And>s r. f (s\<lparr>sh_ran := r\<rparr>) = f s"
  shows "moves (keeps f) (backup_one X c p sas d)"
  unfolding backup_one_def
  by (intro keeps.moves_rules moves_keeps_now moves_keeps_backup_directory assms)

lemma moves_keeps_backup_each:
  assumes "\<And>e s. f (s\<lparr>sh_env := e\<rparr>) = f s" and "\<And>s r. f (s\<lparr>sh_ran := r\<rparr>) = f s"
  shows "moves (keeps f) (backup_each X c p sas ds)"
  by (induction ds) (simp_all add: keeps.moves_ret keeps.moves_bnd moves_keeps_backup_one assms)

lemma moves_keeps_obscured:
  assumes "\<And>e s. f (s\<lparr>sh_env := e\<rparr>) = f s" and "\<And>s r. f (s\<lparr>sh_ran := r\<rparr>) = f s"
  shows "moves (keeps f) (get_obscured_passphrase X)"
proof -
  have oc: "moves (keeps f) (case oc of Exited rc out err \<Rightarrow> ret (strip out) | _ \<Rightarrow> raise FileNotFoundError)" for oc
    by (cases oc) (simp_all add: keeps.moves_raise keeps.moves_ret)
  have "moves (keeps f) (case v of
       JStr passphrase \<Rightarrow>
         (let args = [''rclone'', ''obscure'', passphrase] in
          seq (modify (\<lambda>s. s\<lparr>sh_ran := sh_ran s @ [args]\<rparr>))
          (bnd (world (x_run X args)) (\<lambda>oc.
           case oc of Exited rc out err \<Rightarrow> ret (strip out) | _ \<Rightarrow> raise FileNotFoundError)))
     | _ \<Rightarrow> raise TypeError)" for v
    unfolding Let_def
    by (cases v)
      (simp_all add: keeps.moves_raise keeps.moves_seq keeps.moves_bnd moves_keeps_modify moves_keeps_world assms oc)
  then show ?thesis
    unfolding get_obscured_passphrase_def by (intro keeps.moves_bnd moves_keeps_get_value)
qed

lemma moves_keeps_marker:
  assumes "\<And>e s. f (s\<lparr>sh_env := e\<rparr>) = f s"
  shows "moves (keeps f) (write_marker_blob X c sas)"
  unfolding write_marker_blob_def
  by (intro keeps.moves_rules moves_keeps_now moves_keeps_world_res assms)

lemma moves_keeps_write_snapshot:
  assumes "\<And>x s. f (sh_fs_update x s) = f s"
  shows "moves (keeps f) (write_db_snapshot X)"
  unfolding write_db_snapshot_def Let_def
  by (intro keeps.moves_rules moves_keeps_zoom assms)

lemma moves_keeps_backup_work:
  assumes "\<And>e s. f (s\<lparr>sh_env := e\<rparr>) = f s" and "\<And>s r. f (s\<lparr>sh_ran := r\<rparr>) = f s"
    and "\<And>x s. f (sh_fs_update x s) = f s" and "\<And>x s. f (sh_backups_update x s) = f s"
  shows "moves (keeps f) (backup_work X ds c sas)"
  unfolding backup_work_def
  by (intro keeps.moves_bnd keeps.moves_seq moves_keeps_now moves_keeps_obscured moves_keeps_backup_each
      moves_keeps_marker moves_keeps_write_snapshot moves_keeps_zoom assms)

section \<open>What a backup records\<close>

lemma marker_returns: "\<exists>t. write_marker_blob X c sas s = (Inr (), t)"
  by (auto simp: write_marker_blob_def act_simps split: prod.split sum.split)

lemma backup_directory_ran:
  assumes "backup_directory X c d p sas s = (r, t)"
  shows "sh_ran t = sh_ran s @ [py_words (backup_command sas p c d)]"
  using assms
  by (auto simp: backup_directory_def Let_def act_simps split: prod.splits outcome.splits if_splits)

lemma now_ran: "now X s = (r, t) \<Longrightarrow> sh_ran t = sh_ran s"
  by (auto simp: now_apply split: prod.splits)

lemma backup_one_some:
  assumes "backup_one X c p sas d s = (Inr ro, t)"
  shows "if fs_is_dir (sh_fs s) d
    then \<exists>x. ro = Some x \<and> get_relative_directory X d = Inr (bs_directory x)
           \<and> sh_ran t = sh_ran s @ [py_words (backup_command sas p c (bs_directory x))]
    else ro = None \<and> sh_ran t = sh_ran s"
proof (cases "fs_is_dir (sh_fs s) d")
  case True
  obtain st u1 rel stats u2 en dd where r:
    "now X s = (Inr st, u1)" "get_relative_directory X d = Inr rel"
    "backup_directory X c rel p sas u1 = (Inr stats, u2)" "now X u2 = (Inr en, t)"
    "ro = Some \<lparr>bs_directory = rel, bs_start_time = st, bs_end_time = en, bs_rclone_stats = dd\<rparr>"
    using assms True by (auto simp: backup_one_def bnd_Inr_iff act_atoms)
  then show ?thesis
    using True now_ran [OF r(1)] now_ran [OF r(4)] backup_directory_ran [OF r(3)] by simp
next
  case False
  then show ?thesis using assms by (simp add: backup_one_def act_simps)
qed

lemma backup_each_stats:
  assumes "backup_each X c p sas ds s = (Inr stats, t)"
  shows "map (\<lambda>x. Inr (bs_directory x)) stats
      = map (get_relative_directory X) (filter (fs_is_dir (sh_fs s)) ds)
    \<and> sh_ran t = sh_ran s @ map (\<lambda>x. py_words (backup_command sas p c (bs_directory x))) stats"
  using assms
proof (induction ds arbitrary: s stats)
  case Nil
  then show ?case by (simp add: act_simps)
next
  case (Cons d ds)
  obtain ro u where one: "backup_one X c p sas d s = (Inr ro, u)"
    using Cons.prems by (auto simp: bnd_Inr_iff)
  obtain rest where rest: "backup_each X c p sas ds u = (Inr rest, t)"
      "stats = (case ro of None \<Rightarrow> rest | Some x \<Rightarrow> x # rest)"
    using Cons.prems one by (auto simp: bnd_Inr_iff act_atoms)
  have "sh_fs u = sh_fs s"
    by (rule moves_keepsD [where f = sh_fs, OF moves_keeps_backup_one one]) simp_all
  then show ?case
    using Cons.IH [OF rest(1)] backup_one_some [OF one] rest(2) by (auto split: if_splits)
qed

lemma obscured_ran:
  assumes "get_obscured_passphrase X s = (Inr p, t)"
  shows "\<exists>q. map_of (sh_kv s) STORE_KEY_BACKUP_PASSPHRASE = Some (JStr q)
    \<and> sh_ran t = sh_ran s @ [[''rclone'', ''obscure'', q]]"
proof -
  obtain v where v: "map_of (sh_kv s) STORE_KEY_BACKUP_PASSPHRASE = Some v"
    using assms by (auto simp: get_obscured_passphrase_def act_simps split: option.splits)
  then show ?thesis
    using assms by (cases v)
      (auto simp: get_obscured_passphrase_def Let_def act_simps split: prod.splits outcome.splits)
qed

lemma backups_insert_Inr:
  assumes "db_backups (backups_insert report) s = (Inr row, t)"
  shows "se_rows (sh_backups t) = se_rows (sh_backups s) @ [row]
    \<and> bk_directories row = JArr (map backup_stats_dump (br_directories report)) \<and> sh_ran t = sh_ran s
    \<and> sh_fs t = sh_fs s"
  using assms
  by (auto simp: act_simps backups_insert_def serial_insert_def Let_def split: prod.splits if_splits)

lemma backup_work_success:
  assumes "backup_work X ds c sas s = (Inr (), t)"
  shows "\<exists>row stats q p.
    se_rows (sh_backups t) = se_rows (sh_backups s) @ [row]
    \<and> bk_directories row = JArr (map backup_stats_dump stats)
    \<and> map (\<lambda>x. Inr (bs_directory x)) stats = map (get_relative_directory X) (filter (fs_is_dir (sh_fs t)) ds)
    \<and> map_of (sh_kv s) STORE_KEY_BACKUP_PASSPHRASE = Some (JStr q)
    \<and> sh_ran t = sh_ran s @ [''rclone'', ''obscure'', q]
         # map (\<lambda>x. py_words (backup_command sas p c (bs_directory x))) stats"
proof -
  let ?same = "\<lambda>a b. sh_fs b = sh_fs a \<and> sh_ran b = sh_ran a \<and> sh_backups b = sh_backups a \<and> sh_kv b = sh_kv a"
  obtain st u1 u2 p u3 stats u4 en u5 row u6 where
    1: "now X s = (Inr st, u1)" "write_db_snapshot X u1 = (Inr (), u2)"
      "get_obscured_passphrase X u2 = (Inr p, u3)" "backup_each X c p sas ds u3 = (Inr stats, u4)"
      "now X u4 = (Inr en, u5)"
      "db_backups (backups_insert \<lparr>br_directories = stats, br_start_time = st, br_end_time = en\<rparr>) u5 = (Inr row, u6)"
      "write_marker_blob X c sas u6 = (Inr (), t)"
    using assms by (auto simp: backup_work_def bnd_Inr_iff seq_Inr_iff)
  have a: "?same s u1" "?same u4 u5"
    using 1(1,5) by (auto simp: now_apply split: prod.splits)
  have b: "sh_ran u2 = sh_ran u1" "sh_backups u2 = sh_backups u1" "sh_kv u2 = sh_kv u1"
    by (rule moves_keepsD [OF moves_keeps_write_snapshot 1(2)], simp)+
  have c: "sh_fs u3 = sh_fs u2" "sh_backups u3 = sh_backups u2"
    by (rule moves_keepsD [OF moves_keeps_obscured 1(3)], simp, simp)+
  have d: "sh_fs u4 = sh_fs u3" "sh_backups u4 = sh_backups u3"
    by (rule moves_keepsD [OF moves_keeps_backup_each 1(4)], simp, simp)+
  have e: "sh_fs t = sh_fs u6" "sh_ran t = sh_ran u6" "sh_backups t = sh_backups u6"
    by (rule moves_keepsD [OF moves_keeps_marker 1(7)], simp)+
  obtain q where q: "map_of (sh_kv u2) STORE_KEY_BACKUP_PASSPHRASE = Some (JStr q)"
      "sh_ran u3 = sh_ran u2 @ [[''rclone'', ''obscure'', q]]"
    using obscured_ran [OF 1(3)] by blast
  show ?thesis
    using backups_insert_Inr [OF 1(6)] backup_each_stats [OF 1(4)] q a b c d e
    by (intro exI [of _ row] exI [of _ stats] exI [of _ q] exI [of _ p]) simp
qed

text \<open>\<open>fails_keeping f m\<close>: an exception of \<open>m\<close> leaves the part \<open>f\<close> of the state alone.\<close>

definition fails_keeping :: "('s \<Rightarrow> 'v) \<Rightarrow> ('s, 'a) act \<Rightarrow> bool" where
  "fails_keeping f m \<longleftrightarrow> (\<forall>s e t. m s = (Inl e, t) \<longrightarrow> f t = f s)"

lemma fails_keeping_bnd:
  assumes "moves (keeps f) m" and "\<And>x. fails_keeping f (k x)"
  shows "fails_keeping f (bnd m k)"
  unfolding fails_keeping_def
proof (intro allI impI)
  fix s e t
  assume b: "bnd m k s = (Inl e, t)"
  obtain r u where m: "m s = (r, u)" by (meson surj_pair)
  then have "f u = f s" by (rule moves_keepsD [OF assms(1)])
  then show "f t = f s"
    using b m assms(2) by (cases r) (auto simp: act_simps fails_keeping_def)
qed

lemma fails_keeping_seq: "moves (keeps f) m \<Longrightarrow> fails_keeping f n \<Longrightarrow> fails_keeping f (seq m n)"
  by (simp add: seq_def fails_keeping_bnd)

lemma record_fails_keeping:
  "fails_keeping (\<lambda>s. se_rows (sh_backups s)) (seq (db_backups (backups_insert report)) (write_marker_blob X c sas))"
  unfolding fails_keeping_def
proof (intro allI impI)
  fix s e t
  assume s: "seq (db_backups (backups_insert report)) (write_marker_blob X c sas) s = (Inl e, t)"
  obtain r u where i: "db_backups (backups_insert report) s = (r, u)" by (meson surj_pair)
  show "se_rows (sh_backups t) = se_rows (sh_backups s)"
  proof (cases r)
    case (Inl e')
    then show ?thesis
      using s i by (auto simp: act_simps backups_insert_def serial_insert_def Let_def split: if_splits)
  next
    case (Inr row)
    then show ?thesis using s i marker_returns [of X c sas u] by (auto simp: act_apply(4))
  qed
qed

lemma backup_work_failure:
  assumes "backup_work X ds c sas s = (Inl e, t)"
  shows "se_rows (sh_backups t) = se_rows (sh_backups s)"
proof -
  have "fails_keeping (\<lambda>s. se_rows (sh_backups s)) (backup_work X ds c sas)"
    unfolding backup_work_def
    by (intro fails_keeping_bnd fails_keeping_seq record_fails_keeping moves_keeps_now
        moves_keeps_write_snapshot moves_keeps_obscured moves_keeps_backup_each) simp_all
  then show ?thesis using assms by (simp add: fails_keeping_def)
qed

lemma backup_directories_outcome:
  assumes "backup_directories X ds c sas s = (r, t)" and "\<not> sh_backup_lock s"
  shows "\<exists>u. backup_work X ds c sas (s\<lparr>sh_backup_lock := True\<rparr>) = (r, u) \<and> t = u\<lparr>sh_backup_lock := False\<rparr>"
  using assms by (auto simp: backup_directories_def act_simps split: prod.splits sum.splits)

text \<open>
  C37. What a backup does: the lock is free again however it ends.  If it fails, no report is added.
  If it returns, exactly one report was added, and it lists, in the configured order, exactly the
  directories that exist; the processes that ran are one \<open>rclone obscure\<close> of the stored passphrase and
  one encrypted sync per listed directory.
\<close>

theorem backup_report_complete:
  assumes "backup_directories X ds c sas s = (r, t)" and "\<not> sh_backup_lock s"
  shows "\<not> sh_backup_lock t \<and>
    (case r of
       Inl _ \<Rightarrow> se_rows (sh_backups t) = se_rows (sh_backups s)
     | Inr _ \<Rightarrow> (\<exists>row stats q p.
         se_rows (sh_backups t) = se_rows (sh_backups s) @ [row]
         \<and> bk_directories row = JArr (map backup_stats_dump stats)
         \<and> map (\<lambda>x. Inr (bs_directory x)) stats = map (get_relative_directory X) (filter (fs_is_dir (sh_fs t)) ds)
         \<and> map_of (sh_kv s) STORE_KEY_BACKUP_PASSPHRASE = Some (JStr q)
         \<and> sh_ran t = sh_ran s @ [''rclone'', ''obscure'', q]
              # map (\<lambda>x. py_words (backup_command sas p c (bs_directory x))) stats))"
proof -
  obtain u where u: "backup_work X ds c sas (s\<lparr>sh_backup_lock := True\<rparr>) = (r, u)"
      "t = u\<lparr>sh_backup_lock := False\<rparr>"
    using backup_directories_outcome [OF assms] by blast
  show ?thesis
  proof (cases r)
    case (Inl e)
    then show ?thesis using backup_work_failure u by fastforce
  next
    case (Inr x)
    then have w: "backup_work X ds c sas (s\<lparr>sh_backup_lock := True\<rparr>) = (Inr (), u)" using u by simp
    show ?thesis using backup_work_success [OF w] u(2) Inr by simp
  qed
qed

text \<open>A shard with a passphrase and one directory to back up; rclone prints one line of JSON.\<close>

definition backup_ext :: "real ext" where
  "backup_ext =
     sample_ext\<lparr>x_run := (\<lambda>args e. (Exited 0 ''o'' ('' { '' @ [CHR 0x0A]), e)),
       x_parser := sample_parser\<lparr>json_loads := (\<lambda>_. Some (JObj [(''stats'', JObj [])]))\<rparr>\<rparr>"

definition backup_shard :: "real shard" where
  "backup_shard =
     sample_shard\<lparr>sh_kv := [(STORE_KEY_BACKUP_PASSPHRASE, JStr ''pass'')],
       sh_fs := [[''r''] \<mapsto> Dir, [''r'', ''core''] \<mapsto> Dir]\<rparr>"

lemma backup_sample_snapshot:
  "write_db_snapshot backup_ext s =
     (let tmp = [''r'', ''core'', ''db_snapshot.json.tmp''] in
      seq (on_fs (fs_mkdirs [''r'', ''core'']))
      (seq (on_fs (fs_write tmp ''j''))
      (on_fs (fs_move tmp [''r'', ''core'', ''db_snapshot.json''])))) s"
proof -
  have root: "path_root (cfg backup_ext) = [''r'']" by (simp add: backup_ext_def sample_ext_def sample_cfg_def)
  have p: "snapshot_path backup_ext = [''r'', ''core'', ''db_snapshot.json'']"
    unfolding snapshot_path_def root by code_simp
  have "x_json_dumps backup_ext j = ''j''" for j by (simp add: backup_ext_def sample_ext_def)
  then show ?thesis by (simp add: write_db_snapshot_def Let_def act_simps p parent_def)
qed

lemma backup_sample_run:
  "\<exists>t. backup_directories backup_ext [[''r'', ''core''], [''r'', ''user_data'']] ''c'' ''u'' backup_shard = (Inr (), t)"
proof -
  have X: "path_root (cfg backup_ext) = [''r'']" "x_time backup_ext = (\<lambda>e. (e, e))"
      "x_run backup_ext args e = (Exited 0 ''o'' ('' { '' @ [CHR 0x0A]), e)"
      "x_upload_blob backup_ext b c' e = (Inr (), e)" for args e b c'
    by (simp_all add: backup_ext_def sample_ext_def sample_cfg_def)
  have st: "rclone_stats backup_ext ('' { '' @ [CHR 0x0A]) = Inr (JObj [])"
    by (simp add: rclone_stats_def last_entry_def loads_def record_item_def dict_item_def backup_ext_def)
  have s: "sh_fs backup_shard = [[''r''] \<mapsto> Dir, [''r'', ''core''] \<mapsto> Dir]" "sh_backup_lock backup_shard = False"
      "sh_kv backup_shard = [(STORE_KEY_BACKUP_PASSPHRASE, JStr ''pass'')]" "sh_backups backup_shard = empty_serial"
    by (simp_all add: backup_shard_def sample_shard_def)
  show ?thesis
    using st
    by (simp add: backup_directories_def backup_work_def act_simps X s backup_sample_snapshot Let_def
        fs_mkdirs_def fs_write_def fs_move_def parent_def get_obscured_passphrase_def backup_one_def
        fs_is_dir_def get_relative_directory_def starts_with_def relative_path_def backup_directory_def
        need_def write_marker_blob_def world_res_def backups_insert_def serial_insert_def empty_serial_def
        tbl_find_def)
qed

lemma backup_report_complete_witness:
  "\<exists>t row stats. backup_directories backup_ext [[''r'', ''core''], [''r'', ''user_data'']] ''c'' ''u'' backup_shard = (Inr (), t)
     \<and> \<not> sh_backup_lock t \<and> se_rows (sh_backups t) = [row]
     \<and> bk_directories row = JArr (map backup_stats_dump stats)"
proof -
  obtain t where run: "backup_directories backup_ext [[''r'', ''core''], [''r'', ''user_data'']] ''c'' ''u'' backup_shard
      = (Inr (), t)"
    using backup_sample_run by blast
  have free: "\<not> sh_backup_lock backup_shard" by (simp add: backup_shard_def sample_shard_def)
  have none: "se_rows (sh_backups backup_shard) = []"
    by (simp add: backup_shard_def sample_shard_def empty_serial_def)
  show ?thesis using backup_report_complete [OF run free] run none by auto
qed

section \<open>Requests and tasks interleaved\<close>

text \<open>
  The steps between which the event loop may switch; the counter is the number of tasks created.  A
  request that has passed its check may be answered by the controller at any later time, so its
  second half is a step of its own.
\<close>

inductive backup_step :: "'e ext \<Rightarrow> nat \<times> 'e shard \<Rightarrow> nat \<times> 'e shard \<Rightarrow> bool" for X where
  submit: "start_backup_submit X s = (Inr (), t) \<Longrightarrow> backup_step X (n, s) (Suc n, t)"
| submit_fails: "start_backup_submit X s = (Inl e, t) \<Longrightarrow> backup_step X (n, s) (n, t)"
| starts: "backup_task_starts s = (r, t) \<Longrightarrow> backup_step X (n, s) (n, t)"
| ends: "backup_task_ends X s = (r, t) \<Longrightarrow> backup_step X (n, s) (n, t)"

inductive_cases backup_stepE: "backup_step X a b"

definition backup_answers :: "'e shard \<Rightarrow> nat" where
  "backup_answers s = length (filter (\<lambda>m. message_type m = ''backup_update'') (sh_ws_queue s))"

definition backup_books :: "nat \<Rightarrow> nat \<times> 'e shard \<Rightarrow> bool" where
  "backup_books n0 ns \<longleftrightarrow>
     (case ns of (n, s) \<Rightarrow>
        n0 + n = backup_answers s + length (sh_backup_tasks s) + (if sh_backup_running s = None then 0 else 1)
        \<and> (sh_backup_lock s \<longleftrightarrow> sh_backup_running s \<noteq> None))"

definition backup_control :: "'e shard \<Rightarrow> nat \<times> bool \<times> _ \<times> _" where
  "backup_control s = (backup_answers s, sh_backup_lock s, sh_backup_tasks s, sh_backup_running s)"

lemma backup_control_simps [simp]:
  "backup_control (s\<lparr>sh_env := e\<rparr>) = backup_control s"
  "backup_control (s\<lparr>sh_ran := r\<rparr>) = backup_control s"
  "backup_control (sh_fs_update f s) = backup_control s"
  "backup_control (sh_backups_update b s) = backup_control s"
  by (simp_all add: backup_control_def backup_answers_def)

lemma control_backup_work: "backup_work X ds c sas s = (r, t) \<Longrightarrow> backup_control t = backup_control s"
  by (erule moves_keepsD [where f = backup_control, rotated]) (rule moves_keeps_backup_work; simp)

lemma control_sas_url: "moves (keeps backup_control) (get_backup_sas_url X)"
  unfolding get_backup_sas_url_def portal_call_def raise_for_status_def
  by (intro keeps.moves_rules moves_keeps_signed_request backup_control_simps)

lemma control_submit:
  assumes "start_backup_submit X s = (r, t)"
  shows "backup_answers t = backup_answers s" "sh_backup_lock t = sh_backup_lock s"
    "sh_backup_running t = sh_backup_running s"
    "length (sh_backup_tasks t) = length (sh_backup_tasks s) + (case r of Inl _ \<Rightarrow> 0 | Inr _ \<Rightarrow> 1)"
proof -
  let ?get = "try_except (get_backup_sas_url X)
      (\<lambda>e. case e of RequestsHTTPError _ \<Rightarrow> raise BackupStartFailed | _ \<Rightarrow> raise e)"
  have g: "moves (keeps backup_control) ?get"
  proof (rule keeps.moves_try_except [OF control_sas_url])
    show "moves (keeps backup_control) (case e of RequestsHTTPError _ \<Rightarrow> raise BackupStartFailed | _ \<Rightarrow> raise e)" for e
      by (cases e) (simp_all only: exn.case keeps.moves_raise)
  qed
  obtain q u where q: "?get s = (q, u)" by (meson surj_pair)
  have c: "backup_control u = backup_control s"
    by (rule moves_keepsD [OF g, OF q])
  have run: "(r, t) = (case (q, u) of (Inl e, v) \<Rightarrow> (Inl e, v)
      | (Inr x, v) \<Rightarrow> modify (\<lambda>s. s\<lparr>sh_backup_tasks := sh_backup_tasks s
            @ [(map (path_join (path_root (cfg X))) (backup_dirs (cfg X)), snd x, fst x)]\<rparr>) v)"
    using assms unfolding start_backup_submit_def Let_def act_apply(3) q by simp
  show "backup_answers t = backup_answers s" "sh_backup_lock t = sh_backup_lock s"
    "sh_backup_running t = sh_backup_running s"
    "length (sh_backup_tasks t) = length (sh_backup_tasks s) + (case r of Inl _ \<Rightarrow> 0 | Inr _ \<Rightarrow> 1)"
    using run c by (cases q; simp add: act_apply(6) backup_control_def backup_answers_def)+
qed

lemma answers_task_done:
  "on_task_done eo s = (r, t) \<Longrightarrow> r = Inr () \<and> backup_answers t = Suc (backup_answers s)
     \<and> sh_backup_lock t = sh_backup_lock s \<and> sh_backup_running t = sh_backup_running s
     \<and> sh_backup_tasks t = sh_backup_tasks s"
  by (auto simp: on_task_done_def on_backup_update_def broadcast_message_def act_simps backup_answers_def)

lemma books_starts:
  assumes "backup_books n0 (n, s)" and "backup_task_starts s = (r, t)"
  shows "backup_books n0 (n, t)"
proof (cases "sh_backup_tasks s")
  case Nil
  then show ?thesis using assms by (simp add: backup_task_starts_def act_simps)
next
  case (Cons task rest)
  show ?thesis
  proof (cases "sh_backup_lock s")
    case True
    then have "on_task_done (Some BackupInProgress) (s\<lparr>sh_backup_tasks := rest\<rparr>) = (r, t)"
      using assms(2) Cons by (simp add: backup_task_starts_def act_simps)
    from answers_task_done [OF this] show ?thesis
      using assms(1) Cons by (auto simp: backup_books_def backup_answers_def)
  next
    case False
    then show ?thesis
      using assms Cons by (auto simp: backup_task_starts_def act_simps backup_books_def backup_answers_def)
  qed
qed

lemma books_ends:
  assumes "backup_books n0 (n, s)" and "backup_task_ends X s = (r, t)"
  shows "backup_books n0 (n, t)"
proof (cases "sh_backup_running s")
  case None
  then show ?thesis using assms by (simp add: backup_task_ends_def act_simps)
next
  case (Some task)
  obtain ds c sas where task: "task = (ds, c, sas)" by (cases task) auto
  obtain q u where w: "backup_work X ds c sas s = (q, u)" by (meson surj_pair)
  have ctl: "backup_control u = backup_control s" by (rule control_backup_work [OF w])
  obtain eo where d: "on_task_done eo (u\<lparr>sh_backup_lock := False, sh_backup_running := None\<rparr>) = (r, t)"
    using assms(2) Some task w
    by (cases q) (auto simp: backup_task_ends_def Let_def act_simps)
  from answers_task_done [OF d] show ?thesis
    using assms(1) Some ctl by (auto simp: backup_books_def backup_control_def backup_answers_def)
qed

lemma books_step: "backup_step X a b \<Longrightarrow> backup_books n0 a \<Longrightarrow> backup_books n0 b"
proof (induction a b rule: backup_step.induct)
  case (submit s t n)
  then show ?case using control_submit [OF submit.hyps] by (simp add: backup_books_def)
next
  case (submit_fails s e t n)
  then show ?case using control_submit [OF submit_fails.hyps] by (simp add: backup_books_def)
next
  case (starts s r t n)
  then show ?case by (blast intro: books_starts)
next
  case (ends s r t n)
  then show ?case by (blast intro: books_ends)
qed

lemma books_reachable: "(backup_step X)\<^sup>*\<^sup>* a b \<Longrightarrow> backup_books n0 a \<Longrightarrow> backup_books n0 b"
  by (induction rule: rtranclp_induct) (blast intro: books_step)+

text \<open>
  C36. However requests, the controller's answers and tasks interleave, the lock is held exactly while
  a backup is running, and every task that was created is accounted for: it still waits, it is the
  running one, or exactly one \<open>backup_update\<close> message announced its end.
\<close>

theorem every_backup_answered:
  assumes "(backup_step X)\<^sup>*\<^sup>* (0, s) (n, t)"
    and "sh_backup_tasks s = []" and "sh_backup_running s = None" and "\<not> sh_backup_lock s"
  shows "(sh_backup_lock t \<longleftrightarrow> sh_backup_running t \<noteq> None)
    \<and> backup_answers s + n
        = backup_answers t + length (sh_backup_tasks t) + (if sh_backup_running t = None then 0 else 1)"
proof -
  have "backup_books (backup_answers s) (0, s)" using assms(2-4) by (simp add: backup_books_def)
  from books_reachable [OF assms(1) this] show ?thesis by (simp add: backup_books_def)
qed

text \<open>
  Two requests that both passed the check before either was answered by the controller: both tasks
  are created, the second one fails on the lock and is announced as a failed backup while the first
  one runs.
\<close>

definition race_ext :: "real ext" where
  "race_ext =
     sample_ext\<lparr>x_signed_request := (\<lambda>v u d i k e. (Inr \<lparr>status_code = 200, body_text = [],
       body_json = Some (JObj [(''sas_url'', JStr ''u''), (''container_name'', JStr ''c'')])\<rparr>, e))\<rparr>"

definition race_shard :: "real shard" where
  "race_shard =
     sample_shard\<lparr>sh_identities := [\<lparr>id_id = ''i'', id_name = Some ''n'', id_email = None, id_description = None,
       id_private_key = Some ''k'', id_is_default = True\<rparr>]\<rparr>"

definition race_task :: "path list \<times> string \<times> string" where
  "race_task = ([[''r'', ''core'']], ''c'', ''u'')"

lemma race_submit:
  "start_backup_submit race_ext (race_shard\<lparr>sh_backup_tasks := ts\<rparr>)
    = (Inr (), race_shard\<lparr>sh_backup_tasks := ts @ [race_task]\<rparr>)"
proof -
  have X: "x_signed_request race_ext v u d i k e = (Inr \<lparr>status_code = 200, body_text = [],
       body_json = Some (JObj [(''sas_url'', JStr ''u''), (''container_name'', JStr ''c'')])\<rparr>, e)"
      "backup_dirs (cfg race_ext) = [''core'']" "path_root (cfg race_ext) = [''r'']" for v u d i k e
    by (simp_all add: race_ext_def sample_ext_def sample_cfg_def)
  have p: "path_join [''r''] ''core'' = [''r'', ''core'']" by code_simp
  have "get_backup_sas_url race_ext (race_shard\<lparr>sh_backup_tasks := ts\<rparr>)
      = (Inr (''u'', ''c''), race_shard\<lparr>sh_backup_tasks := ts\<rparr>)"
    by (simp add: get_backup_sas_url_def portal_call_def signed_request_def get_signature_auth_def
        get_default_identity_def identity_of_def identity_of_row_def validate_email_def
        identities_get_default_def raise_for_status_def response_json_def need_def required_def
        act_simps world_res_def X(1) race_shard_def sample_shard_def)
  then show ?thesis
    by (simp add: start_backup_submit_def Let_def act_apply(3,6,8) X(2,3) p race_task_def)
qed

lemma race_run:
  "\<exists>t. (backup_step race_ext)\<^sup>*\<^sup>* (0, race_shard) (2, t) \<and> sh_backup_running t = Some race_task
     \<and> sh_backup_tasks t = [] \<and> map message (sh_ws_queue t) = [P_Object [(''error'', JStr ''BackupInProgressError'')]]"
proof -
  have tasks: "sh_backup_tasks race_shard = []" "race_shard = race_shard\<lparr>sh_backup_tasks := []\<rparr>"
      "sh_backup_lock race_shard = False" "sh_ws_queue race_shard = []"
    by (simp_all add: race_shard_def sample_shard_def)
  have 1: "backup_step race_ext (0, race_shard) (1, race_shard\<lparr>sh_backup_tasks := [race_task]\<rparr>)"
    using backup_step.submit [OF race_submit [of "[]"], of 0] tasks(2) by simp
  have 2: "backup_step race_ext (1, race_shard\<lparr>sh_backup_tasks := [race_task]\<rparr>)
      (2, race_shard\<lparr>sh_backup_tasks := [race_task, race_task]\<rparr>)"
    using backup_step.submit [OF race_submit [of "[race_task]"], of 1] by (simp add: numeral_2_eq_2)
  let ?u = "race_shard\<lparr>sh_backup_tasks := [race_task], sh_backup_lock := True, sh_backup_running := Some race_task\<rparr>"
  have 3: "backup_step race_ext (2, race_shard\<lparr>sh_backup_tasks := [race_task, race_task]\<rparr>) (2, ?u)"
    by (rule backup_step.starts [where r = "Inr ()"]) (simp add: backup_task_starts_def act_simps tasks(1,3,4))
  let ?t = "?u\<lparr>sh_backup_tasks := [], sh_ws_queue :=
      [\<lparr>message_type = ''backup_update'', message = P_Object [(''error'', JStr ''BackupInProgressError'')]\<rparr>]\<rparr>"
  have 4: "backup_step race_ext (2, ?u) (2, ?t)"
    by (rule backup_step.starts [where r = "Inr ()"])
      (simp add: backup_task_starts_def on_task_done_def on_backup_update_def broadcast_message_def
        format_error_def act_simps tasks(1,3,4))
  have "(backup_step race_ext)\<^sup>*\<^sup>* (0, race_shard) (2, ?t)"
    using 1 2 3 4 by (meson rtranclp.rtrancl_into_rtrancl rtranclp.rtrancl_refl)
  then show ?thesis by (intro exI [of _ ?t]) simp
qed

lemma every_backup_answered_witness:
  "\<exists>t. (backup_step race_ext)\<^sup>*\<^sup>* (0, race_shard) (2, t) \<and> sh_backup_running t = Some race_task
     \<and> sh_backup_lock t \<and> backup_answers t = 1"
proof -
  obtain t where t: "(backup_step race_ext)\<^sup>*\<^sup>* (0, race_shard) (2, t)"
      "sh_backup_running t = Some race_task" "sh_backup_tasks t = []"
    using race_run by blast
  have s: "sh_backup_tasks race_shard = []" "sh_backup_running race_shard = None" "\<not> sh_backup_lock race_shard"
      "backup_answers race_shard = 0"
    by (simp_all add: race_shard_def sample_shard_def backup_answers_def)
  show ?thesis using every_backup_answered [OF t(1) s(1-3)] t s(4) by (intro exI [of _ t]) simp
qed

section \<open>The passphrase\<close>

text \<open>A word list in which every throw of five dice has its word.\<close>

definition wordlist_complete :: "string list \<Rightarrow> bool" where
  "wordlist_complete lines \<longleftrightarrow>
     (\<forall>n. length n = 5 \<and> set n \<subseteq> set DICE \<longrightarrow>
        (\<exists>l \<in> set lines. starts_with n l) \<and> (\<forall>l \<in> set lines. starts_with n l \<longrightarrow> 2 \<le> length (py_words l)))"

lemma find_word_complete:
  assumes "wordlist_complete lines" and "length n = 5" and "set n \<subseteq> set DICE"
  shows "\<exists>w. find_word lines n = Inr w"
proof -
  have c: "\<exists>l \<in> set lines. starts_with n l" "\<forall>l \<in> set lines. starts_with n l \<longrightarrow> 2 \<le> length (py_words l)"
    using assms unfolding wordlist_complete_def by blast+
  then have "find (starts_with n) lines \<noteq> None" by (auto simp: find_None_all)
  then obtain l where l: "find (starts_with n) lines = Some l" by blast
  then have "2 \<le> length (py_words l)" using c(2) find_SomeD [OF l] by simp
  then obtain a w ws where "py_words l = a # w # ws"
    by (auto simp: numeral_2_eq_2 Suc_le_length_iff)
  then show ?thesis using l by (simp add: find_word_def)
qed

lemma collect_words_complete:
  assumes "wordlist_complete lines" and "\<forall>n \<in> set ns. length n = 5 \<and> set n \<subseteq> set DICE"
  shows "\<exists>ws. collect_words lines ns = Inr ws \<and> length ws = length ns"
  using assms(2)
proof (induction ns)
  case Nil
  show ?case by simp
next
  case (Cons n ns)
  then obtain ws where "collect_words lines ns = Inr ws" "length ws = length ns" by auto
  moreover obtain w where "find_word lines n = Inr w"
    using find_word_complete [OF assms(1), of n] Cons.prems by auto
  ultimately show ?case by simp
qed

text \<open>\<open>secrets.choice\<close>: as many indices as asked for, all of them in range.\<close>

definition choices_in_range :: "'e ext \<Rightarrow> bool" where
  "choices_in_range X \<longleftrightarrow>
     (\<forall>k n e. 0 < n \<longrightarrow> length (fst (x_choices X k n e)) = k \<and> (\<forall>p \<in> set (fst (x_choices X k n e)). p < n))"

lemma passphrase_numbers:
  assumes "choices_in_range X"
  shows "\<exists>ns e. generate_passphrase_numbers X k s = (Inr ns, s\<lparr>sh_env := e\<rparr>) \<and> length ns = k
    \<and> (\<forall>n \<in> set ns. length n = 5 \<and> set n \<subseteq> set DICE)"
proof (induction k arbitrary: s)
  case 0
  show ?case by (intro exI [of _ "[]"] exI [of _ "sh_env s"]) (simp add: act_simps)
next
  case (Suc k)
  obtain ps e where p: "x_choices X 5 (length DICE) (sh_env s) = (ps, e)" by (meson surj_pair)
  have "length (fst (x_choices X 5 (length DICE) (sh_env s))) = 5
      \<and> (\<forall>i \<in> set (fst (x_choices X 5 (length DICE) (sh_env s))). i < length DICE)"
    using assms unfolding choices_in_range_def by (simp add: DICE_def)
  then have "length ps = 5" "\<forall>i \<in> set ps. i < length DICE" by (simp_all add: p)
  then have n: "length (map (\<lambda>i. DICE ! i) ps) = 5" "set (map (\<lambda>i. DICE ! i) ps) \<subseteq> set DICE"
    by auto
  obtain ns e' where r: "generate_passphrase_numbers X k (s\<lparr>sh_env := e\<rparr>) = (Inr ns, s\<lparr>sh_env := e'\<rparr>)"
      "length ns = k" "\<forall>n \<in> set ns. length n = 5 \<and> set n \<subseteq> set DICE"
    using Suc.IH [of "s\<lparr>sh_env := e\<rparr>"] by auto
  show ?case
    using p n r by (intro exI [of _ "map (\<lambda>i. DICE ! i) ps # ns"] exI [of _ e']) (simp add: act_simps)
qed

text \<open>
  After start-up a backup passphrase exists: if none is stored, ten words are drawn from a
  complete word list and stored; if one is stored, nothing changes, so that running start-up again
  keeps the passphrase that the existing backups were encrypted with.
\<close>

theorem backup_passphrase_ensured:
  assumes "choices_in_range X"
    and "x_wordlist X = Inr content" and "wordlist_complete (splitlines content)"
  shows "\<exists>t. ensure_backup_passphrase X s = (Inr (), t) \<and> ensure_backup_passphrase X t = (Inr (), t)
    \<and> (case map_of (sh_kv s) STORE_KEY_BACKUP_PASSPHRASE of
         Some v \<Rightarrow> t = s
       | None \<Rightarrow> \<exists>ws. length ws = 10
           \<and> map_of (sh_kv t) STORE_KEY_BACKUP_PASSPHRASE = Some (JStr (join_with '' '' ws)))"
proof (cases "map_of (sh_kv s) STORE_KEY_BACKUP_PASSPHRASE")
  case None
  obtain ns e where n: "generate_passphrase_numbers X 10 s = (Inr ns, s\<lparr>sh_env := e\<rparr>)" "length ns = 10"
      "\<forall>n \<in> set ns. length n = 5 \<and> set n \<subseteq> set DICE"
    using passphrase_numbers [OF assms(1), where k = 10 and s = s] by auto
  obtain ws where ws: "collect_words (splitlines content) ns = Inr ws" "length ws = 10"
    using collect_words_complete [OF assms(3) n(3)] n(2) by auto
  let ?t = "s\<lparr>sh_env := e, sh_kv := dict_set (sh_kv s) STORE_KEY_BACKUP_PASSPHRASE (JStr (join_with '' '' ws))\<rparr>"
  have "ensure_backup_passphrase X s = (Inr (), ?t)"
    using None n(1) ws(1) by (simp add: ensure_backup_passphrase_def act_simps get_passphrase_def assms(2))
  moreover have "ensure_backup_passphrase X ?t = (Inr (), ?t)"
    by (simp add: ensure_backup_passphrase_def act_simps)
  ultimately show ?thesis using None ws(2) by (intro exI [of _ ?t]) auto
next
  case (Some v)
  then show ?thesis by (intro exI [of _ s]) (simp add: ensure_backup_passphrase_def act_simps)
qed

definition dice_lines :: "string list" where
  "dice_lines = map (\<lambda>n. n @ '' word'') (List.n_lists 5 DICE)"

definition dice_ext :: "real ext" where
  "dice_ext = sample_ext\<lparr>x_wordlist := Inr (concat (map (\<lambda>l. l @ [CHR 0x0A]) dice_lines))\<rparr>"

lemma splitlines_lines:
  assumes "\<And>l. l \<in> set ls \<Longrightarrow> CHR 0x0A \<notin> set l"
  shows "splitlines (concat (map (\<lambda>l. l @ [CHR 0x0A]) ls)) = ls"
proof -
  have "split_on CHR 0x0A (concat (map (\<lambda>l. l @ [CHR 0x0A]) ls)) = ls @ [[]]"
    using assms by (induction ls) (simp_all add: split_on_prefix)
  then show ?thesis by (simp add: splitlines_def)
qed

lemma dice_chars: "c \<in> set DICE \<Longrightarrow> \<not> is_space c \<and> c \<noteq> CHR 0x0A"
  by (auto simp: DICE_def is_space_def)

text \<open>A word is followed by white space.\<close>

lemma py_words_word:
  assumes "w \<noteq> []" and "\<forall>c \<in> set w. \<not> is_space c" and "is_space b"
  shows "py_words (w @ b # r) = w # py_words r"
  using assms(1,2)
proof (induction w)
  case Nil
  then show ?case by simp
next
  case (Cons c w)
  then show ?case using assms(3) by (cases w) auto
qed

lemma py_words_last:
  assumes "w \<noteq> []" and "\<forall>c \<in> set w. \<not> is_space c"
  shows "py_words w = [w]"
  using assms
proof (induction w)
  case Nil
  then show ?case by simp
next
  case (Cons c w)
  then show ?case by (cases w) auto
qed

lemma dice_complete: "wordlist_complete dice_lines"
  unfolding wordlist_complete_def
proof (intro allI impI conjI ballI)
  fix n :: string
  assume n: "length n = 5 \<and> set n \<subseteq> set DICE"
  then have "n \<in> set (List.n_lists 5 DICE)" by (simp add: set_n_lists)
  then have "n @ '' word'' \<in> set dice_lines" by (simp add: dice_lines_def)
  then show "\<exists>l \<in> set dice_lines. starts_with n l" by (rule bexI [rotated]) simp
next
  fix n l :: string
  assume "l \<in> set dice_lines"
  then obtain m where m: "l = m @ '' word''" "length m = 5" "set m \<subseteq> set DICE"
    by (auto simp: dice_lines_def set_n_lists)
  then have "py_words l = m # py_words ''word''"
    using py_words_word [of m "CHR '' ''" "''word''"] dice_chars by (force simp: is_space_def)
  moreover have "py_words ''word'' = [''word'']"
    by (rule py_words_last) (simp_all add: is_space_def)
  ultimately show "2 \<le> length (py_words l)" by simp
qed

lemma backup_passphrase_ensured_witness:
  "\<exists>t ws. ensure_backup_passphrase dice_ext sample_shard = (Inr (), t) \<and> length ws = 10
     \<and> map_of (sh_kv t) STORE_KEY_BACKUP_PASSPHRASE = Some (JStr (join_with '' '' ws))"
proof -
  have choices: "choices_in_range dice_ext"
    by (simp add: choices_in_range_def dice_ext_def sample_ext_def)
  have content: "x_wordlist dice_ext = Inr (concat (map (\<lambda>l. l @ [CHR 0x0A]) dice_lines))"
    by (simp add: dice_ext_def)
  have "CHR 0x0A \<notin> set l" if "l \<in> set dice_lines" for l
  proof -
    have "CHR 0x0A \<notin> set DICE" by (simp add: DICE_def)
    then show ?thesis using that by (auto simp: dice_lines_def set_n_lists)
  qed
  then have "wordlist_complete (splitlines (concat (map (\<lambda>l. l @ [CHR 0x0A]) dice_lines)))"
    using dice_complete by (simp add: splitlines_lines)
  from backup_passphrase_ensured [OF choices content this, of sample_shard] show ?thesis
    by (auto simp: sample_shard_def)
qed

section \<open>Access to the passphrase\<close>

text \<open>
  Every access to the passphrase leaves a trace: when the endpoint hands it out, it is the stored
  one, and the backup info then names the terminal that asked for it and the time, with the terminal's
  name while it is paired and \<open>Unknown\<close> otherwise.
\<close>

theorem passphrase_access_recorded:
  assumes "web_get_backup_passphrase X client s = (Inr p, t)"
    and "get_latest_backup_report t = (Inr report, t)"
  shows "\<exists>i time. client = Some i \<and> i \<noteq> [] \<and> fst (now X s) = Inr time
    \<and> map_of (sh_kv s) STORE_KEY_BACKUP_PASSPHRASE = Some (JStr p)
    \<and> get_backup_info t = (Inr (report, Some
        \<lparr>ac_time = time, ac_terminal_id = i,
         ac_terminal_name = (case tbl_find tm_id i (sh_terminals s) of None \<Rightarrow> ''Unknown'' | Some r \<Rightarrow> tm_name r)\<rparr>), t)"
proof -
  obtain i where i: "client = Some i" "i \<noteq> []"
    using assms(1) by (auto simp: web_get_backup_passphrase_def act_simps split: option.splits if_splits)
  obtain v where v: "map_of (sh_kv s) STORE_KEY_BACKUP_PASSPHRASE = Some v"
    using assms(1) i by (auto simp: web_get_backup_passphrase_def get_backup_passphrase_def act_simps split: option.splits)
  obtain time e where n: "x_time X (sh_env s) = (time, e)" by (meson surj_pair)
  have p: "v = JStr p" and t: "t = s\<lparr>sh_env := e, sh_kv := dict_set (sh_kv s)
      STORE_KEY_BACKUP_PASSPHRASE_LAST_ACCESS (access_info_dump time i)\<rparr>"
    using assms(1) i v n
    by (cases v; auto simp: web_get_backup_passphrase_def get_backup_passphrase_def act_simps need_def)+
  have "access_info_of (access_info_dump time i) = Inr (time, i)"
    by (simp add: access_info_of_def access_info_dump_def need_def required_def)
  then show ?thesis
    using i v n p t assms(2)
    by (intro exI [of _ i] exI [of _ time])
      (simp add: get_backup_info_def act_simps terminals_get_by_id_def)
qed

lemma passphrase_access_recorded_witness:
  "\<exists>t info. web_get_backup_passphrase backup_ext (Some ''t1'') backup_shard = (Inr ''pass'', t)
     \<and> get_backup_info t = (Inr (None, Some info), t) \<and> ac_terminal_name info = ''Unknown''"
proof -
  obtain t where t: "web_get_backup_passphrase backup_ext (Some ''t1'') backup_shard = (Inr ''pass'', t)"
      "sh_backups t = empty_serial"
    by (simp add: web_get_backup_passphrase_def get_backup_passphrase_def act_simps backup_shard_def
        sample_shard_def need_def STORE_KEY_BACKUP_PASSPHRASE_LAST_ACCESS_def STORE_KEY_BACKUP_PASSPHRASE_def
        backup_ext_def sample_ext_def)
  have "get_latest_backup_report t = (Inr None, t)"
    using t(2) by (simp add: get_latest_backup_report_def backups_get_latest_def act_simps empty_serial_def)
  from passphrase_access_recorded [OF t(1) this] t(1) show ?thesis
    by (auto simp: backup_shard_def sample_shard_def tbl_find_def)
qed

section \<open>The arguments of rclone\<close>

definition plain_word :: "string \<Rightarrow> bool" where
  "plain_word w \<longleftrightarrow> w \<noteq> [] \<and> list_all (\<lambda>c. \<not> is_space c) w"

lemma py_words_plain: "plain_word w \<Longrightarrow> is_space b \<Longrightarrow> py_words (w @ b # r) = w # py_words r"
  by (rule py_words_word) (simp_all add: plain_word_def list_all_iff)

lemma plain_append: "plain_word v \<Longrightarrow> plain_word w \<Longrightarrow> plain_word (v @ w)"
  by (simp add: plain_word_def)

lemma py_words_space: "is_space b \<Longrightarrow> py_words (b # r) = py_words r"
  by simp

definition sync_arguments :: "string \<Rightarrow> string \<Rightarrow> string list" where
  "sync_arguments container directory =
     [''--crypt-remote'', '':azureblob:'' @ container, ''sync'', directory,
      '':crypt:'' @ container @ ''/'' @ directory, ''--create-empty-src-dirs'', ''--stats-log-level'', ''NOTICE'',
      ''--stats'', ''1000m'', ''--use-json-log'', ''--fast-list'']"

lemma words_from_remote:
  assumes "plain_word c" and "plain_word d"
  shows "py_words (''--crypt-remote :azureblob:'' @ c @ [CHR 0x0A] @ ''sync '' @ d @ '' :crypt:'' @ c @ ''/'' @ d
      @ [CHR 0x0A] @ ''--create-empty-src-dirs --stats-log-level NOTICE --stats 1000m --use-json-log''
      @ [CHR 0x0A] @ ''--fast-list'' @ [CHR 0x0A]) = sync_arguments c d"
proof -
  have nl: "is_space (CHR 0x0A)" and sp: "is_space (CHR '' '')" by (simp_all add: is_space_def)
  have tail: "py_words (''--create-empty-src-dirs --stats-log-level NOTICE --stats 1000m --use-json-log''
      @ [CHR 0x0A] @ ''--fast-list'' @ [CHR 0x0A])
    = [''--create-empty-src-dirs'', ''--stats-log-level'', ''NOTICE'', ''--stats'', ''1000m'', ''--use-json-log'', ''--fast-list'']"
    by code_simp
  have "py_words (''--crypt-remote'' @ CHR '' '' # '':azureblob:'' @ r) = ''--crypt-remote'' # py_words ('':azureblob:'' @ r)" for r
    by (rule py_words_plain [OF _ sp]) (simp add: plain_word_def is_space_def)
  moreover have "py_words (('':azureblob:'' @ c) @ CHR 0x0A # r) = ('':azureblob:'' @ c) # py_words r" for r
    by (intro py_words_plain plain_append assms nl) (simp add: plain_word_def is_space_def)
  moreover have "py_words (''sync'' @ CHR '' '' # r) = ''sync'' # py_words r" for r
    by (rule py_words_plain [OF _ sp]) (simp add: plain_word_def is_space_def)
  moreover have "py_words (d @ CHR '' '' # r) = d # py_words r" for r
    by (rule py_words_plain [OF assms(2) sp])
  moreover have "py_words (('':crypt:'' @ c @ ''/'' @ d) @ CHR 0x0A # r) = ('':crypt:'' @ c @ ''/'' @ d) # py_words r" for r
    by (intro py_words_plain plain_append assms nl) (simp_all add: plain_word_def is_space_def)
  ultimately show ?thesis
    using tail by (simp add: sync_arguments_def del: py_words.simps)
qed

text \<open>
  The arguments of a sync: when the values have no white space, rclone is given exactly the SAS
  URL, the obscured passphrase, the crypt remote of the container, the directory and its place in that
  remote.  When \<open>rclone obscure\<close> printed nothing, which its unchecked return code lets through, the
  passphrase is missing from the list and the option that follows stands in its place.
\<close>

theorem backup_command_arguments:
  assumes "plain_word sas" and "plain_word c" and "plain_word d" and "p = [] \<or> plain_word p"
  shows "py_words (backup_command sas p c d) =
    [''rclone'', ''--azureblob-sas-url'', sas, ''--crypt-password''] @ (if p = [] then [] else [p])
      @ sync_arguments c d"
proof -
  have nl: "is_space (CHR 0x0A)" and sp: "is_space (CHR '' '')" by (simp_all add: is_space_def)
  have w: "py_words (''rclone'' @ CHR 0x0A # r) = ''rclone'' # py_words r"
      "py_words (''--azureblob-sas-url'' @ CHR '' '' # r) = ''--azureblob-sas-url'' # py_words r"
      "py_words (''--crypt-password'' @ CHR '' '' # r) = ''--crypt-password'' # py_words r" for r
    by (rule py_words_plain [OF _ nl] py_words_plain [OF _ sp], simp add: plain_word_def is_space_def)+
  have sas: "py_words (sas @ CHR 0x0A # r) = sas # py_words r" for r
    by (rule py_words_plain [OF assms(1) nl])
  have p: "py_words (p @ CHR 0x0A # r) = (if p = [] then [] else [p]) @ py_words r" for r
  proof (cases "p = []")
    case True
    then show ?thesis by (simp add: py_words_space [OF nl] del: py_words.simps)
  next
    case False
    then show ?thesis using py_words_plain [OF _ nl, of p] assms(4) by (simp del: py_words.simps)
  qed
  have "backup_command sas p c d = CHR 0x0A # ''rclone'' @ CHR 0x0A # ''--azureblob-sas-url'' @ CHR '' '' # sas
      @ CHR 0x0A # ''--crypt-password'' @ CHR '' '' # p @ CHR 0x0A #
      (''--crypt-remote :azureblob:'' @ c @ [CHR 0x0A] @ ''sync '' @ d @ '' :crypt:'' @ c @ ''/'' @ d
      @ [CHR 0x0A] @ ''--create-empty-src-dirs --stats-log-level NOTICE --stats 1000m --use-json-log''
      @ [CHR 0x0A] @ ''--fast-list'' @ [CHR 0x0A])"
    unfolding backup_command_def Let_def by simp
  then have "py_words (backup_command sas p c d) = ''rclone'' # ''--azureblob-sas-url'' # sas
      # ''--crypt-password'' # (if p = [] then [] else [p]) @ sync_arguments c d"
    by (simp only: py_words_space [OF nl] w sas p words_from_remote [OF assms(2,3)])
  then show ?thesis by (simp only: append_Cons append_Nil)
qed

lemma backup_command_arguments_witness:
  "py_words (backup_command ''u'' '''' ''c'' ''core'') =
     [''rclone'', ''--azureblob-sas-url'', ''u'', ''--crypt-password''] @ sync_arguments ''c'' ''core''"
  using backup_command_arguments [of "''u''" "''c''" "''core''" "[]"]
  by (simp add: plain_word_def is_space_def)

end
