(* ===== verification/Reporting.thy ===== *)
theory Reporting
  imports App_Tools Db_Snapshot
begin

text \<open>
  What the shard reports: \<open>service/telemetry.py\<close> (request counts and pause metrics to the controller),
  \<open>service/app_usage_reporting.py\<close> (which apps were installed, once a month) and \<open>service/disk.py\<close>.
  Sending telemetry suspends in the call to the controller; the operation is split there, so that
  requests recorded meanwhile are part of the model.  Floating-point numbers are reals.
\<close>

section \<open>service/disk.py\<close>

definition update_disk_space :: "'e ext \<Rightarrow> ('e shard, unit) act" where
  "update_disk_space X =
     bnd (world_res (x_disk_usage X (path_root (cfg X) @ [''user_data'']))) (\<lambda>(total, free).
     let u = \<lparr>total_gb = real total / 1024 ^ 3, free_gb = real free / 1024 ^ 3,
              disk_space_low = (real free / 1024 ^ 3 < 1)\<rparr> in
     seq (modify (\<lambda>s. s\<lparr>sh_disk_usage := u\<rparr>))
     (on_disk_usage_update u))"

section \<open>service/telemetry.py\<close>

definition MEMINFO_PATH :: path where
  "MEMINFO_PATH = [''proc'', ''meminfo'']"

text \<open>\<open>round\<close>: to the nearest integer, ties to the even one\<close>

definition py_round :: "real \<Rightarrow> int" where
  "py_round x =
     (let f = \<lfloor>x\<rfloor>; d = x - of_int f in
      if d < 1 / 2 then f else if d > 1 / 2 then f + 1 else if even f then f else f + 1)"

text \<open>\<open>xs[i]\<close>, with negative indices from the end\<close>

definition py_item :: "'a list \<Rightarrow> int \<Rightarrow> 'a result" where
  "py_item xs i =
     (let j = (if i < 0 then i + int (length xs) else i) in
      if 0 \<le> j \<and> j < int (length xs) then Inr (xs ! nat j) else Inl IndexError)"

definition percentile :: "real list \<Rightarrow> real \<Rightarrow> real result" where
  "percentile samples fraction =
     (if \<not> (0 \<le> fraction \<and> fraction \<le> 1) then Inl (ValueError ''fraction'')
      else py_item (sort samples) (py_round (fraction * (of_int (int (length samples)) - 1))))"

text \<open>\<open>re.search(r"^Label:\s+(\d+) kB", text, re.MULTILINE)\<close>, tried at the start of every line\<close>

definition kb_match :: "string \<Rightarrow> string \<Rightarrow> string option" where
  "kb_match label txt =
     (let rest = drop (length label) txt;
          ws = takeWhile is_space rest;
          ds = takeWhile is_digit (drop (length ws) rest);
          more = drop (length ws + length ds) rest
      in if starts_with label txt \<and> ws \<noteq> [] \<and> ds \<noteq> [] \<and> starts_with '' kB'' more then Some ds else None)"

fun kb_lines :: "string \<Rightarrow> bool \<Rightarrow> string \<Rightarrow> string option" where
  "kb_lines label at_start [] = None"
| "kb_lines label at_start (c # cs) =
     (if at_start \<and> kb_match label (c # cs) \<noteq> None then kb_match label (c # cs)
      else kb_lines label (c = CHR 0x0A) cs)"

definition kb_search :: "string \<Rightarrow> string \<Rightarrow> int option" where
  "kb_search label txt = map_option (\<lambda>ds. int (digits_value ds)) (kb_lines label True txt)"

definition read_swap_kib :: "'e ext \<Rightarrow> ('e shard, int option \<times> int option) act" where
  "read_swap_kib X =
     try_else (world_res (x_host_read X MEMINFO_PATH))
       (\<lambda>e. if is_os_error e then ret (None, None) else raise e)
       (\<lambda>txt. ret (kb_search ''SwapTotal:'' txt, kb_search ''SwapFree:'' txt))"

record pause_tier =
  pt_transitions :: "(string \<times> (string \<times> nat) list) list"
  pt_pause_p50 :: "real option"
  pt_pause_p95 :: "real option"
  pt_unpause_p50 :: "real option"
  pt_unpause_p95 :: "real option"
  pt_psi :: "real list"
  pt_swap_total :: "int option"
  pt_swap_free :: "int option"

record telemetry =
  te_start_time :: real
  te_end_time :: real
  te_no_of_requests :: nat
  te_pause_tier :: "pause_tier option"

definition percentile_or_none :: "real list \<Rightarrow> real \<Rightarrow> real option result" where
  "percentile_or_none samples fraction =
     (if samples \<noteq> [] then bind_res (percentile samples fraction) (\<lambda>v. Inr (Some v)) else Inr None)"

definition build_pause_tier :: "'e ext \<Rightarrow> ('e shard, pause_tier option) act" where
  "build_pause_tier X =
     bnd (gets sh_pause_metrics) (\<lambda>m.
     if \<not> (pm_transitions m \<noteq> [] \<or> pm_pause_latencies m \<noteq> [] \<or> pm_unpause_latencies m \<noteq> []
            \<or> pm_psi_snapshots m \<noteq> []) then ret None
     else
       bnd (read_swap_kib X) (\<lambda>swap.
       bnd (lift_res (percentile_or_none (pm_pause_latencies m) (1 / 2))) (\<lambda>p50.
       bnd (lift_res (percentile_or_none (pm_pause_latencies m) (95 / 100))) (\<lambda>p95.
       bnd (lift_res (percentile_or_none (pm_unpause_latencies m) (1 / 2))) (\<lambda>u50.
       bnd (lift_res (percentile_or_none (pm_unpause_latencies m) (95 / 100))) (\<lambda>u95.
       ret (Some \<lparr>pt_transitions = pm_transitions m, pt_pause_p50 = p50, pt_pause_p95 = p95,
                  pt_unpause_p50 = u50, pt_unpause_p95 = u95, pt_psi = pm_psi_snapshots m,
                  pt_swap_total = fst swap, pt_swap_free = snd swap\<rparr>)))))))"

definition pause_tier_dump :: "pause_tier \<Rightarrow> json" where
  "pause_tier_dump p =
     JObj [(''transitions'', JObj (map (\<lambda>(a, d). (a, JObj (map (\<lambda>(k, n). (k, JInt (int n))) d))) (pt_transitions p))),
           (''pause_latency_ms_p50'', or_null JFloat (pt_pause_p50 p)),
           (''pause_latency_ms_p95'', or_null JFloat (pt_pause_p95 p)),
           (''unpause_latency_ms_p50'', or_null JFloat (pt_unpause_p50 p)),
           (''unpause_latency_ms_p95'', or_null JFloat (pt_unpause_p95 p)),
           (''psi_some_avg10_snapshots'', JArr (map JFloat (pt_psi p))),
           (''swap_total_kib'', or_null JInt (pt_swap_total p)),
           (''swap_free_kib'', or_null JInt (pt_swap_free p))]"

definition telemetry_dump :: "telemetry \<Rightarrow> json" where
  "telemetry_dump t =
     JObj [(''start_time'', JTime (te_start_time t)), (''end_time'', JTime (te_end_time t)),
           (''no_of_requests'', JInt (int (te_no_of_requests t))),
           (''pause_tier'', or_null pause_tier_dump (te_pause_tier t))]"

text \<open>
  Up to the call, and from its answer on; \<open>meanwhile\<close> is what other tasks do to the state during the
  call, after its body was built.
\<close>

definition telemetry_prepare :: "'e ext \<Rightarrow> ('e shard, telemetry) act" where
  "telemetry_prepare X =
     bnd (now X) (\<lambda>t.
     bnd (gets sh_last_send) (\<lambda>last.
     bnd (gets sh_no_of_requests) (\<lambda>n.
     bnd (build_pause_tier X) (\<lambda>tier.
     ret \<lparr>te_start_time = last, te_end_time = t, te_no_of_requests = n, te_pause_tier = tier\<rparr>))))"

definition telemetry_sent :: "telemetry \<Rightarrow> ('e shard, unit) act" where
  "telemetry_sent t =
     seq (modify (\<lambda>s. s\<lparr>sh_last_send := te_end_time t, sh_no_of_requests := 0\<rparr>)) reset_metrics"

definition send_telemetry_during :: "'e ext \<Rightarrow> ('e shard \<Rightarrow> 'e shard) \<Rightarrow> ('e shard, unit) act" where
  "send_telemetry_during X meanwhile =
     (if \<not> telemetry_enabled (cfg X) then ret ()
      else
        bnd (telemetry_prepare X) (\<lambda>t.
        seq (modify meanwhile)
        (try_else (call_freeshard_controller X ''api/telemetry'' ''POST'' (telemetry_dump t))
          (\<lambda>_. ret ())
          (\<lambda>_. telemetry_sent t))))"

definition send_telemetry :: "'e ext \<Rightarrow> ('e shard, unit) act" where
  "send_telemetry X = send_telemetry_during X (\<lambda>s. s)"

section \<open>service/app_usage_reporting.py\<close>

definition track_currently_installed_apps :: "'e ext \<Rightarrow> ('e shard, unit) act" where
  "track_currently_installed_apps X =
     bnd (db_apps apps_get_all) (\<lambda>rows.
     bnd (now X) (\<lambda>t.
     seq (db_usage (usage_insert t (JArr (map (\<lambda>r. JStr (ia_name r)) rows)))) (ret ())))"

text \<open>\<open>datetime.date\<close>: the ordinal of a day, and the seconds since 1970 of its midnight\<close>

definition leap_year :: "int \<Rightarrow> bool" where
  "leap_year y \<longleftrightarrow> y mod 4 = 0 \<and> (y mod 100 \<noteq> 0 \<or> y mod 400 = 0)"

definition days_in_month :: "int \<Rightarrow> int \<Rightarrow> int" where
  "days_in_month y m =
     (if m = 2 then (if leap_year y then 29 else 28) else if m \<in> {4, 6, 9, 11} then 30 else 31)"

definition days_before_year :: "int \<Rightarrow> int" where
  "days_before_year y = (let n = y - 1 in n * 365 + n div 4 - n div 100 + n div 400)"

definition days_before_month :: "int \<Rightarrow> int \<Rightarrow> int" where
  "days_before_month y m = sum_list (map (days_in_month y) [1..m - 1])"

definition toordinal :: "int \<Rightarrow> int \<Rightarrow> int \<Rightarrow> int" where
  "toordinal y m d = days_before_year y + days_before_month y m + d"

definition midnight :: "int \<Rightarrow> int \<Rightarrow> int \<Rightarrow> real" where
  "midnight y m d = of_int (86400 * (toordinal y m d - 719163))"

text \<open>\<open>(first_day - timedelta(days=1)).replace(day=1)\<close>, which overflows before the year 1\<close>

definition previous_month :: "int \<Rightarrow> int \<Rightarrow> (int \<times> int) result" where
  "previous_month y m =
     (if m > 1 then Inr (y, m - 1) else if y > 1 then Inr (y - 1, 12) else Inl (OtherError ''OverflowError''))"

definition count_app :: "(string \<times> nat) list \<Rightarrow> json \<Rightarrow> (string \<times> nat) list result" where
  "count_app usage app =
     (case app of
        JStr a \<Rightarrow> Inr (dict_set usage a ((case map_of usage a of None \<Rightarrow> 0 | Some n \<Rightarrow> n) + 1))
      | _ \<Rightarrow> Inl TypeError)"

fun fold_res :: "('b \<Rightarrow> 'a \<Rightarrow> 'b result) \<Rightarrow> 'b \<Rightarrow> 'a list \<Rightarrow> 'b result" where
  "fold_res f b [] = Inr b"
| "fold_res f b (x # xs) = bind_res (f b x) (\<lambda>b'. fold_res f b' xs)"

definition count_track :: "(string \<times> nat) list \<Rightarrow> usage_row \<Rightarrow> (string \<times> nat) list result" where
  "count_track usage t = bind_res (iterate (us_installed_apps t)) (fold_res count_app usage)"

definition build_usage_report :: "'e ext \<Rightarrow> ('e shard, (int \<times> int \<times> (string \<times> nat) list) option) act" where
  "build_usage_report X =
     bnd (world (x_today X)) (\<lambda>(y, m, _).
     bnd (lift_res (previous_month y m)) (\<lambda>(y', m').
     bnd (db_usage (usage_search_by_time_range (midnight y' m' 1) (midnight y m 1))) (\<lambda>tracks.
     if tracks = [] then ret None
     else bnd (lift_res (fold_res count_track [] tracks)) (\<lambda>usage. ret (Some (y', m', usage))))))"

definition usage_report_dump :: "int \<Rightarrow> int \<Rightarrow> (string \<times> nat) list \<Rightarrow> json" where
  "usage_report_dump y m usage =
     JObj [(''year'', JInt y), (''month'', JInt m),
           (''usage'', JObj (map (\<lambda>(a, n). (a, JInt (int n))) usage))]"

fun deliver_report :: "'e ext \<Rightarrow> json \<Rightarrow> nat list \<Rightarrow> ('e shard, unit) act" where
  "deliver_report X body [] = ret ()"
| "deliver_report X body (i # is) =
     bnd (signed_request X ''POST'' (management_api_url (cfg X) @ ''/app_usage'') body) (\<lambda>r.
     if status_code r = 409 then ret ()
     else if 400 \<le> status_code r then
       seq (world (\<lambda>e. ((), x_sleep X (real (i * 10)) e))) (deliver_report X body is)
     else ret ())"

definition report_app_usage :: "'e ext \<Rightarrow> ('e shard, unit) act" where
  "report_app_usage X =
     bnd (build_usage_report X) (\<lambda>r.
     case r of
       None \<Rightarrow> ret ()
     | Some (y, m, usage) \<Rightarrow> deliver_report X (usage_report_dump y m usage) [0..<10])"

section \<open>Percentiles\<close>

lemma py_round_bounds: "\<lfloor>x\<rfloor> \<le> py_round x \<and> py_round x \<le> \<lfloor>x\<rfloor> + 1"
  by (simp add: py_round_def Let_def)

lemma py_round_of_int [simp]: "py_round (of_int n) = n"
  by (simp add: py_round_def Let_def)

lemma py_round_mono:
  assumes "x \<le> y"
  shows "py_round x \<le> py_round y"
proof (cases "\<lfloor>x\<rfloor> = \<lfloor>y\<rfloor>")
  case True
  then show ?thesis using assms by (simp add: py_round_def Let_def)
next
  case False
  then have "\<lfloor>x\<rfloor> + 1 \<le> \<lfloor>y\<rfloor>" using floor_mono [OF assms] by simp
  then show ?thesis using py_round_bounds [of x] py_round_bounds [of y] by linarith
qed

lemma percentile_index:
  assumes "xs \<noteq> []" and "0 \<le> f" and "f \<le> 1"
  shows "percentile xs f = Inr (sort xs ! nat (py_round (f * (of_int (int (length xs)) - 1))))
    \<and> 0 \<le> py_round (f * (of_int (int (length xs)) - 1))
    \<and> py_round (f * (of_int (int (length xs)) - 1)) < int (length xs)"
proof -
  let ?n = "of_int (int (length xs)) - 1 :: real"
  let ?r = "py_round (f * ?n)"
  have n: "0 \<le> ?n" using assms(1) by (cases xs) simp_all
  have "py_round (of_int 0) \<le> ?r" using assms(2) n by (intro py_round_mono) simp
  moreover have "?r \<le> py_round (of_int (int (length xs) - 1))"
    using assms(3) n mult_right_mono [of f 1 ?n] by (intro py_round_mono) simp
  ultimately have "0 \<le> ?r" "?r \<le> int (length xs) - 1" by (simp_all only: py_round_of_int)
  then show ?thesis using assms(2,3) by (simp add: percentile_def py_item_def Let_def)
qed

text \<open>
  C39. The percentiles of a non-empty list of samples are samples, never an exception, and they grow
  with the fraction: the reported median is at most the reported 95th percentile.
\<close>

theorem percentile_is_sample:
  assumes "xs \<noteq> []" and "0 \<le> f" and "f \<le> g" and "g \<le> 1"
  shows "\<exists>a b. percentile xs f = Inr a \<and> percentile xs g = Inr b \<and> a \<le> b \<and> a \<in> set xs \<and> b \<in> set xs"
proof -
  let ?n = "of_int (int (length xs)) - 1 :: real"
  have f: "f \<le> 1" and g: "0 \<le> g" using assms by simp_all
  have n: "0 \<le> ?n" using assms(1) by (cases xs) simp_all
  have le: "nat (py_round (f * ?n)) \<le> nat (py_round (g * ?n))"
    using assms(3) n by (intro nat_mono py_round_mono mult_right_mono)
  have lt: "nat (py_round (f * ?n)) < length xs" "nat (py_round (g * ?n)) < length xs"
    using percentile_index [OF assms(1,2) f] percentile_index [OF assms(1) g assms(4)] by linarith+
  have "sort xs ! nat (py_round (f * ?n)) \<le> sort xs ! nat (py_round (g * ?n))"
    using le lt by (intro sorted_nth_mono) simp_all
  moreover have "sort xs ! nat (py_round (f * ?n)) \<in> set xs" "sort xs ! nat (py_round (g * ?n)) \<in> set xs"
    using lt nth_mem [of _ "sort xs"] by (simp_all add: set_sort)
  ultimately show ?thesis
    using percentile_index [OF assms(1,2) f] percentile_index [OF assms(1) g assms(4)] by blast
qed

lemma percentile_is_sample_witness:
  "\<exists>a b. percentile [3, 1, 2] (1 / 2) = Inr a \<and> percentile [3, 1, 2] (95 / 100) = Inr b \<and> a \<le> b"
  using percentile_is_sample [of "[3, 1, 2]" "1 / 2" "95 / 100"] by auto

section \<open>Telemetry\<close>

lemma moves_keeps_prepare:
  assumes "\<And>e s. f (s\<lparr>sh_env := e\<rparr>) = f s"
  shows "moves (keeps f) (telemetry_prepare X)"
  unfolding telemetry_prepare_def build_pause_tier_def read_swap_kib_def
  by (intro keeps.moves_rules moves_keeps_now moves_keeps_world_res assms)

text \<open>
  What telemetry counts: the report carries the requests counted so far.  If the call raises, all
  counters stay, those of the requests recorded during the call included.  If it is answered, with
  whatever status, the counters are reset, and requests recorded during the call are neither in this
  report nor left for the next one.
\<close>

theorem telemetry_requests_counted:
  assumes "telemetry_enabled (cfg X)" and "telemetry_prepare X s = (Inr t, u)"
    and "call_freeshard_controller X ''api/telemetry'' ''POST'' (telemetry_dump t) (f u) = (r, w)"
    and "sh_no_of_requests (f u) = sh_no_of_requests u + k" and "sh_last_send (f u) = sh_last_send u"
  shows "\<exists>v. send_telemetry_during X f s = (Inr (), v)
    \<and> te_no_of_requests t = sh_no_of_requests s
    \<and> (case r of
         Inl _ \<Rightarrow> sh_no_of_requests v = te_no_of_requests t + k \<and> sh_last_send v = te_start_time t
                    \<and> sh_pause_metrics v = sh_pause_metrics (f u)
       | Inr _ \<Rightarrow> sh_no_of_requests v = 0 \<and> sh_last_send v = te_end_time t
                    \<and> sh_pause_metrics v = no_pause_counters)"
proof -
  have t: "te_no_of_requests t = sh_no_of_requests s" "te_start_time t = sh_last_send s"
    using assms(2) by (auto simp: telemetry_prepare_def bnd_Inr_iff act_atoms now_apply split: prod.splits)
  have u: "sh_no_of_requests u = sh_no_of_requests s" "sh_last_send u = sh_last_send s"
    by (rule moves_keepsD [OF moves_keeps_prepare assms(2)], simp)+
  have w: "sh_no_of_requests w = sh_no_of_requests (f u)" "sh_last_send w = sh_last_send (f u)"
    "sh_pause_metrics w = sh_pause_metrics (f u)"
    by (rule moves_keepsD [OF moves_keeps_signed_request assms(3) [unfolded call_freeshard_controller_def]], simp)+
  have "send_telemetry_during X f s = (case r of Inl _ \<Rightarrow> (Inr (), w) | Inr _ \<Rightarrow> telemetry_sent t w)"
    using assms(1,2,3) by (simp add: send_telemetry_during_def act_simps split: sum.split)
  then show ?thesis
    using t u w assms(4,5)
    by (cases r) (simp_all add: telemetry_sent_def reset_metrics_def act_simps)
qed

definition telemetry_ext :: "real ext" where
  "telemetry_ext =
     sample_ext\<lparr>cfg := sample_cfg\<lparr>telemetry_enabled := True\<rparr>,
       x_signed_request := (\<lambda>v u d i k e. (Inr \<lparr>status_code = 500, body_text = [], body_json = None\<rparr>, e))\<rparr>"

definition telemetry_shard :: "real shard" where
  "telemetry_shard =
     sample_shard\<lparr>sh_no_of_requests := 5, sh_identities := [\<lparr>id_id = ''i'', id_name = Some ''n'',
       id_email = None, id_description = None, id_private_key = Some ''k'', id_is_default = True\<rparr>]\<rparr>"

lemma telemetry_requests_counted_witness:
  "\<exists>v. send_telemetry_during telemetry_ext (\<lambda>s. s\<lparr>sh_no_of_requests := sh_no_of_requests s + 2\<rparr>) telemetry_shard
      = (Inr (), v) \<and> sh_no_of_requests v = 0"
proof -
  let ?f = "\<lambda>s. s\<lparr>sh_no_of_requests := sh_no_of_requests s + 2\<rparr> :: real shard"
  have on: "telemetry_enabled (cfg telemetry_ext)" by (simp add: telemetry_ext_def)
  obtain t where prep: "telemetry_prepare telemetry_ext telemetry_shard = (Inr t, telemetry_shard)"
    by (simp add: telemetry_prepare_def build_pause_tier_def act_simps telemetry_ext_def telemetry_shard_def
        sample_ext_def sample_shard_def no_pause_counters_def)
  obtain r w where call: "call_freeshard_controller telemetry_ext ''api/telemetry'' ''POST'' (telemetry_dump t)
      (?f telemetry_shard) = (Inr r, w)"
    by (simp add: call_freeshard_controller_def signed_request_def get_signature_auth_def
        get_default_identity_def identity_of_def identity_of_row_def validate_email_def
        identities_get_default_def act_simps world_res_def telemetry_ext_def telemetry_shard_def sample_shard_def)
  show ?thesis
    using telemetry_requests_counted [where f = ?f and k = 2, OF on prep call] by auto
qed

section \<open>Usage reports\<close>

lemma div_step:
  assumes "0 < (k::int)"
  shows "n div k = (n - 1) div k + (if k dvd n then 1 else 0)"
proof (cases "k dvd n")
  case True
  then obtain q where q: "n = k * q" by auto
  have "(n - 1) div k = q - 1"
    using assms q by (intro int_div_pos_eq [where r = "k - 1"]) (auto simp: algebra_simps)
  then show ?thesis using True assms q by simp
next
  case False
  then have "n mod k \<noteq> 0" by (simp add: dvd_eq_mod_eq_0)
  moreover have "0 \<le> n mod k" "n mod k < k" using assms by simp_all
  ultimately have "(n - 1) div k = n div k"
    using mult_div_mod_eq [of k n] by (intro int_div_pos_eq [where r = "n mod k - 1"]) (auto simp: algebra_simps)
  then show ?thesis using False by simp
qed

lemma year_length: "days_before_year y - days_before_year (y - 1) = (if leap_year (y - 1) then 366 else 365)"
proof -
  let ?n = "y - 1"
  have d: "?n div 4 = (?n - 1) div 4 + (if 4 dvd ?n then 1 else 0)"
    "?n div 100 = (?n - 1) div 100 + (if 100 dvd ?n then 1 else 0)"
    "?n div 400 = (?n - 1) div 400 + (if 400 dvd ?n then 1 else 0)"
    by (rule div_step; simp)+
  have i: "100 dvd ?n" if "400 dvd ?n" using that by (rule dvd_trans [rotated]) simp
  have j: "4 dvd ?n" if "100 dvd ?n" using that by (rule dvd_trans [rotated]) simp
  have "days_before_year y - days_before_year (y - 1)
    = 365 + (if 4 dvd ?n then 1 else 0) - (if 100 dvd ?n then 1 else 0) + (if 400 dvd ?n then 1 else 0)"
    unfolding days_before_year_def Let_def d by (simp add: algebra_simps)
  moreover have "leap_year ?n \<longleftrightarrow> 4 dvd ?n \<and> (\<not> 100 dvd ?n \<or> 400 dvd ?n)"
    unfolding leap_year_def dvd_eq_mod_eq_0 by blast
  ultimately show ?thesis using i j by (cases "4 dvd ?n"; cases "100 dvd ?n"; cases "400 dvd ?n") simp_all
qed

lemma days_before_months:
  "days_before_month y 1 = 0" "days_before_month y 2 = 31"
  "days_before_month y 12 = (if leap_year y then 335 else 334)"
  by (simp_all add: days_before_month_def days_in_month_def upto.simps)

lemma next_month: "2 \<le> m \<Longrightarrow> days_before_month y m = days_before_month y (m - 1) + days_in_month y (m - 1)"
proof -
  assume "2 \<le> m"
  then have "[1..m - 1] = [1..m - 1 - 1] @ [m - 1]" using upto_rec2 [of 1 "m - 1"] by simp
  then show ?thesis by (simp add: days_before_month_def)
qed

lemma previous_month_range:
  assumes "previous_month y m = Inr (y', m')" and "1 \<le> m"
  shows "midnight y m 1 - midnight y' m' 1 = of_int (86400 * days_in_month y' m')"
proof -
  have "toordinal y m 1 - toordinal y' m' 1 = days_in_month y' m'"
  proof (cases "m > 1")
    case True
    then show ?thesis using assms next_month [of m y] by (auto simp: previous_month_def toordinal_def)
  next
    case False
    then have "m = 1" "y' = y - 1" "m' = 12" using assms by (auto simp: previous_month_def split: if_splits)
    then show ?thesis
      using year_length [of y] by (simp add: toordinal_def days_before_months days_in_month_def)
  qed
  then have "86400 * (toordinal y m 1 - 719163) - 86400 * (toordinal y' m' 1 - 719163) = 86400 * days_in_month y' m'"
    by (simp add: algebra_simps)
  then show ?thesis unfolding midnight_def by (metis of_int_diff)
qed

text \<open>The apps that a track lists\<close>

definition track_apps :: "usage_row \<Rightarrow> json list" where
  "track_apps t = (case iterate (us_installed_apps t) of Inl _ \<Rightarrow> [] | Inr xs \<Rightarrow> xs)"

definition usage_of :: "(string \<times> nat) list \<Rightarrow> string \<Rightarrow> nat" where
  "usage_of u a = (case map_of u a of None \<Rightarrow> 0 | Some n \<Rightarrow> n)"

lemma count_app_usage:
  "count_app u x = Inr v \<Longrightarrow> usage_of v a = usage_of u a + count_list [x] (JStr a)
     \<and> (a \<in> dom (map_of v) \<longleftrightarrow> a \<in> dom (map_of u) \<or> x = JStr a)"
  by (auto simp: count_app_def usage_of_def split: json.splits)

lemma fold_count_app:
  "fold_res count_app u xs = Inr v \<Longrightarrow> usage_of v a = usage_of u a + count_list xs (JStr a)
     \<and> (a \<in> dom (map_of v) \<longleftrightarrow> a \<in> dom (map_of u) \<or> JStr a \<in> set xs)"
proof (induction xs arbitrary: u)
  case Nil
  then show ?case by simp
next
  case (Cons x xs)
  then obtain w where w: "count_app u x = Inr w" "fold_res count_app w xs = Inr v" by auto
  show ?case using count_app_usage [OF w(1), of a] Cons.IH [OF w(2)] by auto
qed

lemma fold_count_track:
  "fold_res count_track u ts = Inr v \<Longrightarrow>
     usage_of v a = usage_of u a + count_list (concat (map track_apps ts)) (JStr a)
     \<and> (a \<in> dom (map_of v) \<longleftrightarrow> a \<in> dom (map_of u) \<or> JStr a \<in> set (concat (map track_apps ts)))"
proof (induction ts arbitrary: u)
  case Nil
  then show ?case by simp
next
  case (Cons t ts)
  then obtain w where rest: "count_track u t = Inr w" "fold_res count_track w ts = Inr v" by auto
  then obtain xs where w: "iterate (us_installed_apps t) = Inr xs" "fold_res count_app u xs = Inr w"
    by (auto simp: count_track_def)
  show ?case
    using fold_count_app [OF w(2), of a] Cons.IH [OF rest(2)] w(1)
    by (auto simp: track_apps_def count_list_append)
qed

text \<open>
  C40. The usage report of a month: it is for the calendar month before the current one, the range of
  tracks searched is exactly that month (it starts on its first day, ends before the first day of the
  current one, and is as long as the month has days, leap years included), and it gives each app the
  number of times it is listed in those tracks and no app that is not.
\<close>

theorem usage_report_counts_last_month:
  assumes "build_usage_report X s = (Inr (Some (y', m', usage)), t)"
    and "fst (x_today X (sh_env s)) = (y, m, d)" and "1 \<le> m"
  shows "previous_month y m = Inr (y', m')
    \<and> midnight y m 1 = midnight y' m' 1 + of_int (86400 * days_in_month y' m')
    \<and> (let apps = concat (map track_apps
             (filter (\<lambda>r. midnight y' m' 1 \<le> us_timestamp r \<and> us_timestamp r < midnight y m 1)
                (se_rows (sh_usage s))))
       in \<forall>a. map_of usage a = (if JStr a \<in> set apps then Some (count_list apps (JStr a)) else None))"
proof -
  obtain e where e: "x_today X (sh_env s) = ((y, m, d), e)"
    using assms(2) by (cases "x_today X (sh_env s)") auto
  let ?tracks = "filter (\<lambda>r. midnight y' m' 1 \<le> us_timestamp r \<and> us_timestamp r < midnight y m 1)
      (se_rows (sh_usage s))"
  have prev: "previous_month y m = Inr (y', m')" and fold: "fold_res count_track [] ?tracks = Inr usage"
    using assms(1) e
    by (auto simp: build_usage_report_def act_simps usage_search_by_time_range_def
        split: sum.splits if_splits)
  have "map_of usage a = (if JStr a \<in> set (concat (map track_apps ?tracks))
      then Some (count_list (concat (map track_apps ?tracks)) (JStr a)) else None)" for a
    using fold_count_track [OF fold, of a] by (auto simp: usage_of_def dom_def split: option.splits)
  moreover have "midnight y m 1 = midnight y' m' 1 + of_int (86400 * days_in_month y' m')"
    using previous_month_range [OF prev assms(3)] by simp
  ultimately show ?thesis using prev unfolding Let_def by blast
qed

text \<open>Three tracks, of which the last is not in February 2024.\<close>

definition usage_shard :: "real shard" where
  "usage_shard =
     sample_shard\<lparr>sh_usage := \<lparr>se_rows =
       [\<lparr>us_id = 1, us_timestamp = midnight 2024 2 1, us_installed_apps = JArr [JStr ''a'', JStr ''b'']\<rparr>,
        \<lparr>us_id = 2, us_timestamp = midnight 2024 2 1, us_installed_apps = JArr [JStr ''a'']\<rparr>,
        \<lparr>us_id = 3, us_timestamp = midnight 2024 3 1, us_installed_apps = JArr [JStr ''c'']\<rparr>], se_last = 3\<rparr>\<rparr>"

lemma february_before_march: "midnight 2024 2 1 < midnight 2024 3 1"
proof -
  have "previous_month 2024 3 = Inr (2024, 2)" by (simp add: previous_month_def)
  from previous_month_range [OF this]
  have "midnight 2024 3 1 = midnight 2024 2 1 + of_int (86400 * days_in_month 2024 2)" by simp
  then show ?thesis by (simp add: days_in_month_def split: if_splits)
qed

lemma usage_sample_run:
  "\<exists>t. build_usage_report sample_ext usage_shard = (Inr (Some (2024, 2, [(''a'', 2), (''b'', 1)])), t)"
proof -
  have "x_today sample_ext (sh_env usage_shard) = ((2024, 3, 15), 0)"
    by (simp add: sample_ext_def usage_shard_def sample_shard_def)
  moreover have "previous_month 2024 3 = Inr (2024, 2)" by (simp add: previous_month_def)
  moreover have "filter (\<lambda>r. midnight 2024 2 1 \<le> us_timestamp r \<and> us_timestamp r < midnight 2024 3 1)
      (se_rows (sh_usage usage_shard))
    = [\<lparr>us_id = 1, us_timestamp = midnight 2024 2 1, us_installed_apps = JArr [JStr ''a'', JStr ''b'']\<rparr>,
       \<lparr>us_id = 2, us_timestamp = midnight 2024 2 1, us_installed_apps = JArr [JStr ''a'']\<rparr>]"
    using february_before_march by (simp add: usage_shard_def)
  ultimately show ?thesis
    by (simp add: build_usage_report_def act_simps usage_search_by_time_range_def count_track_def count_app_def)
qed

lemma usage_report_counts_last_month_witness:
  "previous_month 2024 3 = Inr (2024, 2) \<and> midnight 2024 3 1 = midnight 2024 2 1 + 86400 * 29"
proof -
  obtain t where t: "build_usage_report sample_ext usage_shard = (Inr (Some (2024, 2, [(''a'', 2), (''b'', 1)])), t)"
    using usage_sample_run by blast
  have "fst (x_today sample_ext (sh_env usage_shard)) = (2024, 3, 15)"
    by (simp add: sample_ext_def usage_shard_def sample_shard_def)
  from usage_report_counts_last_month [OF t this]
  have "previous_month 2024 3 = Inr (2024, 2)
      \<and> midnight 2024 3 1 = midnight 2024 2 1 + of_int (86400 * days_in_month 2024 2)" by simp
  then show ?thesis by (simp add: days_in_month_def leap_year_def)
qed

section \<open>Disk\<close>

text \<open>The disk counts as low exactly below one gibibyte, and the websocket is told what is stored.\<close>

lemma update_disk_space_low:
  assumes "update_disk_space X s = (Inr (), t)"
  shows "\<exists>total free. fst (x_disk_usage X (path_root (cfg X) @ [''user_data'']) (sh_env s)) = Inr (total, free)
    \<and> (disk_space_low (sh_disk_usage t) \<longleftrightarrow> free < 1024 ^ 3)
    \<and> (\<exists>m. sh_ws_queue t = sh_ws_queue s @ [m] \<and> message_type m = ''disk_usage_update'')"
proof -
  obtain total free e where u: "x_disk_usage X (path_root (cfg X) @ [''user_data'']) (sh_env s) = (Inr (total, free), e)"
    using assms by (auto simp: update_disk_space_def world_res_def act_simps split: prod.splits sum.splits)
  have "real free / 1024 ^ 3 < 1 \<longleftrightarrow> free < 1024 ^ 3"
    by (simp add: divide_less_eq)
  then show ?thesis
    using assms u
    by (auto simp: update_disk_space_def world_res_def act_simps Let_def on_disk_usage_update_def
        broadcast_message_def)
qed

end
