(* ===== verification/Background.thy ===== *)
theory Background
  imports Signals "HOL-Library.Multiset"
begin

text \<open>
  \<open>util/async_util.py\<close>, \<open>service/websocket.py: WSWorker\<close> and \<open>web/protected/ws.py\<close>: tasks that are
  started and stopped with the shard, the two loops that run a function again and again, and the worker
  that sends the queued messages to the connected browsers.  A loop that never ends is modelled by its
  first \<open>n\<close> rounds; a theorem about all \<open>n\<close> speaks of the endless loop.  Logging is left out.
\<close>

section \<open>Tasks of the event loop\<close>

text \<open>\<open>asyncio.Task\<close> as far as it is used: \<open>cancel\<close> has no effect on a task that has ended.\<close>

datatype handle = Task_Running | Task_Cancelled | Task_Failed exn

fun cancel :: "handle \<Rightarrow> handle" where
  "cancel Task_Running = Task_Cancelled"
| "cancel h = h"

record background_task =
  bt_started :: bool
  bt_task :: "handle option"

definition new_task :: background_task where
  "new_task = \<lparr>bt_started = False, bt_task = None\<rparr>"

definition task_start :: "background_task \<Rightarrow> background_task" where
  "task_start t =
     (if bt_started t then t else t\<lparr>bt_started := True, bt_task := Some Task_Running\<rparr>)"

definition task_stop :: "background_task \<Rightarrow> background_task" where
  "task_stop t =
     (if bt_started t then t\<lparr>bt_started := False, bt_task := map_option cancel (bt_task t)\<rparr> else t)"

text \<open>\<open>await self._task\<close> under \<open>suppress(CancelledError)\<close>; \<open>None\<close> stands for waiting forever.\<close>

definition task_wait :: "background_task \<Rightarrow> unit result option" where
  "task_wait t =
     (case bt_task t of
        None \<Rightarrow> Some (Inl TypeError)
      | Some Task_Running \<Rightarrow> None
      | Some Task_Cancelled \<Rightarrow> Some (Inr ())
      | Some (Task_Failed e) \<Rightarrow> Some (Inl e))"

definition cron_task_init :: "'e ext \<Rightarrow> string \<Rightarrow> background_task result" where
  "cron_task_init X cron = (if x_cron_valid X cron then Inr new_task else Inl TypeError)"

section \<open>The loops\<close>

definition sleep :: "'e ext \<Rightarrow> real \<Rightarrow> ('e shard, unit) act" where
  "sleep X d = world (\<lambda>e. ((), x_sleep X d e))"

text \<open>\<open>try: await self.func() except Exception\<close>\<close>

definition guarded :: "('e shard, unit) act \<Rightarrow> ('e shard, unit) act" where
  "guarded func = try_except func (\<lambda>_. ret ())"

fun run_delay :: "'e ext \<Rightarrow> ('e shard, unit) act \<Rightarrow> real \<Rightarrow> nat \<Rightarrow> ('e shard, unit) act" where
  "run_delay X func delay 0 = ret ()"
| "run_delay X func delay (Suc n) =
     seq (guarded func) (seq (sleep X delay) (run_delay X func delay n))"

text \<open>One round of \<open>_run_cron\<close> up to the call, and the loop\<close>

definition cron_wait :: "'e ext \<Rightarrow> string \<Rightarrow> real option \<Rightarrow> ('e shard, unit) act" where
  "cron_wait X cron max_random_delay =
     bnd (gets (\<lambda>s. x_next_exec X cron (sh_env s))) (\<lambda>next_exec.
     bnd (case max_random_delay of
            None \<Rightarrow> ret next_exec
          | Some m \<Rightarrow>
              (if m = 0 then ret next_exec
               else bnd (world (x_uniform X m)) (\<lambda>delay. ret (next_exec + delay)))) (\<lambda>next_exec.
     bnd (now X) (\<lambda>t. sleep X (next_exec - t))))"

fun run_cron ::
    "'e ext \<Rightarrow> ('e shard, unit) act \<Rightarrow> string \<Rightarrow> real option \<Rightarrow> nat \<Rightarrow> ('e shard, unit) act" where
  "run_cron X func cron m 0 = ret ()"
| "run_cron X func cron m (Suc n) =
     seq (cron_wait X cron m) (seq (guarded func) (run_cron X func cron m n))"

section \<open>WSWorker\<close>

record ws_worker =
  ww_started :: bool
  ww_message_task :: "handle option"
  ww_heartbeat_task :: "handle option"

definition ws_start :: "ws_worker \<Rightarrow> ws_worker" where
  "ws_start w =
     (if ww_started w then w
      else w\<lparr>ww_started := True, ww_message_task := Some Task_Running, ww_heartbeat_task := Some Task_Running\<rparr>)"

definition ws_stop :: "ws_worker \<Rightarrow> ws_worker" where
  "ws_stop w =
     (if ww_started w
      then w\<lparr>ww_started := False, ww_message_task := map_option cancel (ww_message_task w),
             ww_heartbeat_task := map_option cancel (ww_heartbeat_task w)\<rparr>
      else w)"

text \<open>Both tasks are awaited in one \<open>with suppress\<close> block: a cancelled first one ends the block.\<close>

definition ws_wait :: "ws_worker \<Rightarrow> unit result option" where
  "ws_wait w =
     (case ww_message_task w of
        None \<Rightarrow> Some (Inl TypeError)
      | Some Task_Running \<Rightarrow> None
      | Some Task_Cancelled \<Rightarrow> Some (Inr ())
      | Some (Task_Failed e) \<Rightarrow> Some (Inl e))"

text \<open>
  One message of \<open>_send_messages\<close>; with an empty queue the loop waits.  \<open>gather\<close> starts a send for
  every socket before it is known whether one fails.
\<close>

definition send_next_message :: "'e ext \<Rightarrow> ('e shard, unit) act" where
  "send_next_message X =
     bnd (gets sh_ws_queue) (\<lambda>q.
     case q of
       [] \<Rightarrow> ret ()
     | m # ms \<Rightarrow>
         seq (modify (\<lambda>s. s\<lparr>sh_ws_queue := ms\<rparr>))
         (bnd (gets sh_sockets) (\<lambda>sockets.
          try_except (gather (map (\<lambda>k. world_res (x_ws_send X k m)) sockets)) (\<lambda>_. ret ()))))"

fun send_messages :: "'e ext \<Rightarrow> nat \<Rightarrow> ('e shard, unit) act" where
  "send_messages X 0 = ret ()"
| "send_messages X (Suc n) = seq (send_next_message X) (send_messages X n)"

text \<open>\<open>await\<close> applied to the \<open>None\<close> that a plain function returned\<close>

definition await_none :: "unit \<Rightarrow> ('s, unit) act" where
  "await_none _ = raise TypeError"

fun send_heartbeats :: "'e ext \<Rightarrow> nat \<Rightarrow> ('e shard, unit) act" where
  "send_heartbeats X 0 = ret ()"
| "send_heartbeats X (Suc n) =
     seq (bnd (broadcast_message ''heartbeat'' P_Empty) await_none)
     (seq (sleep X 30) (send_heartbeats X n))"

definition connect :: "'e ext \<Rightarrow> nat \<Rightarrow> ('e shard, unit) act" where
  "connect X k =
     seq (world_res (x_ws_accept X k)) (modify (\<lambda>s. s\<lparr>sh_sockets := sh_sockets s @ [k]\<rparr>))"

definition disconnect :: "nat \<Rightarrow> ('e shard, unit) act" where
  "disconnect k =
     bnd (gets sh_sockets) (\<lambda>ks.
     if k \<in> set ks then modify (\<lambda>s. s\<lparr>sh_sockets := remove1 k ks\<rparr>) else raise (ValueError []))"

section \<open>web/protected/ws.py\<close>

text \<open>
  What \<open>receive_json\<close> does next: it returns data, raises \<open>WebSocketDisconnect\<close>, or raises another
  exception, as it does on a text that is not JSON.
\<close>

datatype ws_event = Ws_Data | Ws_Disconnect | Ws_Fails exn

fun listen :: "nat \<Rightarrow> ws_event list \<Rightarrow> ('e shard, unit) act" where
  "listen k [] = ret ()"
| "listen k (Ws_Data # es) = listen k es"
| "listen k (Ws_Disconnect # es) = disconnect k"
| "listen k (Ws_Fails e # es) = raise e"

definition updates :: "'e ext \<Rightarrow> nat \<Rightarrow> ws_event list \<Rightarrow> ('e shard, unit) act" where
  "updates X k es = seq (connect X k) (listen k es)"

section \<open>Starting and stopping\<close>

text \<open>What a sequence of calls of \<open>start\<close> (true) and \<open>stop\<close> (false) makes of a task.\<close>

definition task_calls :: "bool list \<Rightarrow> background_task \<Rightarrow> background_task" where
  "task_calls cs = fold (\<lambda>c. if c then task_start else task_stop) cs"

lemma task_calls_snoc:
  "task_calls (cs @ [c]) t = (if c then task_start else task_stop) (task_calls cs t)"
  by (simp add: task_calls_def)

lemma task_calls_new:
  "task_calls cs new_task =
     (if \<not> (\<exists>c \<in> set cs. c) then new_task
      else if last cs then \<lparr>bt_started = True, bt_task = Some Task_Running\<rparr>
      else \<lparr>bt_started = False, bt_task = Some Task_Cancelled\<rparr>)"
proof (induction cs rule: rev_induct)
  case Nil
  show ?case by (simp add: task_calls_def)
next
  case (snoc c cs)
  then show ?case
    by (cases c) (auto simp: task_calls_snoc task_start_def task_stop_def new_task_def)
qed

section \<open>The loop with a delay\<close>

text \<open>
  The loop runs its function once per round, in the state the round before and the sleep left, and
  whatever it raises.
\<close>

lemma guarded_apply: "guarded func s = (Inr (), snd (func s))"
  by (simp add: guarded_def act_simps split: prod.split sum.split)

lemma sleep_apply: "sleep X d s = (Inr (), s\<lparr>sh_env := x_sleep X d (sh_env s)\<rparr>)"
  by (simp add: sleep_def act_simps)

lemma run_delay_apply:
  "run_delay X func delay n s = (Inr (), ((\<lambda>s. snd (sleep X delay (snd (func s)))) ^^ n) s)"
proof (induction n arbitrary: s)
  case 0
  show ?case by (simp add: act_simps)
next
  case (Suc n)
  then show ?case
    by (simp add: act_apply(4) guarded_apply sleep_apply funpow_Suc_right del: funpow.simps)
qed

section \<open>The loop with a schedule\<close>

text \<open>
  What the loop relies on outside: reading the clock takes no negative time, a sleep is not shorter
  than asked for, croniter gives a time after the present one, and a random delay is between zero and
  its bound.
\<close>

definition clock :: "'e ext \<Rightarrow> 'e \<Rightarrow> real" where
  "clock X e = fst (x_time X e)"

definition fair_clock :: "'e ext \<Rightarrow> bool" where
  "fair_clock X \<longleftrightarrow>
     (\<forall>e. clock X e \<le> clock X (snd (x_time X e)))
     \<and> (\<forall>d e. clock X e + max 0 d \<le> clock X (x_sleep X d e))
     \<and> (\<forall>cron e. clock X e < x_next_exec X cron e)
     \<and> (\<forall>m e. 0 \<le> m \<longrightarrow> 0 \<le> fst (x_uniform X m e) \<and> fst (x_uniform X m e) \<le> m
          \<and> clock X e \<le> clock X (snd (x_uniform X m e)))"

definition max_delay :: "real option \<Rightarrow> real" where
  "max_delay m = (case m of None \<Rightarrow> 0 | Some d \<Rightarrow> d)"

text \<open>The time a round that begins in the world \<open>e\<close> aims at: the scheduled time and the random delay\<close>

definition aimed_at :: "'e ext \<Rightarrow> string \<Rightarrow> real option \<Rightarrow> 'e \<Rightarrow> real" where
  "aimed_at X cron m e =
     x_next_exec X cron e + (case m of None \<Rightarrow> 0 | Some d \<Rightarrow> (if d = 0 then 0 else fst (x_uniform X d e)))"

text \<open>
  \<open>on_schedule X cron m s u\<close>: a round that begins in \<open>s\<close> calls its function in \<open>u\<close>, where only the outside
  world has moved on, and not before the time aimed at, which lies after the beginning of the round and
  at or within the random delay after the scheduled time.
\<close>

definition on_schedule :: "'e ext \<Rightarrow> string \<Rightarrow> real option \<Rightarrow> 'e shard \<Rightarrow> 'e shard \<Rightarrow> bool" where
  "on_schedule X cron m s u \<longleftrightarrow>
     u = s\<lparr>sh_env := sh_env u\<rparr>
     \<and> clock X (sh_env s) < x_next_exec X cron (sh_env s)
     \<and> x_next_exec X cron (sh_env s) \<le> aimed_at X cron m (sh_env s)
     \<and> aimed_at X cron m (sh_env s) \<le> x_next_exec X cron (sh_env s) + max_delay m
     \<and> aimed_at X cron m (sh_env s) \<le> clock X (sh_env u)"

text \<open>
  \<open>called_in X cron m func s us t\<close>: from \<open>s\<close> on, the function was called in the states \<open>us\<close>, once in each,
  every time on schedule from the state the call before had left, and \<open>t\<close> is what the last call left.
\<close>

primrec called_in ::
    "'e ext \<Rightarrow> string \<Rightarrow> real option \<Rightarrow> ('e shard, unit) act \<Rightarrow> 'e shard \<Rightarrow> 'e shard list \<Rightarrow> 'e shard \<Rightarrow> bool" where
  "called_in X cron m func s [] t \<longleftrightarrow> t = s"
| "called_in X cron m func s (u # us) t \<longleftrightarrow>
     on_schedule X cron m s u \<and> called_in X cron m func (snd (func u)) us t"

lemma cron_wait_apply:
  assumes "fair_clock X" and "0 \<le> max_delay m"
  shows "\<exists>u. cron_wait X cron m s = (Inr (), u) \<and> on_schedule X cron m s u"
proof -
  let ?now = "sh_env s" and ?sch = "x_next_exec X cron (sh_env s)"
  obtain j e1 where j: "(case m of None \<Rightarrow> ret ?sch | Some m \<Rightarrow> (if m = 0 then ret ?sch
        else bnd (world (x_uniform X m)) (\<lambda>d. ret (?sch + d)))) s = (Inr (?sch + j), s\<lparr>sh_env := e1\<rparr>)"
      "0 \<le> j" "j \<le> max_delay m" "aimed_at X cron m ?now = ?sch + j"
  proof (cases "m = None \<or> m = Some 0")
    case True
    then show ?thesis using that [of 0 ?now] assms(2) by (auto simp: max_delay_def aimed_at_def act_simps)
  next
    case False
    then obtain d where d: "m = Some d" "d \<noteq> 0" "0 \<le> d" using assms(2) by (cases m) (auto simp: max_delay_def)
    then show ?thesis
      using that [of "fst (x_uniform X d ?now)" "snd (x_uniform X d ?now)"] assms(1)
      by (simp add: fair_clock_def max_delay_def aimed_at_def act_simps split: prod.split)
  qed
  obtain t e2 where t: "x_time X e1 = (t, e2)" by (meson surj_pair)
  let ?e = "x_sleep X (?sch + j - t) e2"
  have "t \<le> clock X e2"
    using assms(1) t by (metis clock_def fair_clock_def fst_conv snd_conv)
  moreover have "clock X e2 + max 0 (?sch + j - t) \<le> clock X ?e"
    using assms(1) unfolding fair_clock_def by blast
  ultimately have "?sch + j \<le> clock X ?e" by linarith
  moreover have "clock X ?now < ?sch" using assms(1) by (simp add: fair_clock_def)
  moreover have "cron_wait X cron m s = (Inr (), s\<lparr>sh_env := ?e\<rparr>)"
    using t by (simp add: cron_wait_def act_apply(3,4,5) j(1) now_apply sleep_apply)
  ultimately show ?thesis using j(2-4)
    by (intro exI [of _ "s\<lparr>sh_env := ?e\<rparr>"]) (simp add: on_schedule_def)
qed

lemma run_cron_calls:
  assumes "fair_clock X" and "0 \<le> max_delay m"
  shows "\<exists>us t. run_cron X func cron m n s = (Inr (), t) \<and> length us = n \<and> called_in X cron m func s us t"
proof (induction n arbitrary: s)
  case 0
  show ?case by (simp add: act_simps)
next
  case (Suc n)
  obtain u where u: "cron_wait X cron m s = (Inr (), u)" "on_schedule X cron m s u"
    using cron_wait_apply [OF assms, of cron s] by blast
  obtain us t where "run_cron X func cron m n (snd (func u)) = (Inr (), t)" "length us = n"
      "called_in X cron m func (snd (func u)) us t"
    using Suc.IH [of "snd (func u)"] by blast
  then show ?case
    using u by (intro exI [of _ "u # us"] exI [of _ t]) (simp add: act_apply(4) guarded_apply)
qed

lemma called_in_later:
  assumes "\<And>s. clock X (sh_env s) \<le> clock X (sh_env (snd (func s)))" and "called_in X cron m func s us t"
  shows "(\<forall>u \<in> set us. clock X (sh_env s) < clock X (sh_env u))
    \<and> sorted_wrt (\<lambda>u v. clock X (sh_env u) < clock X (sh_env v)) us"
  using assms(2)
proof (induction us arbitrary: s)
  case Nil
  show ?case by simp
next
  case (Cons u us)
  then have u: "clock X (sh_env s) < clock X (sh_env u)" by (auto simp: on_schedule_def)
  have "clock X (sh_env u) < clock X (sh_env v)" if "v \<in> set us" for v
    using Cons.IH [of "snd (func u)"] Cons.prems assms(1) [of u] that by force
  then show ?case
    using Cons.IH [of "snd (func u)"] Cons.prems u by fastforce
qed

text \<open>
  C28. A scheduled function keeps its schedule: in \<open>n\<close> rounds, for any \<open>n\<close>, it is called exactly \<open>n\<close>
  times, once per round and whatever it raises, each time in the state the call before it left, in which
  only the outside world has moved on; never before the time aimed at, which is the scheduled time or at
  most the random delay after it; and at later and later times, each round's scheduled time lying after
  the end of the call before.
\<close>

theorem cron_keeps_schedule:
  assumes "fair_clock X" and "0 \<le> max_delay m"
    and "\<And>s. clock X (sh_env s) \<le> clock X (sh_env (snd (func s)))"
  shows "\<exists>us t. run_cron X func cron m n s = (Inr (), t) \<and> length us = n \<and> called_in X cron m func s us t
    \<and> sorted_wrt (\<lambda>u v. clock X (sh_env u) < clock X (sh_env v)) us"
  using run_cron_calls [OF assms(1,2), of func cron n s] called_in_later [OF assms(3)] by metis

text \<open>A clock that sleeps exactly as long as asked for, and a schedule every ten seconds.\<close>

definition cron_ext :: "real ext" where
  "cron_ext =
     sample_ext\<lparr>x_sleep := (\<lambda>d e. e + max 0 d), x_next_exec := (\<lambda>c e. 10 * (of_int \<lfloor>e / 10\<rfloor> + 1)),
       x_uniform := (\<lambda>m e. (m, e))\<rparr>"

lemma cron_ext_fair: "fair_clock cron_ext"
proof -
  have "e < 10 * (of_int \<lfloor>e / 10\<rfloor> + 1)" for e :: real
    using floor_correct [of "e / 10"] by (simp add: divide_less_eq algebra_simps)
  then show ?thesis by (simp add: fair_clock_def clock_def cron_ext_def sample_ext_def)
qed

text \<open>A function that leaves a trace and raises: after two rounds, it has been called twice.\<close>

definition traced :: "(real shard, unit) act" where
  "traced = seq (modify (\<lambda>s. s\<lparr>sh_sockets := sh_sockets s @ [0]\<rparr>)) (raise TypeError)"

lemma cron_keeps_schedule_witness:
  "\<exists>t. run_cron cron_ext traced ''c'' (Some 3) 2 sample_shard = (Inr (), t) \<and> sh_sockets t = [0, 0]"
proof -
  have "clock cron_ext (sh_env s) \<le> clock cron_ext (sh_env (snd (traced s)))" for s
    by (simp add: traced_def act_simps)
  from cron_keeps_schedule [OF cron_ext_fair _ this, of "Some 3" "''c''" 2 sample_shard]
  obtain us t where t: "run_cron cron_ext traced ''c'' (Some 3) 2 sample_shard = (Inr (), t)"
      "length us = 2" "called_in cron_ext ''c'' (Some 3) traced sample_shard us t"
    by (auto simp: max_delay_def)
  then obtain u v where us: "us = [u, v]" by (auto simp: length_Suc_conv numeral_2_eq_2)
  have env: "sh_sockets b = sh_sockets a" if "on_schedule cron_ext ''c'' (Some 3) a b" for a b
    using that unfolding on_schedule_def by (metis shard.ext_inject shard.surjective shard.update_convs(32))
  have "sh_sockets t = sh_sockets sample_shard @ [0, 0]"
    using t(3) env unfolding us by (auto simp: traced_def act_simps)
  then show ?thesis using t(1) by (simp add: sample_shard_def)
qed

section \<open>Messages and heartbeats\<close>

text \<open>The outside world after a message was sent to a list of sockets, whatever the sends returned.\<close>

definition sent :: "'e ext \<Rightarrow> ws_message \<Rightarrow> nat list \<Rightarrow> 'e \<Rightarrow> 'e" where
  "sent X m ks e = fold (\<lambda>k e. snd (x_ws_send X k m e)) ks e"

lemma gather_sends:
  "\<exists>r. gather (map (\<lambda>k. world_res (x_ws_send X k m)) ks) s = (r, s\<lparr>sh_env := sent X m ks (sh_env s)\<rparr>)"
proof (induction ks arbitrary: s)
  case Nil
  show ?case by (simp add: sent_def)
next
  case (Cons k ks)
  obtain r e where e: "x_ws_send X k m (sh_env s) = (r, e)" by (meson surj_pair)
  obtain q where q: "gather (map (\<lambda>k. world_res (x_ws_send X k m)) ks) (s\<lparr>sh_env := e\<rparr>)
      = (q, s\<lparr>sh_env := sent X m ks e\<rparr>)"
    using Cons.IH [of "s\<lparr>sh_env := e\<rparr>"] by auto
  have "world_res (x_ws_send X k m) s = (r, s\<lparr>sh_env := e\<rparr>)"
    using e by (simp add: world_res_def act_simps)
  then show ?case using q e by (simp add: sent_def)
qed

lemma send_next_message_apply:
  "send_next_message X s =
     (Inr (), case sh_ws_queue s of
                [] \<Rightarrow> s
              | m # ms \<Rightarrow> s\<lparr>sh_ws_queue := ms, sh_env := sent X m (sh_sockets s) (sh_env s)\<rparr>)"
proof (cases "sh_ws_queue s")
  case Nil
  then show ?thesis by (simp add: send_next_message_def act_simps)
next
  case (Cons m ms)
  let ?s = "s\<lparr>sh_ws_queue := ms\<rparr>"
  obtain r where "gather (map (\<lambda>k. world_res (x_ws_send X k m)) (sh_sockets ?s)) ?s
      = (r, ?s\<lparr>sh_env := sent X m (sh_sockets ?s) (sh_env ?s)\<rparr>)"
    using gather_sends by blast
  then show ?thesis
    using Cons by (cases r) (simp_all add: send_next_message_def act_simps)
qed

text \<open>
  C29. Messages reach every connected browser in the order they were queued: as many rounds as there
  are messages empty the queue, and each message was sent to every socket that is registered,
  whatever the sends before it raised; no socket is dropped.
\<close>

theorem messages_sent_in_order:
  shows "send_messages X (length (sh_ws_queue s)) s =
    (Inr (), s\<lparr>sh_ws_queue := [],
               sh_env := fold (\<lambda>m. sent X m (sh_sockets s)) (sh_ws_queue s) (sh_env s)\<rparr>)"
proof (induction "sh_ws_queue s" arbitrary: s)
  case Nil
  then show ?case by (simp add: act_simps)
next
  case (Cons m ms)
  let ?t = "s\<lparr>sh_ws_queue := ms, sh_env := sent X m (sh_sockets s) (sh_env s)\<rparr>"
  have "send_next_message X s = (Inr (), ?t)"
    by (simp add: send_next_message_apply Cons.hyps(2) [symmetric])
  then show ?case
    using Cons.hyps(1) [of ?t] by (simp add: Cons.hyps(2) [symmetric] act_apply(4))
qed

text \<open>
  The heartbeat is sent once: the value awaited is not awaitable, so the endless loop ends with a
  \<open>TypeError\<close> in its first round, whatever number of rounds it was given, and no second one follows.
\<close>

theorem heartbeat_sent_once:
  shows "send_heartbeats X (Suc n) s =
    (Inl TypeError, s\<lparr>sh_ws_queue := sh_ws_queue s @ [\<lparr>message_type = ''heartbeat'', message = P_Empty\<rparr>]\<rparr>)"
  by (simp add: broadcast_message_def await_none_def act_simps)

section \<open>Registered sockets\<close>

text \<open>
  Clients come and go while messages are queued and sent.  The state has, beside the shard, the
  sockets whose endpoint is running and those whose endpoint was ended by an exception other than
  \<open>WebSocketDisconnect\<close>.
\<close>

inductive ws_step ::
    "'e ext \<Rightarrow> nat list \<times> nat list \<times> 'e shard \<Rightarrow> nat list \<times> nat list \<times> 'e shard \<Rightarrow> bool" for X where
  opens: "k \<notin> set running \<union> set failed \<Longrightarrow> connect X k s = (Inr (), t)
    \<Longrightarrow> ws_step X (running, failed, s) (k # running, failed, t)"
| refused: "connect X k s = (Inl e, t) \<Longrightarrow> ws_step X (running, failed, s) (running, failed, t)"
| closes: "k \<in> set running \<Longrightarrow> listen k [Ws_Disconnect] s = (Inr (), t)
    \<Longrightarrow> ws_step X (running, failed, s) (remove1 k running, failed, t)"
| close_raises: "k \<in> set running \<Longrightarrow> listen k [Ws_Disconnect] s = (Inl e, t)
    \<Longrightarrow> ws_step X (running, failed, s) (remove1 k running, k # failed, t)"
| fails: "k \<in> set running \<Longrightarrow> listen k [Ws_Fails e] s = (r, t)
    \<Longrightarrow> ws_step X (running, failed, s) (remove1 k running, k # failed, t)"
| queues: "broadcast_message ty p s = (r, t) \<Longrightarrow> ws_step X (running, failed, s) (running, failed, t)"
| sends: "send_next_message X s = (r, t) \<Longrightarrow> ws_step X (running, failed, s) (running, failed, t)"

inductive_cases ws_stepE: "ws_step X a b"

definition sockets_registered :: "nat list \<times> nat list \<times> 'e shard \<Rightarrow> bool" where
  "sockets_registered c =
     (case c of (running, failed, s) \<Rightarrow>
        mset (sh_sockets s) = mset running + mset failed \<and> distinct (running @ failed))"

lemma connect_sockets:
  "connect X k s = (r, t) \<Longrightarrow> sh_sockets t = (case r of Inl _ \<Rightarrow> sh_sockets s | Inr _ \<Rightarrow> sh_sockets s @ [k])"
  by (auto simp: connect_def world_res_def act_simps split: prod.splits sum.splits)

lemma sockets_registered_step:
  assumes "ws_step X a b" and "sockets_registered a"
  shows "sockets_registered b"
  using assms
proof cases
  case (opens k running failed s t)
  then show ?thesis
    using assms(2) connect_sockets [OF opens(4)] by (auto simp: sockets_registered_def)
next
  case (refused k s e t running failed)
  then show ?thesis
    using assms(2) connect_sockets [OF refused(3)] by (simp add: sockets_registered_def)
next
  case (closes k running s t failed)
  then have "k \<in># mset (sh_sockets s)" using assms(2) by (simp add: sockets_registered_def)
  then show ?thesis
    using closes assms(2)
    by (auto simp: sockets_registered_def disconnect_def act_simps distinct_remove1
        dest: set_remove1_subset [THEN subsetD] split: if_splits)
next
  case (close_raises k running s e t failed)
  then have "k \<in> set (sh_sockets s)"
    using assms(2) set_mset_mset [of "sh_sockets s"] by (auto simp: sockets_registered_def)
  then show ?thesis using close_raises by (simp add: disconnect_def act_simps)
next
  case (fails k running e s r t failed)
  then show ?thesis
    using assms(2) by (auto simp: sockets_registered_def act_simps distinct_remove1)
next
  case (queues ty p s r t running failed)
  then show ?thesis
    using assms(2) by (auto simp: sockets_registered_def broadcast_message_def act_simps)
next
  case (sends s r t running failed)
  then show ?thesis
    using assms(2) by (auto simp: sockets_registered_def send_next_message_apply split: list.splits)
qed

lemma sockets_registered_reachable:
  "(ws_step X)\<^sup>*\<^sup>* a b \<Longrightarrow> sockets_registered a \<Longrightarrow> sockets_registered b"
  by (induction rule: rtranclp_induct) (blast intro: sockets_registered_step)+

text \<open>
  Which sockets are registered, however clients come and go: exactly those whose endpoint is
  running and those whose endpoint was ended by an exception other than a disconnect, each once.  So a
  closed connection is always found and removed, and the sockets of failed endpoints stay for good.
\<close>

theorem registered_sockets:
  assumes "(ws_step X)\<^sup>*\<^sup>* ([], [], s) (running, failed, t)" and "sh_sockets s = []"
  shows "mset (sh_sockets t) = mset running + mset failed \<and> distinct (sh_sockets t)
    \<and> (\<forall>k \<in> set running. \<exists>u. listen k [Ws_Disconnect] t = (Inr (), u) \<and> k \<notin> set (sh_sockets u))"
proof -
  have reg: "sockets_registered (running, failed, t)"
    by (rule sockets_registered_reachable [OF assms(1)]) (simp add: sockets_registered_def assms(2))
  then have "mset (sh_sockets t) = mset (running @ failed)" "distinct (running @ failed)"
    by (simp_all add: sockets_registered_def)
  then have "distinct (sh_sockets t)" "set (sh_sockets t) = set (running @ failed)"
    by (metis mset_eq_imp_distinct_iff, metis mset_eq_setD)
  then show ?thesis
    using reg by (auto simp: sockets_registered_def disconnect_def act_simps)
qed

text \<open>Two browsers connect, one sends a text that is not JSON, the other one leaves.\<close>

lemma registered_sockets_witness:
  "\<exists>t. (ws_step sample_ext)\<^sup>*\<^sup>* ([], [], sample_shard) ([], [1], t) \<and> sh_sockets t = [1]"
proof -
  let ?a = "sample_shard\<lparr>sh_sockets := [1]\<rparr>" and ?b = "sample_shard\<lparr>sh_sockets := [1, 2]\<rparr>"
  have conn: "connect sample_ext k (s :: real shard) = (Inr (), s\<lparr>sh_sockets := sh_sockets s @ [k]\<rparr>)" for k s
    by (simp add: connect_def world_res_def act_simps sample_ext_def)
  have "ws_step sample_ext ([], [], sample_shard) ([1], [], ?a)"
    using ws_step.opens [of 1 "[]" "[]" sample_ext sample_shard ?a] conn [of 1 sample_shard]
    by (simp add: sample_shard_def)
  moreover have "ws_step sample_ext ([1], [], ?a) ([2, 1], [], ?b)"
    using ws_step.opens [of 2 "[1]" "[]" sample_ext ?a ?b] conn [of 2 ?a] by simp
  moreover have "ws_step sample_ext ([2, 1], [], ?b) ([2], [1], ?b)"
    using ws_step.fails [of 1 "[2, 1]" JSONDecodeError ?b _ ?b] by (simp add: act_simps)
  ultimately have run: "(ws_step sample_ext)\<^sup>*\<^sup>* ([], [], sample_shard) ([2], [1], ?b)"
    by (meson rtranclp.rtrancl_into_rtrancl rtranclp.rtrancl_refl)
  from registered_sockets [OF run] obtain u where u: "listen 2 [Ws_Disconnect] ?b = (Inr (), u)"
    by (auto simp: sample_shard_def)
  from ws_step.closes [OF _ u, of "[2]" sample_ext "[1]"]
  have "ws_step sample_ext ([2], [1], ?b) ([], [1], u)" by simp
  with run have "(ws_step sample_ext)\<^sup>*\<^sup>* ([], [], sample_shard) ([], [1], u)"
    by (rule rtranclp.rtrancl_into_rtrancl)
  moreover have "sh_sockets u = [1]"
    using u by (auto simp: disconnect_def act_simps)
  ultimately show ?thesis by blast
qed

section \<open>Shutdown of the worker\<close>

text \<open>
  Waiting after a stop ends at once: also for the worker whose heartbeat task has long failed, since the
  cancelled message task ends the block before the other one is awaited.
\<close>

lemma ws_wait_after_stop:
  assumes "ww_started w" and "ww_message_task w = Some Task_Running" and "ww_heartbeat_task w = Some h"
  shows "ws_wait (ws_stop w) = Some (Inr ())"
  using assms by (simp add: ws_wait_def ws_stop_def)

text \<open>
  Whatever calls of \<open>start\<close> and \<open>stop\<close> a task of the shard has seen, waiting for it returns
  exactly when it was started at some time and the last call was a stop; before any start it raises, and
  while it runs it does not return.
\<close>

theorem wait_returns_after_stop:
  shows "task_wait (task_calls cs new_task) =
    (if \<not> (\<exists>c \<in> set cs. c) then Some (Inl TypeError) else if last cs then None else Some (Inr ()))"
  unfolding task_wait_def task_calls_new by (simp add: new_task_def)

end
