(* ===== verification/Assets.thy ===== *)
theory Assets
  imports Identity App_Zip
begin

text \<open>
  \<open>service/assets.py\<close>, \<open>service/avatar.py\<close> and the avatar endpoints of \<open>web/protected/identities.py\<close>
  and \<open>web/public/meta.py\<close>.  The names in a directory, in the order the operating system lists them, are
  \<open>x_listdir\<close>; the media type of a name is \<open>x_guess_type\<close>.
\<close>

section \<open>Glob patterns of one component\<close>

text \<open>A bracket expression: negated or not, its characters, and the pattern after it.\<close>

definition bracket :: "string \<Rightarrow> (bool \<times> string \<times> string) option" where
  "bracket p =
     (let (neg, q) = (case p of c # cs \<Rightarrow> if c = CHR ''!'' then (True, cs) else (False, p) | [] \<Rightarrow> (False, p)) in
      case q of
        [] \<Rightarrow> None
      | c # cs \<Rightarrow>
          (if CHR '']'' \<in> set cs
           then Some (neg, c # takeWhile (\<lambda>x. x \<noteq> CHR '']'') cs, tl (dropWhile (\<lambda>x. x \<noteq> CHR '']'') cs))
           else None))"

lemma bracket_shorter: "bracket p = Some (neg, cs, q) \<Longrightarrow> length q < length p"
proof -
  assume br: "bracket p = Some (neg, cs, q)"
  have tl: "length (tl (dropWhile P xs)) \<le> length xs" for P and xs :: string
    using length_dropWhile_le [of P xs] by simp
  show ?thesis
    using br tl
    by (auto simp: bracket_def Let_def simp del: length_tl split: list.splits if_splits prod.splits
        intro: le_imp_less_Suc le_SucI)
qed

definition char_le :: "char \<Rightarrow> char \<Rightarrow> bool" where
  "char_le a b \<longleftrightarrow> (of_char a :: nat) \<le> of_char b"

fun in_class :: "char \<Rightarrow> string \<Rightarrow> bool" where
  "in_class x (a # m # b # cs) =
     (if m = CHR ''-'' then (char_le a x \<and> char_le x b) \<or> in_class x cs
      else x = a \<or> in_class x (m # b # cs))"
| "in_class x (c # cs) = (x = c \<or> in_class x cs)"
| "in_class x [] = False"

function fnmatch :: "string \<Rightarrow> string \<Rightarrow> bool" where
  "fnmatch [] s = (s = [])"
| "fnmatch (c # p) s =
     (if c = CHR ''*'' then fnmatch p s \<or> (case s of [] \<Rightarrow> False | _ # t \<Rightarrow> fnmatch (c # p) t)
      else
        (case s of
           [] \<Rightarrow> False
         | x # t \<Rightarrow>
             (if c = CHR ''?'' then fnmatch p t
              else if c = CHR ''['' then
                (case bracket p of
                   None \<Rightarrow> x = c \<and> fnmatch p t
                 | Some (neg, cs, q) \<Rightarrow> in_class x cs \<noteq> neg \<and> fnmatch q t)
              else x = c \<and> fnmatch p t)))"
  by pat_completeness auto
termination
  by (relation "measure (\<lambda>(p, s). length p + length s)") (auto dest: bracket_shorter)

declare fnmatch.simps(2) [simp del]

definition plain_pattern :: "string \<Rightarrow> bool" where
  "plain_pattern p \<longleftrightarrow> list_all (\<lambda>c. c \<noteq> CHR ''*'' \<and> c \<noteq> CHR ''?'' \<and> c \<noteq> CHR ''['') p"

text \<open>\<open>list(directory.glob(pattern))\<close>\<close>

definition glob :: "'e ext \<Rightarrow> path \<Rightarrow> string \<Rightarrow> fs \<Rightarrow> string list" where
  "glob X p pat fs = filter (fnmatch pat) (x_listdir X p fs)"

section \<open>service/assets.py\<close>

definition assets_path :: "'e ext \<Rightarrow> path" where
  "assets_path X = path_root (cfg X) @ [''core'', ''assets'']"

definition avatars_path :: "'e ext \<Rightarrow> path" where
  "avatars_path X = assets_path X @ [''avatars'']"

definition put_asset :: "'e ext \<Rightarrow> string \<Rightarrow> string \<Rightarrow> bool \<Rightarrow> ('e shard, unit) act" where
  "put_asset X content p overwrite =
     (if is_absolute p then raise (ValueError ''path must be relative'')
      else
        (let effective_path = path_join (assets_path X) p in
         bnd (gets (\<lambda>s. fs_exists (sh_fs s) effective_path)) (\<lambda>there.
         if there \<and> \<not> overwrite then raise FileExistsError
         else
           seq (on_fs (fs_mkdirs (parent effective_path)))
           (on_fs (fs_write effective_path content)))))"

definition get_asset :: "'e ext \<Rightarrow> string \<Rightarrow> ('e shard, string) act" where
  "get_asset X p =
     (if is_absolute p then raise (ValueError ''path must be relative'')
      else
        (let effective_path = path_join (assets_path X) p in
         bnd (gets sh_fs) (\<lambda>fs.
         if \<not> fs_exists fs effective_path then raise FileNotFoundError
         else lift_res (fs_read fs effective_path))))"

definition delete_asset :: "'e ext \<Rightarrow> string \<Rightarrow> ('e shard, unit) act" where
  "delete_asset X p =
     (if is_absolute p then raise (ValueError ''path must be relative'')
      else
        (let effective_path = path_join (assets_path X) p in
         bnd (gets (\<lambda>s. fs_exists (sh_fs s) effective_path)) (\<lambda>there.
         if \<not> there then raise FileNotFoundError
         else on_fs (fs_unlink effective_path))))"

section \<open>service/avatar.py\<close>

definition find_avatar_file :: "'e ext \<Rightarrow> string \<Rightarrow> ('e shard, path) act" where
  "find_avatar_file X hash_id =
     bnd (gets (\<lambda>s. glob X (avatars_path X) (hash_id @ ''*'') (sh_fs s))) (\<lambda>found_files.
     case found_files of
       [n] \<Rightarrow> ret (avatars_path X @ [n])
     | _ \<Rightarrow> raise FileNotFoundError)"

section \<open>The endpoints\<close>

definition not_found_404 :: "exn \<Rightarrow> ('s, 'a) act" where
  "not_found_404 e = (if e = FileNotFoundError then raise (HTTPException 404) else raise e)"

text \<open>The content and the media type of the answer.\<close>

definition send_avatar :: "'e ext \<Rightarrow> string \<Rightarrow> ('e shard, string \<times> string option) act" where
  "send_avatar X hash_id =
     bnd (try_except (find_avatar_file X hash_id) not_found_404) (\<lambda>avatar_file.
     bnd (bnd (gets sh_fs) (\<lambda>fs. lift_res (fs_read fs avatar_file))) (\<lambda>content.
     ret (content, x_guess_type X (path_str avatar_file))))"

definition get_avatar_by_identity :: "'e ext \<Rightarrow> string \<Rightarrow> ('e shard, string \<times> string option) act" where
  "get_avatar_by_identity X i = bnd (get_identity_by_id X i) (\<lambda>identity_obj. send_avatar X (i_id identity_obj))"

definition get_default_avatar :: "'e ext \<Rightarrow> ('e shard, string \<times> string option) act" where
  "get_default_avatar X = bnd (get_default_identity X) (\<lambda>d. get_avatar_by_identity X (i_id d))"

definition meta_default_avatar :: "'e ext \<Rightarrow> ('e shard, string \<times> string option) act" where
  "meta_default_avatar X = bnd (get_default_identity X) (\<lambda>d. send_avatar X (i_id d))"

text \<open>\<open>filename.split(".")[-1]\<close>, and the path below the assets\<close>

definition file_extension :: "string \<Rightarrow> string" where
  "file_extension filename = last (split_on CHR ''.'' filename)"

definition avatar_asset :: "string \<Rightarrow> string \<Rightarrow> string" where
  "avatar_asset i ext =
     (let n = i @ ''.'' @ ext in if is_absolute n then n else ''avatars/'' @ n)"

text \<open>Both the upload and the deletion unlink the file that is found, if one is found.\<close>

definition unlink_avatar :: "'e ext \<Rightarrow> string \<Rightarrow> ('e shard, unit) act" where
  "unlink_avatar X hash_id =
     try_else (find_avatar_file X hash_id)
       (\<lambda>e. if e = FileNotFoundError then ret () else raise e)
       (\<lambda>existing_file. on_fs (fs_unlink existing_file))"

definition put_avatar :: "'e ext \<Rightarrow> string \<Rightarrow> string \<Rightarrow> string \<Rightarrow> ('e shard, unit) act" where
  "put_avatar X i filename content =
     (case x_guess_type X filename of
        None \<Rightarrow> raise AttributeError
      | Some t \<Rightarrow>
          (if \<not> starts_with ''image/'' t then raise (HTTPException 422)
           else
             seq (unlink_avatar X i)
             (bnd (get_identity_by_id X i) (\<lambda>identity_obj.
              put_asset X content (avatar_asset (i_id identity_obj) (file_extension filename)) True))))"

definition put_default_avatar :: "'e ext \<Rightarrow> string \<Rightarrow> string \<Rightarrow> ('e shard, unit) act" where
  "put_default_avatar X filename content =
     bnd (get_default_identity X) (\<lambda>d. put_avatar X (i_id d) filename content)"

definition delete_avatar :: "'e ext \<Rightarrow> string \<Rightarrow> ('e shard, unit) act" where
  "delete_avatar X i =
     bnd (get_identity_by_id X i) (\<lambda>identity_obj. unlink_avatar X (i_id identity_obj))"

definition delete_default_avatar :: "'e ext \<Rightarrow> ('e shard, unit) act" where
  "delete_default_avatar X = bnd (get_default_identity X) (\<lambda>d. delete_avatar X (i_id d))"

section \<open>Patterns without special characters\<close>

lemma fnmatch_star: "fnmatch ''*'' s"
  by (induction s) (simp_all add: fnmatch.simps(2))

lemma fnmatch_prefix: "plain_pattern p \<Longrightarrow> fnmatch (p @ ''*'') s \<longleftrightarrow> starts_with p s"
proof (induction p arbitrary: s)
  case Nil
  show ?case by (simp add: fnmatch_star)
next
  case (Cons c p)
  then have "c \<noteq> CHR ''*''" "c \<noteq> CHR ''?''" "c \<noteq> CHR ''[''" "plain_pattern p"
    by (simp_all add: plain_pattern_def)
  then show ?case
    using Cons.IH by (cases s) (auto simp: fnmatch.simps(2) starts_with_def)
qed

section \<open>Where an avatar goes\<close>

lemma get_identity_by_id_apply:
  "get_identity_by_id X i s =
     (case tbl_find id_id i (sh_identities s) of
        None \<Rightarrow> (Inl (HTTPException 404), s) | Some r \<Rightarrow> (identity_of_row X r, s))"
  by (simp add: get_identity_by_id_def identities_get_by_id_def act_simps split: option.split)

lemma get_identity_by_id_Inr:
  assumes "get_identity_by_id X i s = (Inr d, t)"
  shows "t = s \<and> i_id d = i"
  using assms tbl_find_key [of id_id i "sh_identities s"]
  by (auto simp: get_identity_by_id_apply identity_of_row_def split: option.splits)

lemma with_identity_cases:
  assumes "bnd (get_identity_by_id X i) k s = (r, t)"
  obtains e where "get_identity_by_id X i s = (Inl e, s)" "r = Inl e" "t = s"
  | d where "get_identity_by_id X i s = (Inr d, s)" "i_id d = i" "k d s = (r, t)"
proof (cases "get_identity_by_id X i s")
  case (Pair q u)
  have u: "u = s" using Pair by (simp add: get_identity_by_id_apply split: option.splits)
  show thesis
  proof (cases q)
    case (Inl e)
    then have "r = Inl e" "t = s" using assms Pair u by (simp_all add: act_apply(3))
    then show thesis using that(1) Pair Inl u by simp
  next
    case (Inr d)
    then have "k d s = (r, t)" using assms Pair u by (simp add: act_apply(3))
    then show thesis using that(2) [of d] Pair Inr u get_identity_by_id_Inr [of X i s d u] by simp
  qed
qed

lemma find_avatar_file_apply:
  "find_avatar_file X h s =
     (case glob X (avatars_path X) (h @ ''*'') (sh_fs s) of
        [n] \<Rightarrow> (Inr (avatars_path X @ [n]), s) | _ \<Rightarrow> (Inl FileNotFoundError, s))"
  by (simp add: find_avatar_file_def act_simps split: list.split)

text \<open>An identifier as \<open>to_hash_id\<close> makes them: letters and digits.\<close>

definition plain_id :: "string \<Rightarrow> bool" where
  "plain_id i \<longleftrightarrow> i \<noteq> [] \<and> plain_pattern i \<and> CHR ''/'' \<notin> set i \<and> CHR ''.'' \<notin> set i"

lemma file_extension_chars: "CHR ''.'' \<notin> set (file_extension n)" "set (file_extension n) \<subseteq> set n"
proof -
  have "file_extension n \<in> set (split_on CHR ''.'' n)"
    unfolding file_extension_def by (rule last_in_set) simp
  then show "CHR ''.'' \<notin> set (file_extension n)" "set (file_extension n) \<subseteq> set n"
    by (simp_all add: split_on_members split_on_chars)
qed

lemma avatar_comps:
  assumes "plain_id i" and "CHR ''.'' \<notin> set ext"
  shows "path_join (assets_path X) (avatar_asset i ext) = avatars_path X @ path_comps (i @ ''.'' @ ext)"
    and "''..'' \<notin> set (path_comps (i @ ''.'' @ ext))" and "path_comps (i @ ''.'' @ ext) \<noteq> []"
proof -
  have "\<not> is_absolute (i @ r)" for r
    using assms(1) by (cases i) (auto simp: is_absolute_def plain_id_def starts_with_def)
  then have "path_comps (avatar_asset i ext) = ''avatars'' # path_comps (i @ ''.'' @ ext)"
      "\<not> is_absolute (avatar_asset i ext)"
    using split_on_prefix [of "CHR ''/''" "''avatars''" "i @ ''.'' @ ext"]
    by (simp_all add: avatar_asset_def path_comps_def is_absolute_def starts_with_def)
  then show "path_join (assets_path X) (avatar_asset i ext) = avatars_path X @ path_comps (i @ ''.'' @ ext)"
    by (simp add: path_join_def avatars_path_def)
  have sl: "CHR ''/'' \<notin> set (i @ ''.'')" using assms(1) by (simp add: plain_id_def)
  have "\<exists>w ws. split_on CHR ''/'' (i @ ''.'' @ ext) = (i @ ''.'' @ w) # ws
      \<and> set w \<subseteq> set ext \<and> (\<forall>x \<in> set ws. set x \<subseteq> set ext)"
  proof (cases "CHR ''/'' \<in> set ext")
    case True
    then obtain a b where ab: "ext = a @ CHR ''/'' # b" "CHR ''/'' \<notin> set a" by (meson split_list_first)
    then have "split_on CHR ''/'' ((i @ ''.'' @ a) @ CHR ''/'' # b) = (i @ ''.'' @ a) # split_on CHR ''/'' b"
      using sl by (intro split_on_prefix) simp
    then show ?thesis
      using ab split_on_chars [of _ "CHR ''/''" b] by (intro exI [of _ a] exI [of _ "split_on CHR ''/'' b"]) auto
  next
    case False
    then have "split_on CHR ''/'' (i @ ''.'' @ ext) = [i @ ''.'' @ ext]"
      using sl by (intro split_on_single) simp
    then show ?thesis by auto
  qed
  then obtain w ws where split: "split_on CHR ''/'' (i @ ''.'' @ ext) = (i @ ''.'' @ w) # ws"
      and ws: "\<forall>x \<in> set ws. set x \<subseteq> set ext" by blast
  have first: "i @ ''.'' @ w \<noteq> [] \<and> i @ ''.'' @ w \<noteq> ''.'' \<and> i @ ''.'' @ w \<noteq> ''..''"
    using assms(1) by (cases i) (auto simp: plain_id_def)
  have "x \<noteq> ''..''" if "x \<in> set ws" for x
    using that ws assms(2) by auto
  then show "''..'' \<notin> set (path_comps (i @ ''.'' @ ext))" "path_comps (i @ ''.'' @ ext) \<noteq> []"
    using first unfolding path_comps_def split by auto
qed

lemma put_asset_apply:
  assumes "\<not> is_absolute p"
  shows "put_asset X c p True s =
    (let q = path_join (assets_path X) p in
     case fs_mkdirs (parent q) (sh_fs s) of
       (Inl e, fs) \<Rightarrow> (Inl e, s\<lparr>sh_fs := fs\<rparr>)
     | (Inr _, fs) \<Rightarrow> (case fs_write q c fs of (r, fs') \<Rightarrow> (r, s\<lparr>sh_fs := fs'\<rparr>)))"
  using assms by (simp add: put_asset_def act_simps Let_def split: prod.split sum.split)

lemma put_asset_changes:
  assumes "put_asset X c p True s = (r, t)" and "\<not> is_absolute p"
    and tgt: "path_join (assets_path X) p = d @ u" "u \<noteq> []" "''..'' \<notin> set u"
    and ex: "parents_exist (sh_fs s) d" and ch: "sh_fs t q \<noteq> sh_fs s q"
  shows "\<exists>v. q = d @ v \<and> v \<noteq> [] \<and> ''..'' \<notin> set v"
proof -
  let ?p = "d @ u"
  have inp: "in_parents d ?p" using tgt(2) by (simp add: in_parents_def)
  obtain r1 f1 where m: "fs_mkdirs (parent ?p) (sh_fs s) = (r1, f1)" by (meson surj_pair)
  obtain r2 f2 where w: "fs_write ?p c f1 = (r2, f2)" by (meson surj_pair)
  have t: "sh_fs t = f1 \<or> sh_fs t = f2"
    using assms(1) m w unfolding put_asset_apply [OF assms(2)] Let_def tgt(1) by (auto split: sum.splits)
  have c1: "confined d (sh_fs s) f1" using movesD [OF confined_mkdirs [OF inp] m] .
  moreover have "confined d f1 f2" using movesD [OF confined_write [OF inp] w] .
  ultimately have "confined d (sh_fs s) f2" by (rule confined.frame_trans)
  with c1 t have "confined d (sh_fs s) (sh_fs t)" by auto
  with ex ch have "in_parents d q" by (auto simp: confined_def)
  then obtain v where v: "q = d @ v" "v \<noteq> []" using in_parents_iff by blast
  have "\<exists>n. q = take n ?p"
  proof (cases "f1 q = sh_fs s q")
    case False
    from fs_mkdirs_changes [OF m this] obtain n where "q = take n (parent ?p)" by blast
    then have "q = take (min n (length ?p - 1)) ?p" by (simp only: parent_def butlast_conv_take take_take)
    then show ?thesis by blast
  next
    case True
    then have "f2 q \<noteq> f1 q" using t ch by auto
    from fs_write_changes [OF w this] show ?thesis by (auto intro: exI [of _ "length ?p"])
  qed
  then obtain n where n: "q = take n ?p" by blast
  have "length q \<le> n" by (simp add: n)
  then have "length d \<le> n" using v by simp
  then have "v = take (n - length d) u" using v n by simp
  then have "''..'' \<notin> set v" using tgt(3) by (auto dest: in_set_takeD)
  with v show ?thesis by blast
qed

text \<open>What unlinking does to the disk: nothing, or one file that the pattern found is gone.\<close>

lemma unlink_avatar_cases:
  assumes "unlink_avatar X h s = (r, u)"
  obtains "u = s" "r = Inl OSError \<or> r = Inl FileNotFoundError"
  | "u = s" "r = Inr ()" "\<nexists>n. glob X (avatars_path X) (h @ ''*'') (sh_fs s) = [n]"
  | n where "glob X (avatars_path X) (h @ ''*'') (sh_fs s) = [n]" "r = Inr ()"
      "u = s\<lparr>sh_fs := (sh_fs s)(avatars_path X @ [n] := None)\<rparr>"
proof (cases "\<exists>n. glob X (avatars_path X) (h @ ''*'') (sh_fs s) = [n]")
  case True
  then obtain n where n: "glob X (avatars_path X) (h @ ''*'') (sh_fs s) = [n]" by blast
  show thesis
    using assms that(1) that(3) [OF n] n
    by (auto simp: unlink_avatar_def find_avatar_file_apply act_simps fs_unlink_def
        split: option.splits node.splits)
next
  case False
  then have "find_avatar_file X h s = (Inl FileNotFoundError, s)"
    by (auto simp: find_avatar_file_apply split: list.split)
  then show thesis using assms that(2) False by (simp add: unlink_avatar_def act_simps)
qed

lemma put_avatar_steps:
  assumes "put_avatar X i filename content s = (r, t)"
  obtains e where "r = Inl e" "t = s"
  | u where "unlink_avatar X i s = (Inr (), u)"
      "bnd (get_identity_by_id X i) (\<lambda>d. put_asset X content
         (avatar_asset (i_id d) (file_extension filename)) True) u = (r, t)"
proof (cases "x_guess_type X filename")
  case None
  then show thesis using assms that(1) by (auto simp: put_avatar_def act_simps)
next
  case (Some ty)
  show thesis
  proof (cases "starts_with ''image/'' ty")
    case False
    then show thesis using assms Some that(1) by (auto simp: put_avatar_def act_simps)
  next
    case True
    obtain q u where u: "unlink_avatar X i s = (q, u)" by (meson surj_pair)
    show thesis
    proof (cases q)
      case (Inl e)
      then have "r = Inl e" "t = u" using assms Some True u by (auto simp: put_avatar_def act_apply(4))
      moreover have "u = s" using u Inl by (cases rule: unlink_avatar_cases) simp_all
      ultimately show thesis using that(1) by simp
    next
      case (Inr x)
      then show thesis using assms Some True u that(2) by (simp add: put_avatar_def act_apply(4))
    qed
  qed
qed

text \<open>
  C31. An upload stays in the avatar directory: whatever name the uploaded file has, everything the
  request changes on disk lies strictly below that directory, and by a path without a double dot.
\<close>

theorem put_avatar_confined:
  assumes "put_avatar X i filename content s = (r, t)" and "plain_id i"
    and "parents_exist (sh_fs s) (avatars_path X)"
    and "''..'' \<notin> set (x_listdir X (avatars_path X) (sh_fs s))"
    and "sh_fs t q \<noteq> sh_fs s q"
  shows "\<exists>v. q = avatars_path X @ v \<and> v \<noteq> [] \<and> ''..'' \<notin> set v"
  using assms(1)
proof (cases rule: put_avatar_steps)
  case (1 e)
  then show ?thesis using assms(5) by simp
next
  case (2 u)
  have unlinked: "\<exists>v. q = avatars_path X @ v \<and> v \<noteq> [] \<and> ''..'' \<notin> set v" if "sh_fs u q \<noteq> sh_fs s q"
    using 2(1)
  proof (cases rule: unlink_avatar_cases)
    case (3 n)
    then have "n \<in> set (x_listdir X (avatars_path X) (sh_fs s))"
      by (metis (no_types) filter_is_subset glob_def list.set_intros(1) subsetD)
    then show ?thesis using that 3 assms(4) by (auto split: if_splits)
  qed (use that in simp_all)
  have ex: "parents_exist (sh_fs u) (avatars_path X)"
    using 2(1)
  proof (cases rule: unlink_avatar_cases)
    case (3 n)
    have "length (take m (avatars_path X)) < length (avatars_path X @ [n])" for m by simp
    then have "take m (avatars_path X) \<noteq> avatars_path X @ [n]" for m by (metis less_irrefl)
    then show ?thesis using 3 assms(3) by (simp add: parents_exist_def)
  qed (use assms(3) in simp_all)
  show ?thesis
  proof (cases "sh_fs u q = sh_fs s q")
    case False
    then show ?thesis by (rule unlinked)
  next
    case True
    then have ch: "sh_fs t q \<noteq> sh_fs u q" using assms(5) by simp
    from 2(2) obtain d where d: "put_asset X content (avatar_asset i (file_extension filename)) True u = (r, t)"
    proof (cases rule: with_identity_cases)
      case (1 e)
      then show ?thesis using ch by simp
    next
      case (2 d)
      then show ?thesis using that by simp
    qed
    have rel: "\<not> is_absolute (avatar_asset i (file_extension filename))"
      using assms(2) by (cases i) (auto simp: avatar_asset_def is_absolute_def plain_id_def starts_with_def)
    show ?thesis
      using put_asset_changes [OF d rel avatar_comps(1) [OF assms(2) file_extension_chars(1)]
          avatar_comps(3,2) [OF assms(2) file_extension_chars(1)] ex ch] .
  qed
qed

text \<open>An existing avatar directory with one file, and one identity.\<close>

definition avatar_ext :: "real ext" where
  "avatar_ext =
     sample_ext\<lparr>x_guess_type := (\<lambda>n. Some ''image/png''),
       x_listdir := (\<lambda>p fs. filter (\<lambda>n. fs (p @ [n]) \<noteq> None) [''abc.png'', ''abc.jpg''])\<rparr>"

definition avatar_shard :: "real shard" where
  "avatar_shard =
     sample_shard\<lparr>sh_identities := [sample_identity ''abc'' True],
       sh_fs := [[''r''] \<mapsto> Dir, [''r'', ''core''] \<mapsto> Dir, [''r'', ''core'', ''assets''] \<mapsto> Dir,
         [''r'', ''core'', ''assets'', ''avatars''] \<mapsto> Dir,
         [''r'', ''core'', ''assets'', ''avatars'', ''abc.png''] \<mapsto> File ''old'']\<rparr>"

lemma avatar_path [simp]: "avatars_path avatar_ext = [''r'', ''core'', ''assets'', ''avatars'']"
  by (simp add: avatars_path_def assets_path_def avatar_ext_def sample_ext_def sample_cfg_def)

lemma put_avatar_runs: "fst (put_avatar avatar_ext ''abc'' ''me.jpg'' ''new'' avatar_shard) = Inr ()"
  by code_simp

lemma put_avatar_confined_witness:
  "\<exists>v. [''r'', ''core'', ''assets'', ''avatars'', ''abc.jpg''] = avatars_path avatar_ext @ v \<and> v \<noteq> []"
proof -
  obtain r t where t: "put_avatar avatar_ext ''abc'' ''me.jpg'' ''new'' avatar_shard = (r, t)" by (meson surj_pair)
  have plain: "plain_id ''abc''" by (simp add: plain_id_def plain_pattern_def)
  have ex: "parents_exist (sh_fs avatar_shard) (avatars_path avatar_ext)"
    by (simp add: parents_exist_def avatar_shard_def numeral_eq_Suc le_Suc_eq all_conj_distrib)
  have dots: "''..'' \<notin> set (x_listdir avatar_ext (avatars_path avatar_ext) (sh_fs avatar_shard))"
    by (simp add: avatar_ext_def)
  let ?q = "[''r'', ''core'', ''assets'', ''avatars'', ''abc.jpg'']"
  have "sh_fs (snd (put_avatar avatar_ext ''abc'' ''me.jpg'' ''new'' avatar_shard)) ?q \<noteq> sh_fs avatar_shard ?q"
    by code_simp
  then have "sh_fs t ?q \<noteq> sh_fs avatar_shard ?q" by (simp add: t)
  from put_avatar_confined [OF t plain ex dots this] show ?thesis by auto
qed

section \<open>Upload and download\<close>

definition lists_dir :: "'e ext \<Rightarrow> path \<Rightarrow> fs \<Rightarrow> bool" where
  "lists_dir X p fs \<longleftrightarrow>
     distinct (x_listdir X p fs) \<and> set (x_listdir X p fs) = {n. fs (p @ [n]) \<noteq> None}"

lemma glob_prefix:
  assumes "lists_dir X p fs" and "plain_pattern i"
  shows "set (glob X p (i @ ''*'') fs) = {n. fs (p @ [n]) \<noteq> None \<and> starts_with i n}"
    and "distinct (glob X p (i @ ''*'') fs)"
  using assms by (auto simp: lists_dir_def glob_def fnmatch_prefix)

lemma glob_single:
  assumes "lists_dir X p fs" and "plain_pattern i"
    and "{n. fs (p @ [n]) \<noteq> None \<and> starts_with i n} = {m}"
  shows "glob X p (i @ ''*'') fs = [m]"
proof -
  let ?xs = "glob X p (i @ ''*'') fs"
  have xs: "set ?xs = {m}" "distinct ?xs" using glob_prefix [OF assms(1,2)] assms(3) by simp_all
  then have "length ?xs = 1" using distinct_card [of ?xs] by simp
  then obtain a where "?xs = [a]" by (auto simp: length_Suc_conv)
  with xs(1) show ?thesis by simp
qed

lemma put_asset_stores:
  assumes "put_asset X c p True s = (Inr (), t)" and "\<not> is_absolute p"
    and "path_join (assets_path X) p = d @ [n]"
  shows "sh_fs t (d @ [n]) = Some (File c) \<and> (\<forall>m. m \<noteq> n \<longrightarrow> sh_fs t (d @ [m]) = sh_fs s (d @ [m]))
    \<and> sh_identities t = sh_identities s"
proof -
  obtain q fs where m: "fs_mkdirs d (sh_fs s) = (q, fs)" by (meson surj_pair)
  have t: "fs_write (d @ [n]) c fs = (Inr (), sh_fs t)" "sh_identities t = sh_identities s"
    using assms(1) m unfolding put_asset_apply [OF assms(2)] Let_def assms(3)
    by (auto simp: parent_def split: sum.splits prod.splits)
  have "fs (d @ [k]) = sh_fs s (d @ [k])" for k
  proof (rule ccontr)
    assume "fs (d @ [k]) \<noteq> sh_fs s (d @ [k])"
    from fs_mkdirs_changes [OF m this] obtain j where "d @ [k] = take j d" by blast
    then have "length (d @ [k]) \<le> length d" by (metis length_take min.cobounded1)
    then show False by simp
  qed
  moreover have "sh_fs t = fs(d @ [n] \<mapsto> File c)"
    using t(1) by (auto simp: fs_write_def split: if_splits)
  ultimately show ?thesis using t(2) by simp
qed

lemma unlink_avatar_none_left:
  assumes "unlink_avatar X i s = (Inr (), u)" and "lists_dir X (avatars_path X) (sh_fs s)" and "plain_pattern i"
    and "length (glob X (avatars_path X) (i @ ''*'') (sh_fs s)) \<le> 1"
  shows "{n. sh_fs u (avatars_path X @ [n]) \<noteq> None \<and> starts_with i n} = {}"
  using assms(1)
proof (cases rule: unlink_avatar_cases)
  case 1
  then show ?thesis by simp
next
  case 2
  then have "glob X (avatars_path X) (i @ ''*'') (sh_fs s) = []"
    using assms(4) by (cases "glob X (avatars_path X) (i @ ''*'') (sh_fs s)") auto
  then show ?thesis using glob_prefix(1) [OF assms(2,3)] 2 by simp
next
  case (3 n)
  then have "{m. sh_fs s (avatars_path X @ [m]) \<noteq> None \<and> starts_with i m} = {n}"
    using glob_prefix(1) [OF assms(2,3)] by simp
  then show ?thesis using 3 by auto
qed

text \<open>
  An uploaded avatar is the one that is shown: after a request to store an avatar succeeded, with
  at most one avatar of that identity there before, the identity's avatar is the uploaded content, and
  its media type is the one of the name it is stored under, whatever extension the old file had.
\<close>

theorem avatar_roundtrip:
  assumes "put_avatar X i filename content s = (Inr (), t)"
    and "plain_id i" and "CHR ''/'' \<notin> set filename"
    and "lists_dir X (avatars_path X) (sh_fs s)" and "lists_dir X (avatars_path X) (sh_fs t)"
    and "length (glob X (avatars_path X) (i @ ''*'') (sh_fs s)) \<le> 1"
  shows "get_avatar_by_identity X i t =
    (Inr (content, x_guess_type X (path_str (avatars_path X @ [i @ ''.'' @ file_extension filename]))), t)"
  using assms(1)
proof (cases rule: put_avatar_steps)
  case (1 e)
  then show ?thesis by simp
next
  case (2 u)
  let ?n = "i @ ''.'' @ file_extension filename" and ?d = "avatars_path X"
  have pp: "plain_pattern i" using assms(2) by (simp add: plain_id_def)
  have sl: "CHR ''/'' \<notin> set ?n" "?n \<noteq> [] \<and> ?n \<noteq> ''.''"
    using assms(2,3) file_extension_chars(2) [of filename] by (cases i; auto simp: plain_id_def)+
  have "path_comps ?n = [?n]" unfolding path_comps_def split_on_single [OF sl(1)] using sl(2) by simp
  then have tgt: "path_join (assets_path X) (avatar_asset i (file_extension filename)) = ?d @ [?n]"
    by (simp only: avatar_comps(1) [OF assms(2) file_extension_chars(1)])
  have rel: "\<not> is_absolute (avatar_asset i (file_extension filename))"
    using assms(2) by (cases i) (auto simp: avatar_asset_def is_absolute_def plain_id_def starts_with_def)
  from 2(2) obtain d where d: "get_identity_by_id X i u = (Inr d, u)" "i_id d = i"
      "put_asset X content (avatar_asset i (file_extension filename)) True u = (Inr (), t)"
    by (cases rule: with_identity_cases) auto
  note stored = put_asset_stores [OF d(3) rel tgt]
  have id: "get_identity_by_id X i t = (Inr d, t)"
    using d(1) stored by (auto simp: get_identity_by_id_apply split: option.splits)
  have "{n. sh_fs t (?d @ [n]) \<noteq> None \<and> starts_with i n} = {?n}"
  proof (rule set_eqI)
    fix n
    have "sh_fs u (?d @ [n]) = None \<or> \<not> starts_with i n"
      using unlink_avatar_none_left [OF 2(1) assms(4) pp assms(6)] by blast
    then show "n \<in> {n. sh_fs t (?d @ [n]) \<noteq> None \<and> starts_with i n} \<longleftrightarrow> n \<in> {?n}"
      using stored by (cases "n = ?n") simp_all
  qed
  then have "glob X ?d (i @ ''*'') (sh_fs t) = [?n]" by (rule glob_single [OF assms(5) pp])
  then have "find_avatar_file X i t = (Inr (?d @ [?n]), t)" by (simp add: find_avatar_file_apply)
  then show ?thesis
    using id d(2) stored
    by (simp add: get_avatar_by_identity_def send_avatar_def act_apply(1,3,5,7,8) fs_read_def)
qed

lemma avatar_lists_dir:
  assumes "\<And>n. fs (p @ [n]) \<noteq> None \<Longrightarrow> n = ''abc.png'' \<or> n = ''abc.jpg''"
  shows "lists_dir avatar_ext p fs"
proof -
  have "set (filter (\<lambda>n. fs (p @ [n]) \<noteq> None) [''abc.png'', ''abc.jpg'']) = {n. fs (p @ [n]) \<noteq> None}"
  proof (rule set_eqI)
    fix n
    show "n \<in> set (filter (\<lambda>n. fs (p @ [n]) \<noteq> None) [''abc.png'', ''abc.jpg'']) \<longleftrightarrow> n \<in> {n. fs (p @ [n]) \<noteq> None}"
      using assms [of n] by (simp only: set_filter) auto
  qed
  then show ?thesis by (simp only: lists_dir_def avatar_ext_def) simp
qed

lemma avatar_roundtrip_witness:
  "\<exists>t. get_avatar_by_identity avatar_ext ''abc'' t = (Inr (''new'', Some ''image/png''), t)"
proof -
  obtain t where t: "put_avatar avatar_ext ''abc'' ''me.jpg'' ''new'' avatar_shard = (Inr (), t)"
    using put_avatar_runs by (metis prod.collapse)
  have plain: "plain_id ''abc''" by (simp add: plain_id_def plain_pattern_def)
  have s: "lists_dir avatar_ext (avatars_path avatar_ext) (sh_fs avatar_shard)"
    by (rule avatar_lists_dir) (simp add: avatar_shard_def split: if_splits)
  have g: "glob avatar_ext (avatars_path avatar_ext) (''abc'' @ ''*'') (sh_fs avatar_shard) = [''abc.png'']"
    by code_simp
  have tgt: "path_join (assets_path avatar_ext) (avatar_asset ''abc'' (file_extension ''me.jpg''))
      = [''r'', ''core'', ''assets'', ''avatars'', ''abc.jpg'']" "\<not> is_absolute (avatar_asset ''abc'' (file_extension ''me.jpg''))"
    by code_simp+
  have ty: "x_guess_type avatar_ext ''me.jpg'' = Some ''image/png''" "starts_with ''image/'' ''image/png''"
    by (simp_all add: avatar_ext_def starts_with_def)
  have "get_identity_by_id avatar_ext ''abc'' (avatar_shard\<lparr>sh_fs := fs\<rparr>) = (identity_of_row avatar_ext (sample_identity ''abc'' True), avatar_shard\<lparr>sh_fs := fs\<rparr>)" for fs
    by (simp add: get_identity_by_id_apply avatar_shard_def tbl_find_def sample_identity_def)
  then have fs: "sh_fs t = (sh_fs avatar_shard)([''r'', ''core'', ''assets'', ''avatars'', ''abc.png''] := None,
      [''r'', ''core'', ''assets'', ''avatars'', ''abc.jpg''] \<mapsto> File ''new'')"
    using t ty g tgt
    by (auto simp: put_avatar_def unlink_avatar_def find_avatar_file_apply act_simps put_asset_apply Let_def
        identity_of_row_def validate_email_def sample_identity_def avatar_shard_def fs_unlink_def fs_mkdirs_def
        parent_def fs_write_def split: prod.splits)
  have l: "lists_dir avatar_ext (avatars_path avatar_ext) (sh_fs t)"
    by (rule avatar_lists_dir) (simp add: fs avatar_shard_def split: if_splits)
  have "length (glob avatar_ext (avatars_path avatar_ext) (''abc'' @ ''*'') (sh_fs avatar_shard)) \<le> 1" by code_simp
  from avatar_roundtrip [OF t plain _ s l this] show ?thesis by (auto simp: avatar_ext_def)
qed

text \<open>
  An upload for an identifier that no identity has is refused with 404, but only after the one file
  whose name begins with that identifier was deleted: a prefix of another identity's id deletes its avatar.
\<close>

theorem put_avatar_deletes_unchecked:
  assumes "x_guess_type X filename = Some ty" and "starts_with ''image/'' ty"
    and "tbl_find id_id i (sh_identities s) = None"
    and "glob X (avatars_path X) (i @ ''*'') (sh_fs s) = [n]"
    and "sh_fs s (avatars_path X @ [n]) = Some (File old)"
  shows "put_avatar X i filename content s =
    (Inl (HTTPException 404), s\<lparr>sh_fs := (sh_fs s)(avatars_path X @ [n] := None)\<rparr>)"
  using assms
  by (simp add: put_avatar_def unlink_avatar_def act_simps find_avatar_file_apply fs_unlink_def
      get_identity_by_id_apply)

lemma put_avatar_deletes_unchecked_witness:
  "fst (put_avatar avatar_ext ''ab'' ''me.jpg'' ''new'' avatar_shard) = Inl (HTTPException 404)"
proof -
  have g: "glob avatar_ext (avatars_path avatar_ext) (''ab'' @ ''*'') (sh_fs avatar_shard) = [''abc.png'']"
    by code_simp
  have "x_guess_type avatar_ext ''me.jpg'' = Some ''image/png''" "starts_with ''image/'' ''image/png''"
      "tbl_find id_id ''ab'' (sh_identities avatar_shard) = None"
    by (simp_all add: avatar_ext_def starts_with_def avatar_shard_def tbl_find_def sample_identity_def)
  moreover have "sh_fs avatar_shard (avatars_path avatar_ext @ [''abc.png'']) = Some (File ''old'')"
    by (simp add: avatar_shard_def)
  ultimately show ?thesis using put_avatar_deletes_unchecked [OF _ _ _ g] by simp
qed

end
