(* ===== verification/Lru_Cache.thy ===== *)
theory Lru_Cache
  imports State
begin

text \<open>
  \<open>functools.lru_cache\<close> around a function of one argument: the last \<open>n\<close> results by argument, the most
  recently used one first; an exception is not kept.  The locale \<open>cached\<close> states what a cache needs of the
  place it is kept in and of the function; its lemmas say what a caller may rely on: the result is one
  that the function returned for this argument, at this or an earlier time.
\<close>

definition lru_call ::
    "nat \<Rightarrow> ('s \<Rightarrow> ('k \<times> 'v) list) \<Rightarrow> ((('k \<times> 'v) list \<Rightarrow> ('k \<times> 'v) list) \<Rightarrow> 's \<Rightarrow> 's) \<Rightarrow>
       ('k \<Rightarrow> ('s, 'v) act) \<Rightarrow> 'k \<Rightarrow> ('s, 'v) act" where
  "lru_call n get put f k =
     bnd (gets get) (\<lambda>c.
     case map_of c k of
       Some v \<Rightarrow> seq (modify (put (\<lambda>_. (k, v) # filter (\<lambda>p. fst p \<noteq> k) c))) (ret v)
     | None \<Rightarrow>
         bnd (f k) (\<lambda>v.
         seq (modify (put (\<lambda>d. take n ((k, v) # filter (\<lambda>p. fst p \<noteq> k) d)))) (ret v)))"

locale cached =
  fixes n :: nat
    and get :: "'s \<Rightarrow> ('k \<times> 'v) list"
    and put :: "(('k \<times> 'v) list \<Rightarrow> ('k \<times> 'v) list) \<Rightarrow> 's \<Rightarrow> 's"
    and f :: "'k \<Rightarrow> ('s, 'v) act"
  assumes get_put: "get (put g s) = g (get s)"
    and f_keeps: "moves (\<lambda>s t. get t = get s) (f k)"
    and room: "0 < n"
begin

lemma hit: "map_of (get s) k = Some v \<Longrightarrow> fst (lru_call n get put f k s) = Inr v"
  by (simp add: lru_call_def act_simps)

lemma miss: "map_of (get s) k = None \<Longrightarrow> fst (lru_call n get put f k s) = fst (f k s)"
  by (simp add: lru_call_def act_simps split: prod.split sum.split)

lemma entries:
  assumes "lru_call n get put f k s = (r, t)" and "(j, v) \<in> set (get t)"
  shows "(j, v) \<in> set (get s) \<or> (j = k \<and> fst (f k s) = Inr v)"
proof (cases "map_of (get s) k")
  case None
  obtain q u where u: "f k s = (q, u)" by (meson surj_pair)
  then have "get u = get s" using f_keeps by (auto dest: movesD)
  then show ?thesis
    using assms None u
    by (cases q) (auto simp: lru_call_def act_simps get_put dest!: in_set_takeD)
next
  case (Some w)
  then show ?thesis
    using assms map_of_SomeD [OF Some] by (auto simp: lru_call_def act_simps get_put)
qed

lemma stored:
  assumes "lru_call n get put f k s = (Inr v, t)"
  shows "map_of (get t) k = Some v"
proof (cases "map_of (get s) k")
  case None
  then show ?thesis
    using assms room
    by (cases n) (auto simp: lru_call_def act_simps get_put split: prod.splits sum.splits)
next
  case (Some w)
  then show ?thesis using assms by (auto simp: lru_call_def act_simps get_put)
qed

lemma bounded:
  assumes "lru_call n get put f k s = (r, t)" and "length (get s) \<le> n" and "distinct (map fst (get s))"
  shows "length (get t) \<le> n \<and> distinct (map fst (get t))"
proof (cases "map_of (get s) k")
  case None
  obtain q u where u: "f k s = (q, u)" by (meson surj_pair)
  then have "get u = get s" using f_keeps by (auto dest: movesD)
  then show ?thesis
    using assms None u
    by (cases q)
      (auto simp: lru_call_def act_simps get_put take_map [symmetric] distinct_map_filter
        intro!: distinct_take simp del: take_Cons')
next
  case (Some w)
  then have "(k, w) \<in> set (get s)" by (rule map_of_SomeD)
  then have "length (filter (\<lambda>p. fst p \<noteq> k) (get s)) < length (get s)"
    by (rule length_filter_less) simp
  then show ?thesis
    using assms Some by (auto simp: lru_call_def act_simps get_put distinct_map_filter)
qed

end

end
