(* ===== verification/Web_Internal.thy ===== *)
theory Web_Internal
  imports Lru_Cache App_Tools
begin

text \<open>
  \<open>web/internal\<close>: calls of apps to the controller (\<open>call_backend.py\<close>) and to other shards
  (\<open>call_peer.py\<close>), and the page the proxy shows instead of an app that does not answer
  (\<open>app_error.py\<close>).  The Docker client is part of the outside world: the containers that run with their
  addresses in the network \<open>portal\<close>, if they are in it, and the status of a container.
\<close>

section \<open>Forwarding a request\<close>

text \<open>\<open>signed_request(method, url, data=..., params=..., headers=...)\<close>\<close>

definition signed_forward ::
    "'e ext \<Rightarrow> string \<Rightarrow> string \<Rightarrow> string \<Rightarrow> dict \<Rightarrow> dict \<Rightarrow> ('e shard, http_response) act" where
  "signed_forward X verb url body params headers =
     bnd (get_signature_auth X) (\<lambda>(key_id, key).
       world_res (x_signed_forward X verb url body params headers key_id key))"

section \<open>call_backend.py\<close>

text \<open>\<open>dict(request.query_params)\<close>: the last value of a parameter counts.\<close>

definition query_dict :: "(string \<times> string) list \<Rightarrow> dict" where
  "query_dict qs = fold (\<lambda>(k, v) d. dict_set d k (JStr v)) qs []"

definition call_backend ::
    "'e ext \<Rightarrow> string \<Rightarrow> string \<Rightarrow> (string \<times> string) list \<Rightarrow> http_request \<Rightarrow> ('e shard, http_response) act" where
  "call_backend X rest verb query request =
     (let url = controller_base_url (cfg X) @ ''/'' @ rest;
          headers = (case map_of (rq_headers request) ''content-type'' of
                       Some (c # cs) \<Rightarrow> [(''content-type'', JStr (c # cs))]
                     | _ \<Rightarrow> [])
      in signed_forward X verb url (rq_body request) (query_dict query) headers)"

section \<open>call_peer.py\<close>

text \<open>\<open>c.attrs["NetworkSettings"]["Networks"]["portal"]["IPAddress"]\<close> of one container after the other\<close>

fun find_container :: "(string \<times> string option) list \<Rightarrow> string \<Rightarrow> string result" where
  "find_container [] ip = Inl RuntimeError"
| "find_container ((c, None) # cs) ip = Inl (KeyError ''portal'')"
| "find_container ((c, Some a) # cs) ip = (if a = ip then Inr c else find_container cs ip)"

text \<open>
  \<open>x_container_ips\<close> is \<open>networks.get("portal")\<close> and then \<open>containers.list()\<close> of the Docker client, either
  of which may raise.
\<close>

definition container_at :: "'e ext \<Rightarrow> 'e \<Rightarrow> string \<Rightarrow> string result" where
  "container_at X e ip = bind_res (x_container_ips X e) (\<lambda>containers. find_container containers ip)"

definition look_up_ip_address :: "'e ext \<Rightarrow> string \<Rightarrow> ('e shard, string) act" where
  "look_up_ip_address X ip = bnd (gets (\<lambda>s. container_at X (sh_env s) ip)) lift_res"

definition get_app_for_ip_address :: "'e ext \<Rightarrow> string \<Rightarrow> ('e shard, string) act" where
  "get_app_for_ip_address X = lru_call 128 sh_ip_cache sh_ip_cache_update (look_up_ip_address X)"

definition call_peer ::
    "'e ext \<Rightarrow> string \<Rightarrow> string \<Rightarrow> string \<Rightarrow> string \<Rightarrow> string \<Rightarrow> ('e shard, http_response) act" where
  "call_peer X source_host i rest verb body =
     bnd (get_app_for_ip_address X source_host) (\<lambda>app_name.
     signed_forward X verb (''https://'' @ app_name @ ''.'' @ i @ ''.freeshard.cloud/'' @ rest) body [] [])"

section \<open>app_error.py\<close>

record splash_behaviour =
  sp_app_name :: string
  sp_status_code :: int
  sp_container_status :: string
  sp_icon_data :: string
  sp_display_status :: string
  sp_do_reload :: bool

definition get_container_status :: "'e ext \<Rightarrow> string \<Rightarrow> ('e shard, string) act" where
  "get_container_status X app_name =
     gets (\<lambda>s. case x_container_status X app_name (sh_env s) of None \<Rightarrow> ''unknown'' | Some st \<Rightarrow> st)"

definition get_app_name :: "http_request \<Rightarrow> string result" where
  "get_app_name request =
     (case map_of (rq_headers request) ''host'' of
        None \<Rightarrow> Inl AttributeError
      | Some h \<Rightarrow> Inr (hd (split_on CHR ''.'' h)))"

definition get_template_splash :: "'e ext \<Rightarrow> ('e shard, string) act" where
  "get_template_splash X =
     bnd (gets sh_splash) (\<lambda>c.
     case c of
       Some t \<Rightarrow> ret t
     | None \<Rightarrow>
         bnd (world_res (x_host_read X (x_cwd X @ [''data'', ''splash.html'']))) (\<lambda>t.
         seq (modify (\<lambda>s. s\<lparr>sh_splash := Some t\<rparr>)) (ret t)))"

text \<open>\<open>icon_file.suffix[1:]\<close>\<close>

definition suffix_ext :: "string \<Rightarrow> string" where
  "suffix_ext name =
     (let parts = split_on CHR ''.'' name in
      if length parts \<le> 1 \<or> last parts = [] \<or> (length parts = 2 \<and> hd parts = []) then [] else last parts)"

definition load_data_url :: "'e ext \<Rightarrow> string \<Rightarrow> string \<Rightarrow> ('e shard, string) act" where
  "load_data_url X placeholder app_name =
     try_else (app_metadata X app_name)
       (\<lambda>e. case e of MetadataNotFound _ \<Rightarrow> ret placeholder | _ \<Rightarrow> raise e)
       (\<lambda>app_meta.
          let icon_file = path_join (app_dir X app_name) (am_icon app_meta) in
          bnd (bnd (gets sh_fs) (\<lambda>fs. lift_res (fs_read fs icon_file))) (\<lambda>content.
          let image_type = suffix_ext (last icon_file) in
          ret (''data:image/'' @ (if image_type = ''svg'' then ''svg+xml'' else image_type)
               @ '';base64,'' @ x_base64 X content)))"

definition data_url :: "'e ext \<Rightarrow> string \<Rightarrow> string \<Rightarrow> ('e shard, string) act" where
  "data_url X placeholder = lru_call 16 sh_icon_cache sh_icon_cache_update (load_data_url X placeholder)"

text \<open>The display status and whether the page reloads, by the assignments in their order.\<close>

definition display_low :: "bool \<Rightarrow> string \<times> bool \<Rightarrow> string \<times> bool" where
  "display_low low d = (if low then (''Low Disk Space'', False) else d)"

definition display_size :: "bool \<Rightarrow> vm_size \<Rightarrow> string \<times> bool \<Rightarrow> string \<times> bool" where
  "display_size compatible needed d =
     (if compatible then d else (''VM too small, need at least '' @ upper (vm_value needed), False))"

definition display_status :: "int \<Rightarrow> string \<Rightarrow> string \<times> bool \<Rightarrow> string \<times> bool" where
  "display_status code container d =
     (if code = 401 then (''Access Denied'', False)
      else if code = 500 then (''Error'', snd d)
      else if container = ''running'' then (''Starting...'', snd d)
      else if container = ''unknown'' then (''Initializing...'', snd d)
      else d)"

definition get_splash_behaviour :: "'e ext \<Rightarrow> string \<Rightarrow> int \<Rightarrow> http_request \<Rightarrow> ('e shard, splash_behaviour) act" where
  "get_splash_behaviour X placeholder code request =
     bnd (lift_res (get_app_name request)) (\<lambda>app_name.
     bnd (app_metadata X app_name) (\<lambda>app_meta.
     bnd (get_container_status X app_name) (\<lambda>container_status.
     bnd (data_url X placeholder app_name) (\<lambda>icon_data.
     bnd (gets (\<lambda>s. disk_space_low (sh_disk_usage s))) (\<lambda>low.
     bnd (size_is_compatible (am_minimum_portal_size app_meta)) (\<lambda>compatible.
     let d = display_status code container_status
               (display_size compatible (am_minimum_portal_size app_meta)
                 (display_low low (''Unknown Status...'', True))) in
     ret \<lparr>sp_app_name = app_name, sp_status_code = code, sp_container_status = container_status,
          sp_icon_data = icon_data, sp_display_status = fst d, sp_do_reload = snd d\<rparr>))))))"

definition splash_dump :: "splash_behaviour \<Rightarrow> dict" where
  "splash_dump b =
     [(''app_name'', JStr (sp_app_name b)), (''status_code'', JInt (sp_status_code b)),
      (''container_status'', JStr (sp_container_status b)), (''icon_data'', JStr (sp_icon_data b)),
      (''display_status'', JStr (sp_display_status b)), (''do_reload'', JBool (sp_do_reload b))]"

text \<open>The status and the content of the answer\<close>

definition app_error :: "'e ext \<Rightarrow> string \<Rightarrow> int \<Rightarrow> http_request \<Rightarrow> ('e shard, int \<times> string) act" where
  "app_error X placeholder status request =
     bnd (get_splash_behaviour X placeholder status request) (\<lambda>behaviour.
     bnd (get_template_splash X) (\<lambda>template.
     bnd (lift_res (x_template X template (splash_dump behaviour))) (\<lambda>content.
     ret (status, content))))"

section \<open>The caches\<close>

interpretation ip_cache: cached 128 sh_ip_cache sh_ip_cache_update "look_up_ip_address X" for X
  by unfold_locales (simp_all add: moves_def look_up_ip_address_def act_simps)

lemma load_data_url_state: "snd (load_data_url X placeholder n s) = s"
proof -
  have "snd (app_metadata X n s) = s" by (simp add: app_metadata_def act_simps)
  then show ?thesis
    by (cases "app_metadata X n s")
      (auto simp: load_data_url_def act_simps Let_def split: sum.split exn.split)
qed

interpretation icon_cache: cached 16 sh_icon_cache sh_icon_cache_update "load_data_url X placeholder" for X placeholder
  by unfold_locales (simp_all add: moves_def load_data_url_state)

lemma icon_cache_bounded:
  assumes "data_url X placeholder n s = (r, t)" and "length (sh_icon_cache s) \<le> 16"
    and "distinct (map fst (sh_icon_cache s))"
  shows "length (sh_icon_cache t) \<le> 16"
  using icon_cache.bounded [OF assms(1) [unfolded data_url_def] assms(2,3)] by simp

lemma query_dict_last: "map_of (query_dict qs) k = map_option JStr (map_of (rev qs) k)"
proof (induction qs rule: rev_induct)
  case Nil
  show ?case by (simp add: query_dict_def)
next
  case (snoc q qs)
  then show ?case by (cases q) (simp add: query_dict_def map_of_dict_set)
qed

section \<open>Calls to other shards\<close>

text \<open>Each kept address was the address of the kept container at one of the given times.\<close>

definition ip_cache_sound :: "'e ext \<Rightarrow> 'e set \<Rightarrow> 'e shard \<Rightarrow> bool" where
  "ip_cache_sound X H s \<longleftrightarrow>
     (\<forall>(ip, app) \<in> set (sh_ip_cache s). \<exists>e \<in> H. container_at X e ip = Inr app)"

lemma look_up_result: "fst (look_up_ip_address X ip s) = container_at X (sh_env s) ip"
  by (simp add: look_up_ip_address_def act_simps)

lemma get_app_env: "get_app_for_ip_address X ip s = (r, t) \<Longrightarrow> sh_env t = sh_env s \<and> sh_identities t = sh_identities s"
  by (auto simp: get_app_for_ip_address_def lru_call_def look_up_ip_address_def act_simps
      split: option.splits sum.splits)

lemma get_app_sound:
  assumes "get_app_for_ip_address X ip s = (r, t)" and "ip_cache_sound X H s"
  shows "ip_cache_sound X (insert (sh_env s) H) t"
proof -
  have "\<exists>e \<in> insert (sh_env s) H. container_at X e j = Inr app"
    if "(j, app) \<in> set (sh_ip_cache t)" for j app
    using ip_cache.entries [OF assms(1) [unfolded get_app_for_ip_address_def] that] assms(2)
    by (auto simp: ip_cache_sound_def look_up_result)
  then show ?thesis by (auto simp: ip_cache_sound_def)
qed

lemma signed_forward_keeps_ip_cache: "moves (keeps sh_ip_cache) (signed_forward X v u b p h)"
  unfolding signed_forward_def get_signature_auth_def get_default_identity_def
  by (intro keeps.moves_rules moves_keeps_world_res moves_keeps_zoom)
    (auto simp: identity_of_def keeps.moves_rules moves_def keeps_def act_simps split: option.split)

text \<open>The answer to an address: the kept one, if there is one, or the container that has it now.\<close>

lemma get_app_answer:
  "fst (get_app_for_ip_address X ip s) =
     (case map_of (sh_ip_cache s) ip of Some app \<Rightarrow> Inr app | None \<Rightarrow> container_at X (sh_env s) ip)"
  unfolding get_app_for_ip_address_def
  by (cases "map_of (sh_ip_cache s) ip") (simp_all add: ip_cache.hit ip_cache.miss look_up_result)

text \<open>
  C30. Under which app's name a call to another shard goes out: when no answer is kept for the caller's
  address, under the name of the container that has this address at this moment; when one is kept, under
  the kept name, which is the one the address had at some earlier call and need not be the caller's any
  more.  In the request, only the path, the method and the body are of the caller's choice.
\<close>

theorem call_peer_kept_or_current_name:
  assumes "ip_cache_sound X H s" and "call_peer X ip i rest verb body s = (r, t)"
  shows "ip_cache_sound X (insert (sh_env s) H) t
    \<and> (\<forall>resp. r = Inr resp \<longrightarrow>
        (\<exists>app u.
          (case map_of (sh_ip_cache s) ip of
             None \<Rightarrow> container_at X (sh_env s) ip = Inr app
           | Some kept \<Rightarrow> app = kept \<and> (\<exists>e \<in> H. container_at X e ip = Inr kept))
          \<and> sh_env u = sh_env s \<and> sh_identities u = sh_identities s
          \<and> signed_forward X verb (''https://'' @ app @ ''.'' @ i @ ''.freeshard.cloud/'' @ rest) body [] [] u
              = (Inr resp, t)))"
proof -
  obtain q u where u: "get_app_for_ip_address X ip s = (q, u)" by (meson surj_pair)
  have sound: "ip_cache_sound X (insert (sh_env s) H) u" by (rule get_app_sound [OF u assms(1)])
  show ?thesis
  proof (cases q)
    case (Inl e)
    then show ?thesis using assms(2) u sound by (auto simp: call_peer_def act_apply(3))
  next
    case (Inr app)
    then have run: "signed_forward X verb (''https://'' @ app @ ''.'' @ i @ ''.freeshard.cloud/'' @ rest) body [] [] u = (r, t)"
      using assms(2) u by (simp add: call_peer_def act_apply(3))
    have "ip_cache_sound X (insert (sh_env s) H) t"
      using sound moves_keepsD [OF signed_forward_keeps_ip_cache run] by (simp add: ip_cache_sound_def)
    moreover have "case map_of (sh_ip_cache s) ip of None \<Rightarrow> container_at X (sh_env s) ip = Inr app
        | Some kept \<Rightarrow> app = kept \<and> (\<exists>e \<in> H. container_at X e ip = Inr kept)"
      using get_app_answer [of X ip s] u Inr assms(1)
      by (fastforce simp: ip_cache_sound_def dest!: map_of_SomeD split: option.splits)
    ultimately show ?thesis using run get_app_env [OF u] by blast
  qed
qed

text \<open>
  The address of an app that has left is kept: after another app got it, its calls still go out in
  the name of the first one.
\<close>

lemma call_peer_stale:
  assumes "map_of (sh_ip_cache s) ip = Some app"
  shows "\<exists>u. sh_env u = sh_env s \<and> call_peer X ip i rest verb body s
    = signed_forward X verb (''https://'' @ app @ ''.'' @ i @ ''.freeshard.cloud/'' @ rest) body [] [] u"
proof -
  obtain q u where u: "get_app_for_ip_address X ip s = (q, u)" by (meson surj_pair)
  have "fst (get_app_for_ip_address X ip s) = Inr app"
    using assms unfolding get_app_for_ip_address_def by (rule ip_cache.hit)
  then show ?thesis
    using u get_app_env [OF u] by (intro exI [of _ u]) (simp add: call_peer_def act_apply(3))
qed

definition peer_call_ext :: "real ext" where
  "peer_call_ext =
     sample_ext\<lparr>x_container_ips := (\<lambda>e. if e < 1 then Inr [(''a'', Some ''10'')] else Inr [(''b'', Some ''10'')])\<rparr>"

definition peer_call_shard :: "real shard" where
  "peer_call_shard =
     sample_shard\<lparr>sh_identities := [sample_identity ''abcdef'' True], sh_ip_cache := [(''10'', ''a'')], sh_env := 1\<rparr>"

lemma peer_call_runs:
  "fst (call_peer peer_call_ext ''10'' ''i'' ''r'' ''GET'' [] peer_call_shard)
     = Inr \<lparr>status_code = 404, body_text = [], body_json = None\<rparr>"
  by code_simp

lemma call_peer_kept_or_current_name_witness:
  "\<exists>u t. call_peer peer_call_ext ''10'' ''i'' ''r'' ''GET'' [] peer_call_shard
       = (Inr \<lparr>status_code = 404, body_text = [], body_json = None\<rparr>, t)
     \<and> signed_forward peer_call_ext ''GET'' ''https://a.i.freeshard.cloud/r'' [] [] [] u
       = (Inr \<lparr>status_code = 404, body_text = [], body_json = None\<rparr>, t)
     \<and> container_at peer_call_ext (sh_env peer_call_shard) ''10'' = Inr ''b''"
proof -
  have sound: "ip_cache_sound peer_call_ext {0} peer_call_shard"
    by (simp add: ip_cache_sound_def peer_call_shard_def peer_call_ext_def container_at_def)
  obtain t where t: "call_peer peer_call_ext ''10'' ''i'' ''r'' ''GET'' [] peer_call_shard
      = (Inr \<lparr>status_code = 404, body_text = [], body_json = None\<rparr>, t)"
    using peer_call_runs by (metis prod.collapse)
  have "map_of (sh_ip_cache peer_call_shard) ''10'' = Some ''a''" by (simp add: peer_call_shard_def)
  moreover have "container_at peer_call_ext (sh_env peer_call_shard) ''10'' = Inr ''b''"
    by (simp add: peer_call_ext_def peer_call_shard_def container_at_def)
  ultimately show ?thesis
    using call_peer_kept_or_current_name [OF sound t] t by auto
qed

section \<open>The error page\<close>

lemma size_is_compatible_kv:
  "size_is_compatible z s = (fst (size_is_compatible z s), s)"
  "sh_kv s = sh_kv u \<Longrightarrow> fst (size_is_compatible z s) = fst (size_is_compatible z u)"
  by (auto simp: size_is_compatible_def get_profile_def act_simps split: option.splits sum.splits exn.splits if_splits)

text \<open>
  What the error page shows: it is made for the app whose name is the first label of the host, which
  must have metadata; the status of the answer decides first, then the container, and only an app whose
  container is neither running nor unknown is told that the machine is too small or the disk full; the
  page reloads unless one of these or a denied access stands in the way.
\<close>

theorem error_page_behaviour:
  assumes "get_splash_behaviour X placeholder code request s = (Inr b, t)"
  shows "\<exists>host meta compatible.
    map_of (rq_headers request) ''host'' = Some host \<and> sp_app_name b = hd (split_on CHR ''.'' host)
    \<and> get_app_metadata X (sh_fs s) (sp_app_name b) = Inr meta
    \<and> fst (size_is_compatible (am_minimum_portal_size meta) s) = Inr compatible
    \<and> (sp_do_reload b \<longleftrightarrow> code \<noteq> 401 \<and> compatible \<and> \<not> disk_space_low (sh_disk_usage s))
    \<and> sp_display_status b =
        (if code = 401 then ''Access Denied'' else if code = 500 then ''Error''
         else if sp_container_status b = ''running'' then ''Starting...''
         else if sp_container_status b = ''unknown'' then ''Initializing...''
         else if \<not> compatible then ''VM too small, need at least '' @ upper (vm_value (am_minimum_portal_size meta))
         else if disk_space_low (sh_disk_usage s) then ''Low Disk Space'' else ''Unknown Status...'')"
proof -
  have meta: "app_metadata X n u = (get_app_metadata X (sh_fs u) n, u)" for n and u :: "'a shard"
    by (simp add: app_metadata_def act_simps)
  have icon: "data_url X placeholder n u = (q, v) \<Longrightarrow> sh_kv v = sh_kv u \<and> sh_disk_usage v = sh_disk_usage u"
    for n q v and u :: "'a shard"
    using load_data_url_state [of X placeholder n u]
    by (cases "load_data_url X placeholder n u")
      (auto simp: data_url_def lru_call_def act_simps split: option.splits sum.splits)
  obtain host m u z c where h: "map_of (rq_headers request) ''host'' = Some host"
      "get_app_metadata X (sh_fs s) (hd (split_on CHR ''.'' host)) = Inr m"
      "data_url X placeholder (hd (split_on CHR ''.'' host)) s = (Inr z, u)"
      "fst (size_is_compatible (am_minimum_portal_size m) u) = Inr c"
    and b: "sp_app_name b = hd (split_on CHR ''.'' host)"
      "(sp_display_status b, sp_do_reload b) = display_status code (sp_container_status b)
         (display_size c (am_minimum_portal_size m)
           (display_low (disk_space_low (sh_disk_usage u)) (''Unknown Status...'', True)))"
    using assms
    by (auto simp: get_splash_behaviour_def bnd_Inr_iff act_atoms get_app_name_def meta get_container_status_def
        Let_def split: option.splits)
  then show ?thesis
    using icon [OF h(3)] size_is_compatible_kv(2) [of u s "am_minimum_portal_size m"]
    by (intro exI [of _ host] exI [of _ m] exI [of _ c])
      (auto simp: display_status_def display_size_def display_low_def split: if_splits)
qed

text \<open>
  So a machine that is too small hides behind a starting app: the page says that the app is starting and
  never reloads.
\<close>

definition splash_ext :: "real ext" where
  "splash_ext = sample_ext\<lparr>x_container_status := (\<lambda>n e. Some ''running'')\<rparr>"

definition splash_shard :: "real shard" where
  "splash_shard =
     sample_shard\<lparr>sh_fs := [[''r''] \<mapsto> Dir, [''r'', ''core''] \<mapsto> Dir,
         [''r'', ''core'', ''installed_apps''] \<mapsto> Dir, [''r'', ''core'', ''installed_apps'', ''a''] \<mapsto> Dir,
         [''r'', ''core'', ''installed_apps'', ''a'', ''app_meta.json''] \<mapsto> File ''ok'',
         [''r'', ''core'', ''installed_apps'', ''a'', ''i.svg''] \<mapsto> File ''<svg/>'']\<rparr>"

definition splash_request :: http_request where
  "splash_request = \<lparr>rq_headers = [(''host'', ''a.shard.org'')], rq_body = []\<rparr>"

lemma splash_runs:
  "fst (get_splash_behaviour splash_ext ''p'' 502 splash_request splash_shard) =
     Inr \<lparr>sp_app_name = ''a'', sp_status_code = 502, sp_container_status = ''running'',
          sp_icon_data = ''data:image/svg+xml;base64,<svg/>'', sp_display_status = ''Starting...'',
          sp_do_reload = False\<rparr>"
  by code_simp

lemma error_page_behaviour_witness:
  "\<exists>b t. get_splash_behaviour splash_ext ''p'' 502 splash_request splash_shard = (Inr b, t)
     \<and> sp_display_status b = ''Starting...'' \<and> \<not> sp_do_reload b
     \<and> (\<exists>meta. get_app_metadata splash_ext (sh_fs splash_shard) ''a'' = Inr meta
           \<and> fst (size_is_compatible (am_minimum_portal_size meta) splash_shard) = Inr False)"
proof -
  obtain b t where b: "get_splash_behaviour splash_ext ''p'' 502 splash_request splash_shard = (Inr b, t)"
      "sp_app_name b = ''a''" "sp_display_status b = ''Starting...''" "\<not> sp_do_reload b"
    using splash_runs by (metis prod.collapse splash_behaviour.select_convs(1,5,6))
  have "\<not> disk_space_low (sh_disk_usage splash_shard)" by (simp add: splash_shard_def sample_shard_def)
  with error_page_behaviour [OF b(1)] b show ?thesis by (intro exI [of _ b] exI [of _ t]) auto
qed

end
