(* ===== verification/Web_Endpoints.thy ===== *)
theory Web_Endpoints
  imports Install_Util Reporting
begin

text \<open>
  The endpoints that have no component of their own: \<open>web/protected/help.py\<close>, \<open>stats.py\<close>, \<open>settings.py\<close>
  and \<open>feedback.py\<close>, \<open>web/management/notify.py\<close> and \<open>web/public/health.py\<close>.
\<close>

section \<open>help.py: guided tours\<close>

definition put_tour :: "tour_row \<Rightarrow> ('e shard, unit) act" where
  "put_tour tour = seq (db_tours (tours_upsert tour)) (ret ())"

definition get_tour :: "string \<Rightarrow> ('e shard, tour_row) act" where
  "get_tour n =
     bnd (db_tours (tours_get_by_name n)) (\<lambda>tour.
     case tour of Some t \<Rightarrow> ret t | None \<Rightarrow> raise (HTTPException 404))"

definition list_tours :: "('e shard, tour_row list) act" where
  "list_tours = db_tours tours_get_all"

definition reset_tours :: "('e shard, unit) act" where
  "reset_tours = db_tours tours_truncate"

section \<open>stats.py\<close>

definition get_disk_usage :: "('e shard, disk_usage) act" where
  "get_disk_usage = gets sh_disk_usage"

fun task_type_value :: "task_type \<Rightarrow> string" where
  "task_type_value Install_From_Store = ''install from store''"
| "task_type_value Install_From_Zip = ''install from zip''"
| "task_type_value Uninstall = ''uninstall''"
| "task_type_value Reinstall = ''reinstall''"

definition task_str :: "install_task \<Rightarrow> string" where
  "task_str t =
     CHR 0x22 # task_type_value (it_task_type t) @ CHR 0x22 # '' task for '' @ it_app_name t"

record worker_stats =
  wo_is_started :: bool
  wo_current_task :: string
  wo_tasks :: "string list"

definition tasks_stats :: "('e shard, worker_stats) act" where
  "tasks_stats =
     gets (\<lambda>s. \<lparr>wo_is_started = sh_worker_started s,
                wo_current_task = (case sh_current_task s of None \<Rightarrow> ''None'' | Some t \<Rightarrow> task_str t),
                wo_tasks = map task_str (sh_tasks s)\<rparr>)"

section \<open>settings.py, feedback.py, notify.py, health.py\<close>

definition prune_images :: "'e ext \<Rightarrow> ('e shard, string option) act" where
  "prune_images X = docker_prune_images X False"

definition post_quick_feedback :: "'e ext \<Rightarrow> string \<Rightarrow> ('e shard, http_response) act" where
  "post_quick_feedback X feedback_text =
     signed_request X ''POST'' (controller_base_url (cfg X) @ ''/api/feedback'')
       (JObj [(''text'', JStr feedback_text)])"

definition notify :: "string \<Rightarrow> ('e shard, unit) act" where
  "notify ty = try_except (broadcast_message ty P_Empty) (\<lambda>_. ret ())"

definition health :: string where
  "health = ''ok''"

section \<open>The tours as a map\<close>

text \<open>What the endpoints promise: a map from names to what was last put, emptied by a reset.\<close>

datatype tour_call = Put_Tour tour_row | Get_Tour string | Reset_Tours

fun tour_spec ::
    "tour_call \<Rightarrow> (string \<Rightarrow> tour_status option) \<Rightarrow> tour_row option result \<times> (string \<Rightarrow> tour_status option)" where
  "tour_spec (Put_Tour t) m = (Inr None, m(to_name t \<mapsto> to_status t))"
| "tour_spec (Get_Tour n) m =
     (case m n of
        None \<Rightarrow> Inl (HTTPException 404)
      | Some st \<Rightarrow> Inr (Some \<lparr>to_name = n, to_status = st\<rparr>), m)"
| "tour_spec Reset_Tours m = (Inr None, \<lambda>_. None)"

fun tour_request :: "tour_call \<Rightarrow> ('e shard, tour_row option) act" where
  "tour_request (Put_Tour t) = seq (put_tour t) (ret None)"
| "tour_request (Get_Tour n) = bnd (get_tour n) (\<lambda>t. ret (Some t))"
| "tour_request Reset_Tours = seq reset_tours (ret None)"

text \<open>The answers to a sequence of requests, and the last state.\<close>

fun serve :: "('c \<Rightarrow> 's \<Rightarrow> 'r \<times> 's) \<Rightarrow> 'c list \<Rightarrow> 's \<Rightarrow> 'r list \<times> 's" where
  "serve f [] s = ([], s)"
| "serve f (c # cs) s =
     (case f c s of (r, t) \<Rightarrow> (case serve f cs t of (rs, u) \<Rightarrow> (r # rs, u)))"

definition tours_of :: "'e shard \<Rightarrow> string \<Rightarrow> tour_status option" where
  "tours_of s n = map_option to_status (tbl_find to_name n (sh_tours s))"

lemma tbl_find_upsert:
  "tbl_find key k (snd (tbl_upsert key r t)) = (if k = key r then Some r else tbl_find key k t)"
proof (cases "tbl_find key (key r) t")
  case None
  then show ?thesis by (auto simp: tbl_upsert_def tbl_find_snoc split: option.split)
next
  case (Some q)
  have "(\<lambda>q. if key q = key r then r else q) = (\<lambda>q. if key q = key r then (\<lambda>q. if key q = key r then r else q) q else q)"
    by auto
  then have "tbl_find key k (map (\<lambda>q. if key q = key r then r else q) t)
      = (if k = key r then map_option (\<lambda>q. if key q = key r then r else q) (tbl_find key (key r) t) else tbl_find key k t)"
    using tbl_find_map [of key "\<lambda>q. if key q = key r then r else q" k "key r" t] by simp
  then show ?thesis using Some tbl_find_key [OF Some] by (simp add: tbl_upsert_def)
qed

lemma tour_request_refines:
  "tour_request c s = (r, t) \<Longrightarrow>
     tour_spec c (tours_of s) = (r, tours_of t) \<and> t = s\<lparr>sh_tours := sh_tours t\<rparr>"
proof (cases c)
  case (Put_Tour w)
  moreover assume "tour_request c s = (r, t)"
  ultimately have rt: "r = Inr None" "t = s\<lparr>sh_tours := snd (tbl_upsert to_name w (sh_tours s))\<rparr>"
    by (auto simp: put_tour_def tours_upsert_def act_simps tbl_upsert_def)
  show ?thesis
    by (rule conjI)
      (auto simp: Put_Tour rt tours_of_def tbl_find_upsert fun_eq_iff)
next
  case (Get_Tour n)
  moreover assume "tour_request c s = (r, t)"
  ultimately show ?thesis
    by (auto simp: get_tour_def tours_get_by_name_def act_simps tours_of_def split: option.splits
        dest: tbl_find_key)
next
  case Reset_Tours
  moreover assume "tour_request c s = (r, t)"
  ultimately show ?thesis
    by (auto simp: reset_tours_def tours_truncate_def act_simps tours_of_def tbl_find_def)
qed

text \<open>
  The tours endpoints implement a map: for every sequence of requests to put, get and reset tours the
  answers are those of the map, the final table stands for the final map, and nothing else of the shard
  changes.
\<close>

theorem tours_implement_map:
  assumes "serve tour_request cs s = (rs, t)"
  shows "serve tour_spec cs (tours_of s) = (rs, tours_of t) \<and> t = s\<lparr>sh_tours := sh_tours t\<rparr>"
  using assms
proof (induction cs arbitrary: s rs)
  case Nil
  then show ?case by simp
next
  case (Cons c cs)
  obtain r u where u: "tour_request c s = (r, u)" by (meson surj_pair)
  obtain rs' where rs': "serve tour_request cs u = (rs', t)" "rs = r # rs'"
    using Cons.prems u by (auto split: prod.splits)
  have step: "tour_spec c (tours_of s) = (r, tours_of u)" "u = s\<lparr>sh_tours := sh_tours u\<rparr>"
    using tour_request_refines [OF u] by simp_all
  have rest: "serve tour_spec cs (tours_of u) = (rs', tours_of t)" "t = u\<lparr>sh_tours := sh_tours t\<rparr>"
    using Cons.IH [OF rs'(1)] by simp_all
  have "t = s\<lparr>sh_tours := sh_tours t\<rparr>"
    by (subst rest(2), subst step(2)) simp
  then show ?case using step(1) rest(1) rs'(2) by simp
qed

lemma tours_implement_map_witness:
  "fst (serve tour_spec [Put_Tour \<lparr>to_name = ''t'', to_status = SEEN\<rparr>, Get_Tour ''t'', Reset_Tours, Get_Tour ''t'']
      (tours_of sample_shard))
    = [Inr None, Inr (Some \<lparr>to_name = ''t'', to_status = SEEN\<rparr>), Inr None, Inl (HTTPException 404)]"
proof -
  let ?cs = "[Put_Tour \<lparr>to_name = ''t'', to_status = SEEN\<rparr>, Get_Tour ''t'', Reset_Tours, Get_Tour ''t'']"
  obtain rs t where t: "serve tour_request ?cs sample_shard = (rs, t)" by (meson surj_pair)
  have "fst (serve tour_request ?cs sample_shard)
      = [Inr None, Inr (Some \<lparr>to_name = ''t'', to_status = SEEN\<rparr>), Inr None, Inl (HTTPException 404)]"
    by code_simp
  then show ?thesis using tours_implement_map [OF t] t by (metis fst_conv)
qed

end
