(* ===== verification/Operations.thy ===== *)
theory Operations
  imports Installation Backup Reporting Background Assets Web_Internal Web_Endpoints
begin

text \<open>
  What the operations of the shard can do to its database, proved once for every relation between states.
  A relation is one the locale \<open>background_ops\<close> or \<open>system_ops\<close> applies to if it is reflexive and
  transitive, holds between states with the same tables, and holds across each of the few writing queries;
  then it holds across every operation that is composed of them, whatever it returns or raises.  The
  locales are interpreted on \<open>keeps\<close> for what background work leaves alone, and on \<open>preserves\<close> for the
  invariant of the whole system.
\<close>

section \<open>Handlers\<close>

text \<open>A handler that moves along \<open>R\<close> in each of its clauses does so.\<close>

lemma moves_case_exn:
  assumes
    "\<And>x. moves R (h1e x)" and "\<And>x. moves R (h2e x)" and "moves R h3e" and "moves R h4e" and
    "moves R h5e" and "moves R h6e" and "moves R h7e" and "moves R h8e" and "moves R h9e" and
    "moves R h10e" and "moves R h11e" and "moves R h12e" and "moves R h13e" and
    "\<And>x. moves R (h14e x)" and "\<And>x. moves R (h15e x)" and "\<And>x. moves R (h16e x)" and
    "moves R h17e" and "moves R h18e" and "moves R h19e" and "moves R h20e" and
    "\<And>x. moves R (h21e x)" and "moves R h22e" and "moves R h23e" and
    "\<And>x. moves R (h24e x)" and "\<And>x. moves R (h25e x)" and "\<And>x. moves R (h26e x)" and
    "\<And>x. moves R (h27e x)" and "\<And>x. moves R (h28e x)" and "\<And>x. moves R (h29e x)" and
    "moves R h30e" and "moves R h31e" and "moves R h32e" and "moves R h33e" and "moves R h34e" and
    "moves R h35e" and "\<And>x. moves R (h36e x)" and "moves R h37e" and "moves R h38e" and
    "moves R h39e" and "\<And>x. moves R (h40e x)" and "\<And>x. moves R (h41e x)"
  shows "moves R (case_exn
    h1e h2e h3e h4e h5e h6e h7e h8e h9e h10e h11e h12e h13e h14e h15e h16e h17e h18e h19e h20e h21e
    h22e h23e h24e h25e h26e h27e h28e h29e h30e h31e h32e h33e h34e h35e h36e h37e h38e h39e h40e h41e
    e)"
  using assms by (cases e) simp_all

section \<open>Operations that leave the tables alone\<close>

definition db_view ::
    "'e shard \<Rightarrow> app_row list \<times> identity_row list \<times> terminal_row list \<times> peer_row list \<times> tour_row list
       \<times> backup_row serial \<times> usage_row serial \<times> dict" where
  "db_view s =
     (sh_apps s, sh_identities s, sh_terminals s, sh_peers s, sh_tours s, sh_backups s, sh_usage s, sh_kv s)"

abbreviation quiet :: "('e shard, 'a) act \<Rightarrow> bool" where
  "quiet \<equiv> moves (keeps db_view)"

lemma quiet_modify: "(\<And>s. db_view (f s) = db_view s) \<Longrightarrow> quiet (modify f)"
  by (rule moves_keeps_modify)

lemma quiet_world: "quiet (world w)" and quiet_world_res: "quiet (world_res v)" and quiet_now: "quiet (now X)"
  and quiet_subprocess: "quiet (subprocess X args)" and quiet_on_apps_update: "quiet (on_apps_update X)"
  and quiet_broadcast: "quiet (broadcast_message ty p)" and quiet_on_fs: "quiet (on_fs m)"
  and quiet_run_compose: "quiet (run_compose X n args)"
  and quiet_render: "quiet (render_docker_compose_template X n)"
  and quiet_traefik: "quiet (write_traefik_dyn_config X)"
  and quiet_signed_request: "quiet (signed_request X verb url data)"
  by (intro moves_keeps_world moves_keeps_world_res moves_keeps_now moves_keeps_subprocess
      moves_keeps_on_apps_update moves_keeps_broadcast moves_keeps_on_fs run_compose_keeps render_keeps
      traefik_keeps moves_keeps_signed_request; simp add: db_view_def)+

lemma quiet_compose: "quiet (compose X n args)"
  unfolding compose_def by (intro keeps.moves_rules quiet_subprocess)

lemma quiet_state: "(\<And>s. snd (m s) = s) \<Longrightarrow> quiet m"
  by (simp add: moves_def keeps_def)

text \<open>Queries that read\<close>

lemma quiet_reads:
  "quiet (db_apps apps_get_all)" "quiet (db_apps (apps_get_by_name n))" "quiet (db_apps (apps_contains n))"
  "quiet (db_identities identities_get_all)" "quiet (db_identities (identities_get_by_id n))"
  "quiet (db_identities identities_get_default)" "quiet (db_identities (identities_search_by_name n))"
  "quiet (db_identities identities_count)"
  "quiet (db_terminals terminals_get_all)" "quiet (db_terminals (terminals_get_by_id n))"
  "quiet (db_terminals (terminals_get_by_name n))" "quiet (db_terminals terminals_count)"
  "quiet (db_peers peers_get_all)" "quiet (db_peers (peers_get_by_id_prefix n))"
  "quiet (db_peers (peers_search_by_name n))"
  "quiet (db_tours tours_get_all)" "quiet (db_tours (tours_get_by_name n))"
  "quiet (db_backups backups_get_latest)" "quiet (db_usage (usage_search_by_time_range a b))"
  by (simp_all add: moves_def keeps_def zoom_def gets_def apps_get_all_def apps_get_by_name_def apps_contains_def
      identities_get_all_def identities_get_by_id_def identities_get_default_def identities_search_by_name_def
      identities_count_def terminals_get_all_def terminals_get_by_id_def terminals_get_by_name_def
      terminals_count_def peers_get_all_def peers_get_by_id_prefix_def peers_search_by_name_def
      tours_get_all_def tours_get_by_name_def backups_get_latest_def usage_search_by_time_range_def
      split: option.split)

lemma quiet_metadata: "quiet (app_metadata X n)" and quiet_size: "quiet (size_is_compatible z)"
  and quiet_default_identity: "quiet (get_default_identity X)" and quiet_portal: "quiet (default_portal X)"
  by (rule quiet_state, simp add: app_metadata_def act_simps size_is_compatible_state)+

lemma quiet_identity_of: "quiet (identity_of X r)"
  unfolding identity_of_def by (intro keeps.moves_rules)

lemma quiet_metrics: "quiet (metrics X u)"
  unfolding metrics_def by (intro keeps.moves_rules quiet_modify) (simp add: db_view_def)

lemmas quiet_basic =
  quiet_world quiet_world_res quiet_now quiet_subprocess quiet_on_apps_update quiet_broadcast quiet_on_fs
  quiet_compose quiet_run_compose quiet_render quiet_traefik quiet_signed_request quiet_reads quiet_metadata
  quiet_size quiet_default_identity quiet_portal quiet_identity_of quiet_metrics moves_keeps_get_value

section \<open>Background work\<close>

locale background_ops = frame R for R :: "'e shard \<Rightarrow> 'e shard \<Rightarrow> bool" +
  assumes same_tables: "db_view t = db_view s \<Longrightarrow> R s t"
    and write_status: "moves R (db_apps (apps_update_status n st))"
    and write_app_removed: "moves R (db_apps (apps_remove n))"
    and write_peer: "moves R (db_peers (peers_update_by_id i d))"
    and write_usage: "moves R (db_usage (usage_insert time apps))"
    and write_backup: "moves R (db_backups (backups_insert r))"
begin

lemma quiet: "quiet m \<Longrightarrow> moves R m"
  using same_tables by (simp add: moves_def keeps_def)

lemma moves_modify_quiet: "(\<And>s. db_view (f s) = db_view s) \<Longrightarrow> moves R (modify f)"
  by (rule quiet) (rule quiet_modify)

lemma moves_with_lock:
  assumes "moves R m"
  shows "moves R (with_lock n m)"
proof (rule movesI)
  fix s :: "'e shard"
  let ?s = "s\<lparr>sh_locks := n # sh_locks s\<rparr>"
  have "R s ?s" by (rule same_tables) (simp add: db_view_def)
  moreover have "R ?s (snd (m ?s))" using assms by (simp add: moves_def)
  moreover have "R (snd (m ?s)) ((snd (m ?s))\<lparr>sh_locks := l\<rparr>)" for l
    by (rule same_tables) (simp add: db_view_def)
  ultimately show "R s (snd (with_lock n m s))"
    unfolding with_lock_def by (auto simp: frame_refl split: prod.split intro: frame_trans)
qed

lemmas ops = moves_rules moves_case_exn moves_modify_quiet quiet_basic [THEN quiet]
  write_status write_app_removed write_peer write_usage write_backup

lemma do_unpause: "moves R (do_unpause X n)"
  unfolding do_unpause_def record_unpause_latency_def record_app_transition_def by (intro ops)

lemma mark_running: "moves R (mark_running X n)"
  unfolding mark_running_def set_status_row_def by (intro ops)

lemma pause_app: "moves R (docker_pause_app X n)"
  unfolding docker_pause_app_def record_pause_latency_def record_app_transition_def db_status_def
    set_status_row_def reclaim_compose_stack_def reclaim_container_def
  by (intro ops)

lemma unpause_app: "moves R (docker_unpause_app X n)"
  unfolding docker_unpause_app_def db_status_def by (intro ops do_unpause mark_running)

lemma stop_app: "moves R (docker_stop_app X n b)"
  unfolding docker_stop_app_def record_app_transition_def db_status_def set_status_row_def by (intro ops)

lemma shutdown_app: "moves R (docker_shutdown_app X n b c)"
  unfolding docker_shutdown_app_def db_status_def set_status_row_def by (intro ops)

lemma compose_up: "moves R (compose_up X n)"
  unfolding compose_up_def by (intro ops)

lemma container_state: "moves R (get_app_container_state X n)"
  unfolding get_app_container_state_def by (intro ops)

lemma revive: "moves R (revive X n st)"
  unfolding revive_def
proof (intro moves_bnd container_state)
  fix state
  show "moves R (case state of
       C_running \<Rightarrow> (if st \<noteq> RUNNING then mark_running X n else ret ())
     | C_paused \<Rightarrow>
         seq (try_except (do_unpause X n)
                (\<lambda>e. case e of SubprocessError _ \<Rightarrow> compose_up X n | _ \<Rightarrow> raise e))
         (mark_running X n)
     | C_exited \<Rightarrow> seq (compose_up X n) (mark_running X n)
     | C_missing \<Rightarrow> seq (compose_up X n) (mark_running X n))"
    by (cases state) (auto intro!: ops mark_running do_unpause compose_up)
qed

lemma start_app: "moves R (start_app X n)"
  unfolding start_app_def throttle_def start_app_unthrottled_def db_status_def
  by (intro ops moves_with_lock revive) (simp add: db_view_def)

lemma control_app_time: "moves R (control_app_time X p app)"
  unfolding control_app_time_def Let_def by (intro ops stop_app pause_app start_app)

lemma demotable: "moves R (demotable X apps)"
  by (induction apps) (auto intro!: ops)

lemma demote_lru: "moves R (demote_lru X apps)"
  unfolding demote_lru_def Let_def by (intro ops demotable stop_app pause_app)

lemma memory_pressure: "moves R (read_memory_pressure X)"
  unfolding read_memory_pressure_def by (intro ops)

lemma control_apps: "moves R (control_apps X)"
  unfolding control_apps_def record_psi_snapshot_def Let_def
  by (intro ops memory_pressure demote_lru) (auto intro: control_app_time)

lemma shutdown_all: "moves R (docker_shutdown_all_apps X b)"
  unfolding docker_shutdown_all_apps_def by (intro ops) (auto intro: shutdown_app)

text \<open>The installation worker\<close>

lemma update_status: "moves R (update_app_status X n st)"
  unfolding update_app_status_def by (intro ops)

lemma from_db: "moves R (get_app_from_db n)"
  unfolding get_app_from_db_def by (intro ops)

lemma assert_status: "moves R (assert_app_status a sts)"
  unfolding assert_app_status_def by (intro ops)

lemma install_or_error: "moves R fetch \<Longrightarrow> moves R (install_or_error X n fetch)"
  unfolding install_or_error_def install_app_from_zip_def docker_create_app_containers_def
    on_app_install_error_def
  by (intro ops update_status)

lemma download: "moves R (download_app_zip X n)"
  unfolding download_app_zip_def Let_def by (intro ops)

lemma uninstall: "moves R (worker_uninstall X n)"
  unfolding worker_uninstall_def uninstall_mark_def delete_app_dir_def
  by (intro moves_with_lock ops from_db unpause_app update_status stop_app shutdown_app)

lemma run_task: "moves R (run_task X ty n)"
  by (cases ty)
    (auto simp: uninstall worker_install_from_store_def worker_install_from_existing_zip_def
      worker_reinstall_def reinstall_shutdown_def delete_app_dir_def
      intro!: ops from_db assert_status update_status install_or_error download stop_app shutdown_app)

lemma run_worker_step: "moves R (run_worker_step X)"
  unfolding run_worker_step_def by (intro ops run_task) (simp_all add: db_view_def)

lemma run_started_app: "moves R (run_background_task X)"
  unfolding run_background_task_def by (intro ops start_app) (simp add: db_view_def)

text \<open>The jobs\<close>

lemma peer_meta: "moves R (update_peer_meta X p)"
  unfolding update_peer_meta_def raise_for_status_def mark_unreachable_def by (intro ops)

lemma update_peers: "moves R (update_all_peer_pubkeys X)"
  unfolding update_all_peer_pubkeys_def by (intro ops) (auto intro: peer_meta)

lemma track_apps: "moves R (track_currently_installed_apps X)"
  unfolding track_currently_installed_apps_def by (intro ops)

lemma report_usage: "moves R (report_app_usage X)"
proof -
  have "moves R (deliver_report X body is)" for body "is"
    by (induction "is") (auto intro!: ops)
  then show ?thesis
    unfolding report_app_usage_def build_usage_report_def by (intro ops)
qed

lemma prune: "moves R (docker_prune_images X b)"
  unfolding docker_prune_images_def by (intro ops)

lemma scheduled_prune: "moves R (scheduled_docker_prune_images X)"
  unfolding scheduled_docker_prune_images_def by (intro ops prune)

lemma begin_backup: "moves R (start_backup X)"
  unfolding start_backup_def start_backup_check_def start_backup_submit_def get_backup_sas_url_def
    portal_call_def raise_for_status_def Let_def
  by (intro ops) (simp add: db_view_def)

lemma update_disk: "moves R (update_disk_space X)"
  unfolding update_disk_space_def on_disk_usage_update_def Let_def by (intro ops) (simp add: db_view_def)

lemma telemetry: "moves R (send_telemetry X)"
  unfolding send_telemetry_def send_telemetry_during_def telemetry_prepare_def build_pause_tier_def
    read_swap_kib_def telemetry_sent_def reset_metrics_def call_freeshard_controller_def
  by (intro ops) (simp_all add: db_view_def)

text \<open>The tasks of backups\<close>

lemma snapshot_written: "moves R (write_db_snapshot X)"
  unfolding write_db_snapshot_def Let_def by (intro ops)

lemma backup_directory: "moves R (backup_directory X c d p sas)"
  by (rule quiet, rule moves_keeps_backup_directory) (simp_all add: db_view_def)

lemma backup_each: "moves R (backup_each X c p sas ds)"
  unfolding backup_one_def by (induction ds) (auto simp: backup_one_def intro!: ops backup_directory)

lemma obscured: "moves R (get_obscured_passphrase X)"
proof -
  have "moves R (case oc of Exited rc out err \<Rightarrow> ret (strip out) | _ \<Rightarrow> raise FileNotFoundError)" for oc
    by (cases oc) (auto intro!: ops)
  then have "moves R (case v of JStr passphrase \<Rightarrow>
         (let args = [''rclone'', ''obscure'', passphrase] in
          seq (modify (\<lambda>s. s\<lparr>sh_ran := sh_ran s @ [args]\<rparr>))
          (bnd (world (x_run X args)) (\<lambda>oc.
           case oc of Exited rc out err \<Rightarrow> ret (strip out) | _ \<Rightarrow> raise FileNotFoundError)))
     | _ \<Rightarrow> raise TypeError)" for v
    by (cases v) (auto simp: Let_def db_view_def intro!: ops)
  then show ?thesis unfolding get_obscured_passphrase_def by (intro ops)
qed

lemma backup_work: "moves R (backup_work X ds c sas)"
  unfolding backup_work_def write_marker_blob_def by (intro ops snapshot_written obscured backup_each)

lemma backup_tasks: "moves R backup_task_starts" "moves R (backup_task_ends X)"
  unfolding backup_task_starts_def backup_task_ends_def on_task_done_def on_backup_update_def Let_def
  by (intro ops backup_work; simp add: db_view_def)+

text \<open>The websocket worker\<close>

lemma send_next: "moves R (send_next_message X)"
  unfolding send_next_message_def by (intro ops) (auto simp: db_view_def intro: quiet quiet_world_res)

lemma sleep: "moves R (sleep X d)"
  unfolding sleep_def by (intro ops)

lemma cron_wait: "moves R (cron_wait X c m)"
  unfolding cron_wait_def by (intro ops sleep)

end

section \<open>Requests\<close>

context frame
begin

text \<open>The continuation only matters on what the first action can return.\<close>

lemma moves_bnd_result:
  assumes "moves R m" and "\<And>s x t. m s = (Inr x, t) \<Longrightarrow> moves R (k x)"
  shows "moves R (bnd m k)"
proof (rule movesI)
  fix s
  obtain r t where m: "m s = (r, t)" by (meson surj_pair)
  have "R s t" using assms(1) m by (rule movesD)
  then show "R s (snd (bnd m k s))"
    using assms(2) m frame_trans by (cases r) (auto simp: moves_def act_simps)
qed

end

lemma identity_of_row_default: "identity_of_row X r = Inr i \<Longrightarrow> i_is_default i = id_is_default r"
  by (cases "validate_email X (id_email r)") (auto simp: identity_of_row_def split: option.splits)

lemma create_identity_not_default:
  "create_identity X n d e s = (Inr i, t) \<Longrightarrow> \<not> i_is_default i"
  by (auto simp: create_identity_def bnd_Inr_iff act_atoms dest: identity_of_row_default)

lemma set_fields_keys: "fst ` set (set_fields fs) \<subseteq> fst ` set fs"
  by (auto simp: set_fields_def split: option.splits) force

text \<open>The columns of an identity that an update from outside may name\<close>

definition profile_columns :: "dict \<Rightarrow> bool" where
  "profile_columns u \<longleftrightarrow> fst ` set u \<subseteq> {''name'', ''email'', ''description''}"

locale client_ops = background_ops R for R :: "'e shard \<Rightarrow> 'e shard \<Rightarrow> bool" +
  assumes write_last_access: "moves R (db_apps (apps_update_last_access n time))"
    and write_app: "moves R (db_apps (apps_insert a))"
    and write_identity: "\<not> id_is_default d \<Longrightarrow> moves R (db_identities (identities_insert d))"
    and write_identity_fields: "profile_columns u \<Longrightarrow> moves R (db_identities (identities_update i u))"
    and write_default: "moves R (make_default i)"
    and write_terminal_fields: "moves R (db_terminals (terminals_update i cs))"
    and write_terminal_removed: "moves R (db_terminals (terminals_remove i))"
    and write_new_peer: "moves R (db_peers (peers_insert p))"
    and write_peers: "moves R (db_peers (peers_update_by_id_prefix i u))"
    and write_peers_removed: "moves R (db_peers (peers_remove_by_id_prefix i))"
    and write_tour: "moves R (db_tours (tours_upsert tour))"
    and write_tours_removed: "moves R (db_tours tours_truncate)"
    and write_secret: "moves R (ensure_jwt_secret X)"
    and write_value: "k \<noteq> STORE_KEY_JWT_SECRET \<Longrightarrow> moves R (set_value k v)"
    and write_value_removed: "k \<noteq> STORE_KEY_JWT_SECRET \<Longrightarrow> moves R (remove_value k)"
begin

lemmas requests = ops write_last_access write_app write_terminal_fields write_terminal_removed
  write_new_peer write_peers write_peers_removed write_tour write_tours_removed write_secret

text \<open>Terminals and identities\<close>

lemma verify_terminal: "moves R (verify_terminal_jwt X tok)"
proof -
  have "moves R (case sub of
                  JStr i \<Rightarrow>
                    bnd (db_terminals (terminals_get_by_id i)) (\<lambda>t.
                      case t of Some t \<Rightarrow> ret t | None \<Rightarrow> raise InvalidJwt)
                | _ \<Rightarrow> raise (OtherError ''DataError''))" for sub
    by (cases sub) (auto intro!: ops)
  then show ?thesis unfolding verify_terminal_jwt_def by (intro requests)
qed

lemma terminal_auth: "moves R (on_terminal_auth X t)"
  unfolding on_terminal_auth_def update_terminal_last_connection_def record_request_def
  by (intro requests) (simp add: db_view_def)

lemma terminals_announced: "moves R on_terminals_update"
  unfolding on_terminals_update_def send_terminals_update_def by (intro requests)

lemma identity_announced: "moves R on_identity_update"
  unfolding on_identity_update_def invalidate_identity_cache_def by (intro requests) (simp add: db_view_def)

lemma redeem: "moves R (redeem_pairing_code X code)"
  unfolding redeem_pairing_code_def
  by (intro requests write_value_removed) (simp add: STORE_KEY_PAIRING_CODE_def STORE_KEY_JWT_SECRET_def)

lemma new_code: "moves R (make_pairing_code X d)"
  unfolding make_pairing_code_def
  by (intro requests write_value) (simp add: STORE_KEY_PAIRING_CODE_def STORE_KEY_JWT_SECRET_def)

lemma refreshed_profile: "moves R (refresh_profile X)"
  unfolding refresh_profile_def portal_call_def raise_for_status_def set_profile_def
  by (intro requests write_value) (simp_all add: STORE_KEY_JWT_SECRET_def)

lemma identity_updated: "profile_columns u \<Longrightarrow> moves R (update_identity X i u)"
  unfolding update_identity_def by (intro requests write_identity_fields identity_announced)

lemma first_terminal: "moves R (async_on_first_terminal_add X)"
  unfolding async_on_first_terminal_add_def enrich_identity_from_profile_def Let_def
  by (intro requests refreshed_profile identity_updated) (auto simp: profile_columns_def text_field_def split: option.splits if_splits)

lemma edited_terminal: "moves R (edit_terminal i inp)"
proof -
  have "moves R (commit_after sh_terminals sh_terminals_update (terminals_update i cs) (\<lambda>_. on_terminals_update))"
    for cs
  proof (rule movesI)
    fix s :: "'e shard"
    let ?c = "commit_after sh_terminals sh_terminals_update (terminals_update i cs) (\<lambda>_. on_terminals_update) s"
    have w: "R s (snd (db_terminals (terminals_update i cs) s))"
      using write_terminal_fields by (simp add: moves_def)
    have quiet_send: "db_view (snd (on_terminals_update s)) = db_view s"
      by (simp add: on_terminals_update_def send_terminals_update_apply db_view_def)
    have "db_view (snd ?c) = db_view s \<or> db_view (snd ?c) = db_view (snd (db_terminals (terminals_update i cs) s))"
      using quiet_send
      by (auto simp: commit_after_def zoom_def db_view_def split: prod.split sum.split)
    then show "R s (snd ?c)"
      using w by (blast intro: same_tables frame_trans)
  qed
  then show ?thesis unfolding edit_terminal_def by (intro requests)
qed

lemma deleted_terminal: "moves R (delete_terminal_by_id i)"
  unfolding delete_terminal_by_id_def by (intro requests terminals_announced)

lemma identity_put: "moves R (put_identity X inp)"
proof -
  have new_identity: "moves R (bnd (create_identity X n d e) (\<lambda>new.
          seq (db_identities (identities_insert (row_of_identity new))) (ret new)))" for n d e
  proof (rule moves_bnd_result)
    show "moves R (create_identity X n d e)" unfolding create_identity_def by (intro requests)
    show "moves R (seq (db_identities (identities_insert (row_of_identity new))) (ret new))"
      if "create_identity X n d e s = (Inr new, t)" for s new t
      using create_identity_not_default [OF that]
      by (intro requests write_identity) (simp add: row_of_identity_def)
  qed
  have fields: "profile_columns (set_fields [(''name'', a), (''email'', b), (''description'', c)])" for a b c
    using set_fields_keys [of "[(''name'', a), (''email'', b), (''description'', c)]"]
    by (simp add: profile_columns_def)
  show ?thesis
    unfolding put_identity_def by (intro new_identity requests identity_updated fields)
qed

lemma default_moved: "moves R (make_identity_default i)"
  unfolding make_identity_default_def by (intro requests write_default)

end

text \<open>Only pairing inserts a terminal.\<close>

locale system_ops = client_ops R for R :: "'e shard \<Rightarrow> 'e shard \<Rightarrow> bool" +
  assumes write_terminal: "moves R (db_terminals (terminals_insert tm))"
begin

lemma pair_terminal: "moves R (add_terminal X code inp)"
  unfolding add_terminal_def create_terminal_def create_terminal_jwt_def on_terminal_add_def
  by (intro requests write_terminal redeem terminals_announced first_terminal)

end

end
