(* ===== verification/Startup.thy ===== *)
theory Startup
  imports Operations
begin

text \<open>
  \<open>app_factory.py\<close>: what happens when the shard starts, the tasks that then run in the background, what
  is printed, and what happens when it stops.  The web framework, the routers and the logging setup are
  outside.
\<close>

section \<open>The static configuration of the proxy\<close>

definition copy_traefik_static_config :: "'e ext \<Rightarrow> ('e shard, unit) act" where
  "copy_traefik_static_config X =
     (let traefik_yml = (if disable_ssl (cfg X) then ''traefik_no_ssl.yml'' else ''traefik.yml'') in
      bnd (world_res (x_host_read X (x_cwd X @ [''data'', traefik_yml]))) (\<lambda>template.
      bnd (lift_res (x_template X template [(''acme_email'', JStr (acme_email (cfg X)))])) (\<lambda>result.
      let target = path_root (cfg X) @ [''core'', ''traefik.yml''] in
      seq (on_fs (fs_mkdirs (parent target))) (on_fs (fs_write target result)))))"

section \<open>Background tasks\<close>

datatype job =
    Control_Apps | Update_All_Peer_Pubkeys | Track_Currently_Installed_Apps | Report_App_Usage
  | Scheduled_Docker_Prune_Images | Start_Backup | Update_Disk_Space | Send_Telemetry

fun run_job :: "'e ext \<Rightarrow> job \<Rightarrow> ('e shard, unit) act" where
  "run_job X Control_Apps = control_apps X"
| "run_job X Update_All_Peer_Pubkeys = update_all_peer_pubkeys X"
| "run_job X Track_Currently_Installed_Apps = track_currently_installed_apps X"
| "run_job X Report_App_Usage = report_app_usage X"
| "run_job X Scheduled_Docker_Prune_Images = scheduled_docker_prune_images X"
| "run_job X Start_Backup = start_backup X"
| "run_job X Update_Disk_Space = update_disk_space X"
| "run_job X Send_Telemetry = send_telemetry X"

datatype background =
    Installation_Worker
  | Ws_Worker
  | Periodic_Task job real
  | Cron_Task job string "real option"

definition cron_task :: "'e ext \<Rightarrow> job \<Rightarrow> string \<Rightarrow> real option \<Rightarrow> background result" where
  "cron_task X func cron max_random_delay =
     bind_res (cron_task_init X cron) (\<lambda>_. Inr (Cron_Task func cron max_random_delay))"

definition make_background_tasks :: "'e ext \<Rightarrow> background list result" where
  "make_background_tasks X =
     (let s = cfg X in
      collect_res id
        [Inr Installation_Worker,
         Inr (Periodic_Task Control_Apps (of_int (refresh_interval (lifecycle_cfg s)))),
         Inr (Periodic_Task Update_All_Peer_Pubkeys 60),
         cron_task X Track_Currently_Installed_Apps (tracking_schedule s) None,
         cron_task X Report_App_Usage (reporting_schedule s) None,
         cron_task X Scheduled_Docker_Prune_Images (pruning_schedule s) None,
         cron_task X Start_Backup (backup_schedule s) (Some (of_int (backup_max_random_delay s))),
         Inr (Periodic_Task Update_Disk_Space 30),
         Inr Ws_Worker,
         Inr (Periodic_Task Send_Telemetry (of_int (telemetry_interval s)))])"

text \<open>
  \<open>t.start()\<close> of every task: of the state of the shard only the flag of the installation worker changes.
\<close>

definition start_tasks :: "background list \<Rightarrow> ('e shard, unit) act" where
  "start_tasks ts = (if Installation_Worker \<in> set ts then worker_start else ret ())"

definition stop_tasks :: "background list \<Rightarrow> ('e shard, unit) act" where
  "stop_tasks ts = (if Installation_Worker \<in> set ts then worker_stop else ret ())"

text \<open>What a started task does in \<open>n\<close> rounds\<close>

definition run_background :: "'e ext \<Rightarrow> background \<Rightarrow> nat \<Rightarrow> ('e shard, unit) act" where
  "run_background X b n =
     (case b of
        Installation_Worker \<Rightarrow> run_worker X n
      | Ws_Worker \<Rightarrow> send_messages X n
      | Periodic_Task j delay \<Rightarrow> run_delay X (run_job X j) delay n
      | Cron_Task j cron m \<Rightarrow> run_cron X (run_job X j) cron m n)"

section \<open>The welcome message\<close>

definition center :: "string \<Rightarrow> string" where
  "center s = replicate (27 - length s div 2) CHR '' '' @ s"

definition shard_url :: "'e ext \<Rightarrow> identity \<Rightarrow> string" where
  "shard_url X i = (if disable_ssl (cfg X) then ''http'' else ''https'') @ ''://'' @ domain X (i_id i)"

definition welcome_params :: "'e ext \<Rightarrow> identity \<Rightarrow> pairing_code option \<Rightarrow> dict" where
  "welcome_params X i code =
     [(''shard_id'', JStr (short_id (i_id i))), (''shard_url_centered'', JStr (center (shard_url X i))),
      (''is_first_start'', JBool (code \<noteq> None))]
     @ (case code of
          None \<Rightarrow> []
        | Some c \<Rightarrow> [(''pairing_link_centered'', JStr (center (shard_url X i @ ''/#/pair?code='' @ pc_code c)))])"

definition print_welcome_log :: "'e ext \<Rightarrow> ('e shard, unit) act" where
  "print_welcome_log X =
     bnd (get_default_identity X) (\<lambda>i.
     bnd (db_terminals terminals_count) (\<lambda>terminal_count.
     bnd (if terminal_count = 0 then bnd (make_pairing_code X (Some (10 * 60))) (\<lambda>c. ret (Some c))
          else ret None) (\<lambda>code.
     bnd (world_res (x_host_read X (x_cwd X @ [''data'', ''freeshard_ascii.jinja'']))) (\<lambda>template.
     bnd (lift_res (x_template X template (welcome_params X i code))) (\<lambda>welcome_log.
     world (\<lambda>e. ((), x_print X welcome_log e)))))))"

section \<open>Start and stop\<close>

text \<open>\<open>except (ConnectionError, HTTPError, ValidationError)\<close>\<close>

definition profile_error :: "exn \<Rightarrow> bool" where
  "profile_error e \<longleftrightarrow>
     (case e of RequestsConnectionError \<Rightarrow> True | RequestsHTTPError _ \<Rightarrow> True | ValidationError \<Rightarrow> True | _ \<Rightarrow> False)"

definition prepare :: "'e ext \<Rightarrow> ('e shard, unit) act" where
  "prepare X =
     seq (init_database X)
     (seq (init_default_identity X)
     (seq (write_traefik_dyn_config X)
     (seq (render_all_docker_compose_templates X)
     (seq (login_docker_registries X)
     (seq reconcile_interrupted_uninstalls
     (seq (refresh_init_apps X)
     (seq (ensure_backup_passphrase X)
     (try_except (seq (refresh_profile X) (ret ()))
        (\<lambda>e. if profile_error e then ret () else raise e)))))))))"

text \<open>
  \<open>lifespan\<close> up to \<open>yield\<close>, and from there on.  \<open>migration.migrate\<close> does nothing any more; closing the
  connection pool is not part of the state.
\<close>

definition startup :: "'e ext \<Rightarrow> ('e shard, background list) act" where
  "startup X =
     seq (prepare X)
     (bnd (lift_res (make_background_tasks X)) (\<lambda>tasks.
      seq (start_tasks tasks)
      (seq (print_welcome_log X) (ret tasks))))"

definition shutdown :: "'e ext \<Rightarrow> background list \<Rightarrow> ('e shard, unit) act" where
  "shutdown X tasks = seq (stop_tasks tasks) (docker_shutdown_all_apps X True)"

text \<open>
  Every job has exactly the loop it is meant to have, when croniter accepts the schedules; a schedule it
  does not accept keeps the shard from starting.
\<close>

lemma make_background_tasks_apply:
  "make_background_tasks X =
    (let s = cfg X in
     if list_all (x_cron_valid X) [tracking_schedule s, reporting_schedule s, pruning_schedule s, backup_schedule s]
     then Inr [Installation_Worker, Periodic_Task Control_Apps (of_int (refresh_interval (lifecycle_cfg s))),
         Periodic_Task Update_All_Peer_Pubkeys 60, Cron_Task Track_Currently_Installed_Apps (tracking_schedule s) None,
         Cron_Task Report_App_Usage (reporting_schedule s) None,
         Cron_Task Scheduled_Docker_Prune_Images (pruning_schedule s) None,
         Cron_Task Start_Backup (backup_schedule s) (Some (of_int (backup_max_random_delay s))),
         Periodic_Task Update_Disk_Space 30, Ws_Worker,
         Periodic_Task Send_Telemetry (of_int (telemetry_interval s))]
     else Inl TypeError)"
  by (simp add: make_background_tasks_def cron_task_def cron_task_init_def Let_def)

section \<open>What background work does to the tables\<close>

context background_ops
begin

lemma run_job: "moves R (run_job X j)"
  by (cases j) (simp_all add: control_apps update_peers track_apps report_usage scheduled_prune begin_backup
      update_disk telemetry)

lemma run_background: "moves R (run_background X b n)"
proof (cases b)
  case Installation_Worker
  then show ?thesis by (auto simp: run_background_def run_worker_def intro!: ops run_worker_step)
next
  case Ws_Worker
  have "moves R (send_messages X n)" by (induction n) (auto intro!: ops send_next)
  with Ws_Worker show ?thesis by (simp add: run_background_def)
next
  case (Periodic_Task j d)
  have "moves R (run_delay X (run_job X j) d n)"
    by (induction n) (auto simp: guarded_def intro!: ops run_job sleep)
  then show ?thesis using Periodic_Task by (simp add: run_background_def)
next
  case (Cron_Task j c m)
  have "moves R (run_cron X (run_job X j) c m n)"
    by (induction n) (auto simp: guarded_def intro!: ops run_job cron_wait)
  then show ?thesis using Cron_Task by (simp add: run_background_def)
qed

lemma shutdown: "moves R (shutdown X tasks)"
  unfolding shutdown_def stop_tasks_def worker_stop_def by (intro ops shutdown_all) (simp add: db_view_def)

end

text \<open>Identities, terminals and the key-value store are in no table that background work writes.\<close>

interpretation access: background_ops "keeps (\<lambda>s. (sh_identities s, sh_terminals s, sh_kv s))"
  by unfold_locales (auto simp: keeps_def db_view_def moves_def zoom_def split: prod.split)

lemma verify_terminal_reads:
  assumes "map_of (sh_kv s) STORE_KEY_JWT_SECRET \<noteq> None"
    and "sh_kv t = sh_kv s" and "sh_terminals t = sh_terminals s"
  shows "fst (verify_terminal_jwt X token t) = fst (verify_terminal_jwt X token s)"
proof (cases token)
  case None
  then show ?thesis by (simp add: verify_terminal_jwt_def act_simps)
next
  case (Some tok)
  obtain v where v: "map_of (sh_kv s) STORE_KEY_JWT_SECRET = Some v" using assms(1) by blast
  show ?thesis
    using assms(2,3)
    by (simp add: verify_terminal_jwt_def act_simps ensure_secret_apply v Some terminals_get_by_id_def
        split: sum.split option.split json.split)
qed

section \<open>Properties\<close>

text \<open>
  C17. No background task changes who may use the shard: whatever rounds of whatever tasks run in
  whatever order, and whether or not they fail, identities, terminals and the key-value store (with the
  JWT secret, the pairing code and the backup passphrase) are what they were; so a terminal's token is
  accepted or refused afterwards exactly as before.
\<close>

theorem background_keeps_access:
  assumes "map_of (sh_kv s) STORE_KEY_JWT_SECRET \<noteq> None"
    and "t = fold (\<lambda>(b, n) u. snd (run_background X b n u)) rounds s"
  shows "sh_identities t = sh_identities s \<and> sh_terminals t = sh_terminals s \<and> sh_kv t = sh_kv s
    \<and> fst (verify_terminal_jwt X token t) = fst (verify_terminal_jwt X token s)"
proof -
  have "(sh_identities (fold (\<lambda>(b, n) u. snd (run_background X b n u)) rounds s),
         sh_terminals (fold (\<lambda>(b, n) u. snd (run_background X b n u)) rounds s),
         sh_kv (fold (\<lambda>(b, n) u. snd (run_background X b n u)) rounds s))
       = (sh_identities s, sh_terminals s, sh_kv s)"
  proof (induction rounds arbitrary: s)
    case Nil
    show ?case by simp
  next
    case (Cons r rounds)
    show ?case
      using Cons.IH [of "snd (run_background X (fst r) (snd r) s)"]
        moves_keeps_snd [OF access.run_background [of X "fst r" "snd r"], of s]
      by (simp add: case_prod_beta)
  qed
  then show ?thesis
    using assms verify_terminal_reads [of s t X token] by simp
qed

lemma background_keeps_access_witness:
  "fst (verify_terminal_jwt sample_ext (Some ''eysecret:t1'')
     (fold (\<lambda>(b, n) u. snd (run_background sample_ext b n u)) [(Installation_Worker, 2), (Ws_Worker, 3)]
       (sample_shard\<lparr>sh_terminals := [sample_terminal], sh_kv := [(STORE_KEY_JWT_SECRET, JStr ''secret'')]\<rparr>)))
   = fst (verify_terminal_jwt sample_ext (Some ''eysecret:t1'')
     (sample_shard\<lparr>sh_terminals := [sample_terminal], sh_kv := [(STORE_KEY_JWT_SECRET, JStr ''secret'')]\<rparr>))"
  by (rule background_keeps_access [THEN conjunct2, THEN conjunct2, THEN conjunct2, OF _ refl]) simp

text \<open>
  C18. A shard that lost its database comes back as the same shard: started on an empty database with
  the snapshot file of the old one and no TinyDB file, it has the old rows and the old default identity,
  creates none of its own, and accepts the tokens of the old terminals as before.
\<close>

theorem startup_restores_shard:
  assumes "db_consistent s" and "find id_is_default (sh_identities s) = Some r" and "identity_of_row X r = Inr i"
    and "json_loads (x_parser X) (x_json_dumps X (snapshot s)) = Some (snapshot s)"
    and "write_db_snapshot X s = (Inr (), t)" and "sh_fs u (snapshot_path X) = sh_fs t (snapshot_path X)"
    and "no_data u" and "sh_fs u (tinydb_path X) = None"
  shows "\<exists>v. seq (init_database X) (init_default_identity X) u = (Inr i, v) \<and> same_data s v
    \<and> (map_of (sh_kv s) STORE_KEY_JWT_SECRET \<noteq> None \<longrightarrow>
        (\<forall>token. fst (verify_terminal_jwt X token v) = fst (verify_terminal_jwt X token s)))"
proof -
  obtain v where v: "restore_db_snapshot X u = (Inr (), v)" "same_data s v"
    using restore_after_write [OF assms(1,4,5,6,7)] by blast
  have "init_database X u = (Inr (), v)"
    using v(1) assms(8) by (simp add: init_database_def tinydb_steps act_simps)
  moreover have "init_default_identity X v = (Inr i, v)"
    using v(2) assms(2,3)
    by (auto simp: init_default_identity_def identities_count_def identities_get_default_def identity_of_def
        same_data_def act_simps)
  ultimately have "seq (init_database X) (init_default_identity X) u = (Inr i, v)"
    by (simp add: act_simps)
  moreover have "fst (verify_terminal_jwt X token v) = fst (verify_terminal_jwt X token s)"
    if "map_of (sh_kv s) STORE_KEY_JWT_SECRET \<noteq> None" for token
    using that v(2) by (intro verify_terminal_reads) (simp_all add: same_data_def)
  ultimately show ?thesis using v(2) by blast
qed

definition owned_shard :: "real shard" where
  "owned_shard = snapshot_shard\<lparr>sh_identities := [sample_identity ''abc'' True]\<rparr>"

definition owned_ext :: "real ext" where
  "owned_ext =
     sample_ext\<lparr>x_parser := sample_parser\<lparr>json_loads := (\<lambda>t. if t = ''j'' then Some (snapshot owned_shard) else None)\<rparr>\<rparr>"

lemma startup_restores_shard_witness:
  "\<exists>t v i. write_db_snapshot owned_ext owned_shard = (Inr (), t)
     \<and> seq (init_database owned_ext) (init_default_identity owned_ext) (sample_shard\<lparr>sh_fs := sh_fs t\<rparr>) = (Inr i, v)
     \<and> i_id i = ''abc'' \<and> same_data owned_shard v"
proof -
  have root: "path_root (cfg owned_ext) = [''r'']" by (simp add: owned_ext_def sample_ext_def sample_cfg_def)
  have p: "snapshot_path owned_ext = [''r'', ''core'', ''db_snapshot.json'']"
    unfolding snapshot_path_def root by code_simp
  have fs: "sh_fs owned_shard = (\<lambda>_. None)" by (simp add: owned_shard_def snapshot_shard_def sample_shard_def)
  obtain t where t: "write_db_snapshot owned_ext owned_shard = (Inr (), t)"
    and tinydb: "sh_fs t (tinydb_path owned_ext) = None"
    by (simp add: write_db_snapshot_def Let_def act_simps p parent_def fs fs_mkdirs_def fs_write_def fs_move_def
        tinydb_path_def root)
  obtain i where i: "identity_of_row owned_ext (sample_identity ''abc'' True) = Inr i" "i_id i = ''abc''"
    by (simp add: identity_of_row_def sample_identity_def validate_email_def owned_ext_def sample_ext_def)
  have find: "find id_is_default (sh_identities owned_shard) = Some (sample_identity ''abc'' True)"
    by (simp add: owned_shard_def sample_identity_def)
  have ok: "db_consistent owned_shard"
    by (simp add: db_consistent_def owned_shard_def snapshot_shard_def sample_shard_def tbl_ok_def dict_ok_def
        empty_serial_def)
  have json: "json_loads (x_parser owned_ext) (x_json_dumps owned_ext (snapshot owned_shard)) = Some (snapshot owned_shard)"
    by (simp add: owned_ext_def sample_ext_def)
  have "no_data (sample_shard\<lparr>sh_fs := sh_fs t\<rparr>)"
    by (simp add: no_data_def sample_shard_def empty_serial_def)
  from startup_restores_shard [OF ok find i(1) json t _ this] show ?thesis
    using t tinydb i(2) by auto
qed

text \<open>
  The welcome message opens the first pairing and only that: while no terminal is paired, the text
  printed shows the code of a fresh pairing code that can be redeemed for ten minutes; once there is a
  terminal no code is shown and none is made.
\<close>

theorem welcome_first_start:
  assumes "print_welcome_log X s = (Inr (), t)"
  shows "\<exists>i template txt e. fst (get_default_identity X s) = Inr i \<and> sh_env t = x_print X txt e
    \<and> (if sh_terminals s = []
       then \<exists>c. x_template X template (welcome_params X i (Some c)) = Inr txt
          \<and> pc_created c = fst (x_time X (sh_env s))
          \<and> (\<forall>u. map_of (sh_kv u) STORE_KEY_PAIRING_CODE = map_of (sh_kv t) STORE_KEY_PAIRING_CODE
                \<and> fst (x_time X (sh_env u)) \<le> pc_created c + 600
               \<longrightarrow> fst (redeem_pairing_code X (pc_code c) u) = Inr ())
       else x_template X template (welcome_params X i None) = Inr txt \<and> sh_kv t = sh_kv s)"
proof -
  obtain q where q: "get_default_identity X s = (q, s)"
    using get_default_identity_state [of X s] by (cases "get_default_identity X s") simp
  then obtain i where i: "get_default_identity X s = (Inr i, s)"
    using assms by (cases q) (simp_all add: print_welcome_log_def act_apply(3))
  then have rest: "bnd (db_terminals terminals_count) (\<lambda>terminal_count.
     bnd (if terminal_count = 0 then bnd (make_pairing_code X (Some (10 * 60))) (\<lambda>c. ret (Some c))
          else ret None) (\<lambda>code.
     bnd (world_res (x_host_read X (x_cwd X @ [''data'', ''freeshard_ascii.jinja'']))) (\<lambda>template.
     bnd (lift_res (x_template X template (welcome_params X i code))) (\<lambda>welcome_log.
     world (\<lambda>e. ((), x_print X welcome_log e)))))) s = (Inr (), t)"
    using assms by (simp add: print_welcome_log_def act_apply(3))
  obtain code s2 where code: "(if sh_terminals s = [] then bnd (make_pairing_code X (Some (10 * 60))) (\<lambda>c. ret (Some c))
          else ret None) s = (Inr code, s2)"
    and tail: "bnd (world_res (x_host_read X (x_cwd X @ [''data'', ''freeshard_ascii.jinja'']))) (\<lambda>template.
     bnd (lift_res (x_template X template (welcome_params X i code))) (\<lambda>welcome_log.
     world (\<lambda>e. ((), x_print X welcome_log e)))) s2 = (Inr (), t)"
    using rest by (auto simp: bnd_Inr_iff terminals_count_def zoom_def act_atoms split: prod.splits)
  obtain template out e where t: "x_template X template (welcome_params X i code) = Inr out"
      "sh_env t = x_print X out e" "sh_kv t = sh_kv s2"
    using tail by (auto simp: bnd_Inr_iff act_atoms world_res_def world_def split: prod.splits)
  show ?thesis
  proof (cases "sh_terminals s = []")
    case True
    then obtain c where c: "make_pairing_code X (Some (10 * 60)) s = (Inr c, s2)" "code = Some c"
      using code by (auto simp: bnd_Inr_iff act_atoms)
    have "fst (redeem_pairing_code X (pc_code c) u) = Inr ()"
      if "map_of (sh_kv u) STORE_KEY_PAIRING_CODE = map_of (sh_kv t) STORE_KEY_PAIRING_CODE"
        and "fst (x_time X (sh_env u)) \<le> pc_created c + 600" for u
      using that make_pairing_code_stores [OF c(1)] t(3)
      by (cases "x_time X (sh_env u)") (simp add: redeem_apply effective_deadline_def)
    then show ?thesis
      using True i t(1,2) c(2) make_pairing_code_stores(3) [OF c(1)]
      by (intro exI [of _ i] exI [of _ template] exI [of _ out] exI [of _ e]) auto
  next
    case False
    then have "code = None" "s2 = s" using code by (simp_all add: act_atoms)
    then show ?thesis
      using False i t by (intro exI [of _ i] exI [of _ template] exI [of _ out] exI [of _ e]) simp
  qed
qed

definition welcome_ext :: "real ext" where
  "welcome_ext = sample_ext\<lparr>x_host_read := (\<lambda>p e. (Inr ''hi'', e))\<rparr>"

lemma welcome_first_start_witness:
  "\<exists>t (c :: pairing_code). print_welcome_log welcome_ext (sample_shard\<lparr>sh_identities := [sample_identity ''abc'' True]\<rparr>) = (Inr (), t)
     \<and> fst (redeem_pairing_code welcome_ext (pc_code c) t) = Inr ()"
proof -
  let ?s = "sample_shard\<lparr>sh_identities := [sample_identity ''abc'' True]\<rparr>"
  obtain t where t: "print_welcome_log welcome_ext ?s = (Inr (), t)" and e: "sh_env t = 0"
    by (simp add: print_welcome_log_def welcome_ext_def sample_ext_def sample_shard_def act_simps
        get_default_identity_def identities_get_default_def sample_identity_def identity_of_def identity_of_row_def
        validate_email_def terminals_count_def make_pairing_code_def now_def world_def world_res_def set_value_def
        kv_set_value_def zoom_def)
  have times: "fst (x_time welcome_ext (sh_env t)) = 0" "fst (x_time welcome_ext (sh_env ?s)) = 0"
    by (simp_all add: e welcome_ext_def sample_ext_def sample_shard_def)
  have "sh_terminals ?s = []" by (simp add: sample_shard_def)
  then obtain c :: pairing_code where "pc_created c = fst (x_time welcome_ext (sh_env ?s))"
      "\<forall>u. map_of (sh_kv u) STORE_KEY_PAIRING_CODE = map_of (sh_kv t) STORE_KEY_PAIRING_CODE
                \<and> fst (x_time welcome_ext (sh_env u)) \<le> pc_created c + 600
               \<longrightarrow> fst (redeem_pairing_code welcome_ext (pc_code c) u) = Inr ()"
    using welcome_first_start [OF t] unfolding if_P [OF \<open>sh_terminals ?s = []\<close>] by blast
  with times t show ?thesis by auto
qed

end
