(* ===== verification/System.thy ===== *)
theory System
  imports Startup
begin

text \<open>
  The whole shard as one transition system: every request the web endpoints answer (the routers under
  \<open>shard_core/web\<close>), a round of every background task, and the tasks these start, in any order.  What
  holds in every state it can reach is proved with the locale \<open>system_ops\<close>.
\<close>

section \<open>Requests\<close>

text \<open>A datatype per router, a constructor per endpoint, with what the endpoint takes from the request.\<close>

datatype internal_request =
    Authenticate_Terminal "string option"
  | Authenticate_Management "string option"
  | Authorize http_request "string option" "string option" "string option"
  | Call_Backend string string "(string \<times> string) list" http_request
  | Call_Peer string string string string string
  | App_Error string int http_request

datatype public_request =
    Health
  | Who_Are_You
  | Who_Am_I "string option"
  | Public_Avatar
  | Pair_Terminal string input_terminal

datatype apps_request =
    List_Apps
  | Get_App string
  | Get_App_Icon string
  | Uninstall_App string
  | Install_App string
  | Reinstall_App string
  | Upload_App path string string

datatype identities_request =
    List_Identities "string option"
  | Get_Identity string
  | Default_Identity
  | Put_Identity input_identity
  | Make_Identity_Default string
  | Get_Avatar string
  | Get_Default_Avatar
  | Put_Avatar string string string
  | Put_Default_Avatar string string
  | Delete_Avatar string
  | Delete_Default_Avatar

datatype clients_request =
    List_Peers "string option"
  | Get_Peer string
  | Put_Peer string "string option"
  | Delete_Peer string
  | List_Terminals
  | Get_Terminal string
  | Get_Terminal_By_Name string
  | Edit_Terminal string input_terminal
  | Delete_Terminal string
  | New_Pairing_Code "int option"

datatype protected_request =
    Apps apps_request
  | Identities identities_request
  | Clients clients_request
  | Backup_Info
  | Backup_Passphrase "string option"
  | Backup_Now
  | Feedback string
  | List_Tours
  | Tour tour_call
  | Management_Profile bool
  | Call_Management string string json
  | Prune_Images
  | Disk_Stats
  | Task_Stats
  | Web_Socket nat "ws_event list"

datatype management_request =
    Management_Install string
  | Notify string
  | Management_Pairing_Code "int option"

datatype request =
    Internal internal_request
  | Public public_request
  | Protected protected_request
  | Management management_request

definition answered :: "('s, 'a) act \<Rightarrow> ('s, unit) act" where
  "answered m = bnd m (\<lambda>_. ret ())"

primrec handle_internal :: "'e ext \<Rightarrow> internal_request \<Rightarrow> ('e shard, unit) act" where
  "handle_internal X (Authenticate_Terminal a) = answered (authenticate_terminal X a)"
| "handle_internal X (Authenticate_Management a) = answered (authenticate_management X a)"
| "handle_internal X (Authorize rq a host uri) = answered (authenticate_and_authorize X rq a host uri)"
| "handle_internal X (Call_Backend url verb ps rq) = answered (call_backend X url verb ps rq)"
| "handle_internal X (Call_Peer app i url verb body) = answered (call_peer X app i url verb body)"
| "handle_internal X (App_Error placeholder st rq) = answered (app_error X placeholder st rq)"

primrec handle_public :: "'e ext \<Rightarrow> public_request \<Rightarrow> ('e shard, unit) act" where
  "handle_public X Health = answered (ret health)"
| "handle_public X Who_Are_You = answered (who_are_you X)"
| "handle_public X (Who_Am_I a) = answered (who_am_i X a)"
| "handle_public X Public_Avatar = answered (meta_default_avatar X)"
| "handle_public X (Pair_Terminal code inp) = answered (add_terminal X code inp)"

primrec handle_apps :: "'e ext \<Rightarrow> apps_request \<Rightarrow> ('e shard, unit) act" where
  "handle_apps X List_Apps = answered (list_all_apps X)"
| "handle_apps X (Get_App n) = answered (get_app X n)"
| "handle_apps X (Get_App_Icon n) = answered (get_app_icon X n)"
| "handle_apps X (Uninstall_App n) = web_uninstall_app X n"
| "handle_apps X (Install_App n) = web_install_app X n"
| "handle_apps X (Reinstall_App n) = web_reinstall_app X n"
| "handle_apps X (Upload_App tmp filename content) = install_custom_app X tmp filename content"

primrec handle_identities :: "'e ext \<Rightarrow> identities_request \<Rightarrow> ('e shard, unit) act" where
  "handle_identities X (List_Identities n) = answered (list_all_identities X n)"
| "handle_identities X (Get_Identity i) = answered (get_identity_by_id X i)"
| "handle_identities X Default_Identity = answered (get_default_identity X)"
| "handle_identities X (Put_Identity inp) = answered (put_identity X inp)"
| "handle_identities X (Make_Identity_Default i) = make_identity_default i"
| "handle_identities X (Get_Avatar i) = answered (get_avatar_by_identity X i)"
| "handle_identities X Get_Default_Avatar = answered (get_default_avatar X)"
| "handle_identities X (Put_Avatar i filename content) = put_avatar X i filename content"
| "handle_identities X (Put_Default_Avatar filename content) = put_default_avatar X filename content"
| "handle_identities X (Delete_Avatar i) = delete_avatar X i"
| "handle_identities X Delete_Default_Avatar = delete_default_avatar X"

primrec handle_clients :: "'e ext \<Rightarrow> clients_request \<Rightarrow> ('e shard, unit) act" where
  "handle_clients X (List_Peers n) = answered (list_all_peers n)"
| "handle_clients X (Get_Peer i) = answered (get_peer X i)"
| "handle_clients X (Put_Peer i n) = answered (put_peer X i n)"
| "handle_clients X (Delete_Peer i) = delete_peer i"
| "handle_clients X List_Terminals = answered list_all_terminals"
| "handle_clients X (Get_Terminal i) = answered (get_terminal_by_id i)"
| "handle_clients X (Get_Terminal_By_Name n) = answered (get_terminal_by_name n)"
| "handle_clients X (Edit_Terminal i inp) = edit_terminal i inp"
| "handle_clients X (Delete_Terminal i) = delete_terminal_by_id i"
| "handle_clients X (New_Pairing_Code d) = answered (new_pairing_code X d)"

primrec handle_protected :: "'e ext \<Rightarrow> protected_request \<Rightarrow> ('e shard, unit) act" where
  "handle_protected X (Apps rq) = handle_apps X rq"
| "handle_protected X (Identities rq) = handle_identities X rq"
| "handle_protected X (Clients rq) = handle_clients X rq"
| "handle_protected X Backup_Info = answered get_backup_info"
| "handle_protected X (Backup_Passphrase i) = answered (web_get_backup_passphrase X i)"
| "handle_protected X Backup_Now = web_start_backup X"
| "handle_protected X (Feedback t) = answered (post_quick_feedback X t)"
| "handle_protected X List_Tours = answered list_tours"
| "handle_protected X (Tour c) = answered (tour_request c)"
| "handle_protected X (Management_Profile refresh) = answered (management_get_profile X refresh)"
| "handle_protected X (Call_Management url verb body) = answered (call_management X url verb body)"
| "handle_protected X Prune_Images = answered (prune_images X)"
| "handle_protected X Disk_Stats = answered get_disk_usage"
| "handle_protected X Task_Stats = answered tasks_stats"
| "handle_protected X (Web_Socket k es) = updates X k es"

primrec handle_management :: "'e ext \<Rightarrow> management_request \<Rightarrow> ('e shard, unit) act" where
  "handle_management X (Management_Install n) = management_install_app X n"
| "handle_management X (Notify ty) = notify ty"
| "handle_management X (Management_Pairing_Code d) = answered (new_pairing_code X d)"

primrec handle_request :: "'e ext \<Rightarrow> request \<Rightarrow> ('e shard, unit) act" where
  "handle_request X (Internal rq) = handle_internal X rq"
| "handle_request X (Public rq) = handle_public X rq"
| "handle_request X (Protected rq) = handle_protected X rq"
| "handle_request X (Management rq) = handle_management X rq"

text \<open>
  A restart finds the tables as they were; the memory of the new process is any, and so are the files,
  except that no TinyDB file is left to migrate.  It is a step of a shard that has an identity; the first
  start is treated below.
\<close>

inductive system_step :: "'e ext \<Rightarrow> 'e shard \<Rightarrow> 'e shard \<Rightarrow> bool" for X where
  Request: "handle_request X rq s = (r, t) \<Longrightarrow> system_step X s t"
| Background: "run_background X b n s = (r, t) \<Longrightarrow> system_step X s t"
| App_Start: "run_background_task X s = (r, t) \<Longrightarrow> system_step X s t"
| Backup_Begin: "backup_task_starts s = (r, t) \<Longrightarrow> system_step X s t"
| Backup_End: "backup_task_ends X s = (r, t) \<Longrightarrow> system_step X s t"
| Shutdown: "shutdown X tasks s = (r, t) \<Longrightarrow> system_step X s t"
| Restart: "sh_identities s \<noteq> [] \<Longrightarrow> db_view m = db_view s \<Longrightarrow> sh_fs m (tinydb_path X) = None \<Longrightarrow>
    startup X m = (r, t) \<Longrightarrow> system_step X s t"

inductive_cases system_stepE: "system_step X s t"

section \<open>Every request, for every relation\<close>

context client_ops
begin

lemma answered: "moves R m \<Longrightarrow> moves R (answered m)"
  unfolding answered_def by (intro requests)

lemma auth_requests:
  "moves R (authenticate_terminal X a)" "moves R (who_am_i X a)"
  by (simp_all add: authenticate_terminal_def who_am_i_def)
    (intro conjI impI requests verify_terminal terminal_auth)+

lemma shared_secret: "moves R (validate_shared_secret X secret)"
  unfolding validate_shared_secret_def refresh_shared_secret_def call_freeshard_controller_def
  by (intro requests write_value) (simp_all add: STORE_KEY_SHARED_KEY_def STORE_KEY_JWT_SECRET_def)

lemma management_auth: "moves R (authenticate_management X a)"
  unfolding authenticate_management_def by (intro requests shared_secret)

lemma peer_by_id: "moves R (get_peer_by_id X i)"
  unfolding get_peer_by_id_def by (intro requests)

lemma peer_auth: "moves R (verify_peer_auth X rq)"
  unfolding verify_peer_auth_def by (intro requests peer_by_id)

lemma auth_state: "moves R (get_auth_state X rq a)"
  unfolding get_auth_state_def by (intro requests verify_terminal peer_auth terminal_auth)

lemma request_received: "moves R (on_request_to_app X app)"
  unfolding on_request_to_app_def request_receiver_def ensure_app_is_running_def update_last_access_def
    record_request_def
  by (intro requests; simp add: db_view_def)+

lemma authorize: "moves R (authenticate_and_authorize X rq a host uri)"
  unfolding authenticate_and_authorize_def match_app_def find_app_def match_path_act_def get_identity_def
  by (intro requests auth_state request_received; simp add: db_view_def)+

lemma forwarded: "moves R (signed_forward X verb url body ps hs)"
  unfolding signed_forward_def get_signature_auth_def by (intro requests)

lemma lru:
  assumes "\<And>k. moves R (f k)" and "\<And>g s. db_view (put g s) = db_view s"
  shows "moves R (lru_call n get put f k)"
  unfolding lru_call_def by (intro requests assms)

lemma error_page: "moves R (app_error X placeholder st rq)"
  unfolding app_error_def get_splash_behaviour_def get_container_status_def data_url_def load_data_url_def
    get_template_splash_def Let_def
  by (intro requests lru) (simp_all add: db_view_def)

lemma internal: "moves R (handle_internal X rq)"
  by (cases rq)
    (auto simp: call_backend_def call_peer_def get_app_for_ip_address_def look_up_ip_address_def Let_def db_view_def
      intro!: answered auth_requests management_auth authorize error_page forwarded lru requests)

lemma avatar: "moves R (send_avatar X i)"
  unfolding send_avatar_def find_avatar_file_def not_found_404_def by (intro requests)

lemma public:
  assumes "\<And>code inp. rq \<noteq> Pair_Terminal code inp"
  shows "moves R (handle_public X rq)"
  using assms
  by (cases rq)
    (auto simp: who_are_you_def meta_default_avatar_def
      intro!: answered auth_requests avatar requests)

lemma enqueued: "moves R (enqueue t)"
  unfolding enqueue_def by (intro requests) (simp add: db_view_def)

lemma store: "moves R (app_exists_in_store X n)" and installed: "moves R (app_exists_in_db n)"
  unfolding app_exists_in_store_def app_exists_in_db_def by (intro requests)+

lemma install_request: "moves R (install_app_from_store X n reason)"
  unfolding install_app_from_store_def by (intro requests store installed enqueued)

lemma uploaded: "moves R (install_custom_app X tmp filename content)"
proof -
  let ?up = "upload_app X (tmp @ [''upload.zip'']) content"
  have "moves R ?up"
    unfolding upload_app_def install_app_from_uploaded_zip_def Let_def by (intro requests installed enqueued)
  moreover have "R t (t\<lparr>sh_fs := fs\<rparr>)" for t :: "'e shard" and fs
    by (rule same_tables) (simp add: db_view_def)
  ultimately have "moves R (\<lambda>s. case ?up s of (r, t) \<Rightarrow> (r, t\<lparr>sh_fs := fs_rmtree tmp (sh_fs t)\<rparr>))"
    by (auto simp: moves_def split: prod.split intro: frame_trans)
  then show ?thesis unfolding install_custom_app_def by (intro requests)
qed

lemma apps: "moves R (handle_apps X rq)"
  by (cases rq)
    (auto simp: list_all_apps_def get_app_def get_app_icon_def web_uninstall_app_def web_install_app_def
      web_reinstall_app_def uninstall_app_def reinstall_app_def
      intro!: answered install_request uploaded enqueued store installed update_status requests)

lemma identity_by_id: "moves R (get_identity_by_id X i)"
  unfolding get_identity_by_id_def by (intro requests)

lemma avatar_files: "moves R (unlink_avatar X i)" "moves R (put_avatar X i f c)"
  unfolding put_avatar_def unlink_avatar_def find_avatar_file_def put_asset_def Let_def
  by (intro requests identity_by_id)+

lemma identities: "moves R (handle_identities X rq)"
  by (cases rq)
    (auto simp: list_all_identities_def get_avatar_by_identity_def get_default_avatar_def put_default_avatar_def
      delete_avatar_def delete_default_avatar_def
      intro!: answered identity_by_id identity_put default_moved avatar avatar_files requests)

lemma clients: "moves R (handle_clients X rq)"
  by (cases rq)
    (auto simp: list_all_peers_def get_peer_def put_peer_def delete_peer_def list_all_terminals_def
      get_terminal_by_id_def get_terminal_by_name_def found_or_404_def new_pairing_code_def
      intro!: answered peer_by_id peer_meta edited_terminal deleted_terminal new_code requests)

lemma socket: "moves R (updates X k es)"
proof -
  have "moves R (listen k es)"
    by (induction k es rule: listen.induct)
      (auto simp: disconnect_def db_view_def intro!: requests)
  then show ?thesis unfolding updates_def connect_def by (intro requests) (simp add: db_view_def)
qed

lemma passphrase_shown: "moves R (web_get_backup_passphrase X i)"
  unfolding web_get_backup_passphrase_def get_backup_passphrase_def
  by (intro requests write_value) (simp_all add: STORE_KEY_JWT_SECRET_def STORE_KEY_BACKUP_PASSPHRASE_LAST_ACCESS_def)

lemma backup_shown: "moves R get_backup_info"
  unfolding get_backup_info_def get_latest_backup_report_def by (intro requests)

lemma tour: "moves R (tour_request c)"
  by (cases c) (auto simp: put_tour_def get_tour_def reset_tours_def intro!: requests)

lemma protected: "moves R (handle_protected X rq)"
  by (cases rq)
    (auto simp: web_start_backup_def post_quick_feedback_def list_tours_def management_get_profile_def get_profile_def
      call_management_def call_freeshard_controller_def prune_images_def get_disk_usage_def tasks_stats_def
      intro!: answered apps identities clients backup_shown passphrase_shown begin_backup tour refreshed_profile
        prune socket requests)

lemma management: "moves R (handle_management X rq)"
  by (cases rq)
    (auto simp: management_install_app_def notify_def new_pairing_code_def
      intro!: answered install_request new_code requests)

lemma request:
  assumes "\<And>code inp. rq \<noteq> Public (Pair_Terminal code inp)"
  shows "moves R (handle_request X rq)"
  using assms by (cases rq) (simp_all add: internal public protected management)

text \<open>Starting, after the database and the default identity are there\<close>

lemma started:
  assumes "startup X s = (r, t)" and "init_database X s = (Inr (), v)" and "init_default_identity X v = (Inr i, w)"
  shows "R w t"
proof -
  let ?rest = "seq (write_traefik_dyn_config X)
     (seq (render_all_docker_compose_templates X)
     (seq (login_docker_registries X)
     (seq reconcile_interrupted_uninstalls
     (seq (refresh_init_apps X)
     (seq (ensure_backup_passphrase X)
     (try_except (seq (refresh_profile X) (ret ()))
        (\<lambda>e. if profile_error e then ret () else raise e)))))))"
  let ?tail = "bnd (lift_res (make_background_tasks X)) (\<lambda>tasks.
      seq (start_tasks tasks)
      (seq (print_welcome_log X) (ret tasks)))"
  have init: "moves R (refresh_init_apps X)"
    unfolding refresh_init_apps_def
    by (intro requests install_request write_value)
      (simp add: STORE_KEY_INITIAL_APPS_INSTALLED_def STORE_KEY_JWT_SECRET_def)
  have numbers: "moves R (generate_passphrase_numbers X n)" for n
    by (induction n) (auto intro!: requests)
  have passphrase: "moves R (ensure_backup_passphrase X)"
    unfolding ensure_backup_passphrase_def
    by (intro requests numbers write_value)
      (simp add: STORE_KEY_BACKUP_PASSPHRASE_def STORE_KEY_JWT_SECRET_def)
  have "moves R ?rest"
    unfolding render_all_docker_compose_templates_def login_docker_registries_def
      reconcile_interrupted_uninstalls_def
    by (intro requests init passphrase refreshed_profile enqueued)
  moreover have "moves R ?tail"
    unfolding start_tasks_def worker_start_def print_welcome_log_def
    by (intro requests new_code) (simp_all add: db_view_def)
  ultimately have "moves R (seq ?rest ?tail)" by (rule moves_seq)
  moreover have "seq ?rest ?tail w = (r, t)"
    using assms by (simp add: startup_def prepare_def act_apply(4))
  ultimately show ?thesis by (rule movesD)
qed

lemma restarted:
  assumes "sh_identities s \<noteq> []" and "db_view m = db_view s" and "sh_fs m (tinydb_path X) = None"
    and "startup X m = (r, t)"
  shows "R s t"
proof -
  have m: "sh_identities m \<noteq> []" "sh_fs m (tinydb_path X) = None"
    using assms(1-3) by (simp_all add: db_view_def)
  have "R s m" using assms(2) by (rule same_tables)
  moreover have "R m t"
  proof -
    have db: "init_database X m = (Inr (), m)"
      using m by (simp add: init_database_def tinydb_steps restore_db_snapshot_def transaction_def
          db_already_populated_def act_simps)
    have "snd (init_default_identity X m) = m"
      using m(1)
      by (simp add: init_default_identity_def identities_count_def identities_get_default_def identity_of_def
          act_simps split: option.split)
    then obtain q where q: "init_default_identity X m = (q, m)" by (metis prod.collapse)
    show ?thesis
    proof (cases q)
      case (Inl e)
      then have "t = m" using assms(4) db q by (simp add: startup_def prepare_def act_apply(4))
      then show ?thesis by (simp add: frame_refl)
    next
      case (Inr i)
      then show ?thesis using started [OF assms(4) db] q by simp
    qed
  qed
  ultimately show ?thesis by (rule frame_trans)
qed

lemma step_unless_pairing:
  assumes "system_step X s t"
    and pair: "\<And>code inp r. handle_request X (Public (Pair_Terminal code inp)) s \<noteq> (r, t)"
  shows "R s t"
  using assms(1)
proof (cases rule: system_step.cases)
  case (Request rq r)
  then have "rq \<noteq> Public (Pair_Terminal code inp)" for code inp using pair by auto
  then have "moves R (handle_request X rq)" by (rule request)
  then show ?thesis using Request by (rule movesD)
qed (blast intro: movesD run_background run_started_app backup_tasks shutdown restarted)+

end

context system_ops
begin

lemma step:
  assumes "system_step X s t"
  shows "R s t"
proof (cases "\<exists>code inp r. handle_request X (Public (Pair_Terminal code inp)) s = (r, t)")
  case True
  moreover have "moves R (handle_request X (Public (Pair_Terminal code inp)))" for code inp
    by (simp add: answered pair_terminal)
  ultimately show ?thesis by (blast intro: movesD)
next
  case False
  then show ?thesis using step_unless_pairing [OF assms] by blast
qed

lemma steps:
  assumes "(system_step X)\<^sup>*\<^sup>* s t"
  shows "R s t"
  using assms by induction (auto intro: frame_refl frame_trans step)

end


section \<open>Sound databases\<close>

text \<open>Every table has its primary keys once, and exactly one identity is the default one.\<close>

definition sound :: "'e shard \<Rightarrow> bool" where
  "sound s \<longleftrightarrow> keys_unique s \<and> one_default (sh_identities s)"

lemma sound_split:
  "sound s \<longleftrightarrow>
     tbl_ok ia_name (sh_apps s) \<and> one_default (sh_identities s) \<and> tbl_ok tm_id (sh_terminals s)
     \<and> tbl_ok pe_id (sh_peers s) \<and> tbl_ok to_name (sh_tours s) \<and> dict_ok (sh_kv s)
     \<and> tbl_ok bk_id (se_rows (sh_backups s)) \<and> tbl_ok us_id (se_rows (sh_usage s))"
  by (auto simp: sound_def keys_unique_def one_default_def)

lemma sound_table:
  "(\<And>t. tbl_ok ia_name t \<Longrightarrow> tbl_ok ia_name (snd (ma t))) \<Longrightarrow> moves (preserves sound) (db_apps ma)"
  "(\<And>t. one_default t \<Longrightarrow> one_default (snd (mi t))) \<Longrightarrow> moves (preserves sound) (db_identities mi)"
  "(\<And>t. tbl_ok tm_id t \<Longrightarrow> tbl_ok tm_id (snd (mt t))) \<Longrightarrow> moves (preserves sound) (db_terminals mt)"
  "(\<And>t. tbl_ok pe_id t \<Longrightarrow> tbl_ok pe_id (snd (mp t))) \<Longrightarrow> moves (preserves sound) (db_peers mp)"
  "(\<And>t. tbl_ok to_name t \<Longrightarrow> tbl_ok to_name (snd (mr t))) \<Longrightarrow> moves (preserves sound) (db_tours mr)"
  "(\<And>t. dict_ok t \<Longrightarrow> dict_ok (snd (mk t))) \<Longrightarrow> moves (preserves sound) (db_kv mk)"
  "(\<And>t. tbl_ok bk_id (se_rows t) \<Longrightarrow> tbl_ok bk_id (se_rows (snd (mb t)))) \<Longrightarrow> moves (preserves sound) (db_backups mb)"
  "(\<And>t. tbl_ok us_id (se_rows t) \<Longrightarrow> tbl_ok us_id (se_rows (snd (mu t)))) \<Longrightarrow> moves (preserves sound) (db_usage mu)"
  by (simp_all add: moves_def preserves_def sound_split zoom_def split: prod.split) (metis snd_conv)+

lemma set_clauses_key:
  assumes "\<And>k v f r. col k v = Inr f \<Longrightarrow> key (f r) = key r" and "set_clauses col d = Inr f"
  shows "key (f r) = key r"
  using assms(2)
proof (induction d arbitrary: f r)
  case (Cons kv d)
  then show ?case
    using assms(1) by (cases kv) (fastforce split: sum.splits)
qed auto

lemma column_keys:
  "set_identity_column k v = Inr f \<Longrightarrow> id_id (f r) = id_id r"
  "set_peer_column k v = Inr g \<Longrightarrow> pe_id (g p) = pe_id p"
  by (auto simp: set_identity_column_def set_peer_column_def split: if_splits sum.splits json.splits)

lemma set_clauses_columns:
  assumes "profile_columns u" and "set_clauses set_identity_column u = Inr f"
  shows "id_is_default (f r) = id_is_default r" and "id_private_key (f r) = id_private_key r"
proof -
  have "id_is_default (f r) = id_is_default r \<and> id_private_key (f r) = id_private_key r"
    using assms
  proof (induction u arbitrary: f r)
    case (Cons kv d)
    then show ?case
      by (cases kv) (auto simp: profile_columns_def set_identity_column_def split: sum.splits)
  qed auto
  then show "id_is_default (f r) = id_is_default r" and "id_private_key (f r) = id_private_key r" by simp_all
qed

lemma clauses_keys:
  "set_clauses set_identity_column d = Inr f \<Longrightarrow> id_id (f r) = id_id r"
  "set_clauses set_peer_column d = Inr g \<Longrightarrow> pe_id (g p) = pe_id p"
  by (rule set_clauses_key [where key = id_id and col = set_identity_column]; simp add: column_keys)
    (rule set_clauses_key [where key = pe_id and col = set_peer_column]; simp add: column_keys)

lemma one_default_map:
  assumes "\<And>r. id_id (f r) = id_id r" and "\<And>r. id_is_default (f r) = id_is_default r"
  shows "one_default (map f t) = one_default t"
  by (simp add: one_default_def tbl_ok_def comp_def filter_map assms)

lemma sound_identity_fields:
  assumes "profile_columns u" and "one_default t"
  shows "one_default (snd (identities_update i u t))"
proof (cases "set_clauses set_identity_column u")
  case (Inl e)
  then show ?thesis using assms(2) by (simp add: identities_update_def act_simps)
next
  case (Inr f)
  have "one_default (map (\<lambda>r. if id_id r = i then f r else r) t) = one_default t"
    by (rule one_default_map) (simp_all add: clauses_keys(1) [OF Inr] set_clauses_columns [OF assms(1) Inr])
  with Inr assms(2) show ?thesis
    by (simp add: identities_update_def act_simps identities_get_by_id_def tbl_update_def Let_def)
qed

lemma sound_default: "moves (preserves sound) (make_default i)"
  by (rule movesI)
    (auto simp: preserves_def make_default_apply sound_split moved_mark(1) simp del: map_map split: option.split)

lemma sound_peer_update:
  assumes "tbl_ok pe_id t"
  shows "tbl_ok pe_id (snd (peers_update_by_id i u t))"
    and "tbl_ok pe_id (snd (peers_update_by_id_prefix i u t))"
proof -
  have "tbl_ok pe_id (map (\<lambda>r. if P r then f r else r) t)" if "set_clauses set_peer_column u = Inr f" for f P
    using assms clauses_keys(2) [OF that] by (subst tbl_ok_map) simp_all
  then show "tbl_ok pe_id (snd (peers_update_by_id i u t))"
    and "tbl_ok pe_id (snd (peers_update_by_id_prefix i u t))"
    using assms
    by (cases "set_clauses set_peer_column u";
        simp add: peers_update_by_id_def peers_update_by_id_prefix_def act_simps tbl_update_def Let_def)+
qed

lemma terminal_columns_id: "tm_id (fold set_terminal_column cs r) = tm_id r"
proof -
  have "tm_id (set_terminal_column c q) = tm_id q" for c q by (cases c) simp_all
  then show ?thesis by (induction cs arbitrary: r) simp_all
qed

lemma sound_terminal_update: "tbl_ok tm_id t \<Longrightarrow> tbl_ok tm_id (snd (terminals_update i cs t))"
  by (auto simp: terminals_update_def terminals_get_by_id_def act_simps tbl_update_def Let_def terminal_columns_id
      intro!: tbl_ok_map [THEN iffD2])

lemma sound_upsert: "tbl_ok key t \<Longrightarrow> tbl_ok key (snd (tbl_upsert key r t))"
proof -
  have "map key (map (\<lambda>q. if key q = key r then r else q) t) = map key t" by simp
  then show "tbl_ok key t \<Longrightarrow> tbl_ok key (snd (tbl_upsert key r t))"
    by (auto simp: tbl_upsert_def tbl_ok_snoc simp del: map_map split: option.split) (simp add: tbl_ok_def del: map_map)
qed

lemma sound_identity_insert: "\<not> id_is_default d \<Longrightarrow> one_default t \<Longrightarrow> one_default (snd (identities_insert d t))"
  using identities_table.ok_ins [of t d]
  by (auto simp: one_default_def identities_insert_def tbl_insert_def)

lemma sound_values: "moves (preserves sound) (set_value k v)" "moves (preserves sound) (remove_value k)"
  unfolding set_value_def remove_value_def
  by (intro sound_table preserves.moves_rules; simp add: kv_set_value_def kv_remove_value_def act_simps)+

interpretation sound: system_ops "preserves sound"
proof unfold_locales
  show "preserves sound s t" if "db_view t = db_view s" for s t :: "'a shard"
    using that by (simp add: db_view_def preserves_def sound_split)
  show "moves (preserves sound) (db_apps (apps_update_status n st))"
    and "moves (preserves sound) (db_apps (apps_update_last_access n time))" for n st time
    by (auto intro!: sound_table simp: apps_update_status_def apps_update_last_access_def apps_table.ok_upd)
  show "moves (preserves sound) (db_apps (apps_remove n))" for n
    by (auto intro!: sound_table simp: apps_remove_def act_simps tbl_delete_def tbl_ok_def distinct_map_filter)
  show "moves (preserves sound) (db_apps (apps_insert a))" for a
    by (auto intro!: sound_table simp: apps_insert_def apps_table.ok_ins)
  show "moves (preserves sound) (db_peers (peers_update_by_id i d))"
    and "moves (preserves sound) (db_peers (peers_update_by_id_prefix i d))" for i d
    by (auto intro!: sound_table sound_peer_update)
  show "moves (preserves sound) (db_peers (peers_insert p))" for p
    by (auto intro!: sound_table simp: peers_insert_def peers_table.ok_ins)
  show "moves (preserves sound) (db_peers (peers_remove_by_id_prefix i))" for i
    by (auto intro!: sound_table simp: peers_remove_by_id_prefix_def tbl_delete_def tbl_ok_def distinct_map_filter)
  show "moves (preserves sound) (db_usage (usage_insert time apps))" for time apps
    by (auto intro!: sound_table serial_insert_appends(2) simp: usage_insert_def)
  show "moves (preserves sound) (db_backups (backups_insert r))" for r
    by (auto intro!: sound_table serial_insert_appends(2) simp: backups_insert_def)
  show "moves (preserves sound) (db_identities (identities_insert d))" if "\<not> id_is_default d" for d
    using that by (auto intro!: sound_table sound_identity_insert)
  show "moves (preserves sound) (db_identities (identities_update i u))" if "profile_columns u" for i u
    using that by (auto intro!: sound_table sound_identity_fields)
  show "moves (preserves sound) (db_terminals (terminals_insert tm))" for tm
    by (auto intro!: sound_table simp: terminals_insert_def terminals_table.ok_ins)
  show "moves (preserves sound) (db_terminals (terminals_update i cs))" for i cs
    by (auto intro!: sound_table sound_terminal_update)
  show "moves (preserves sound) (db_terminals (terminals_remove i))" for i
    by (auto intro!: sound_table simp: terminals_remove_def act_simps tbl_delete_def tbl_ok_def distinct_map_filter)
  show "moves (preserves sound) (db_tours (tours_upsert tour))" for tour
    by (auto intro!: sound_table sound_upsert simp: tours_upsert_def)
  show "moves (preserves sound) (db_tours tours_truncate)"
    by (auto intro!: sound_table simp: tours_truncate_def act_simps tbl_ok_def)
  show "moves (preserves sound) (ensure_jwt_secret X)" for X :: "'a ext"
    by (rule movesI)
      (auto simp: preserves_def ensure_secret_apply sound_split split: option.split prod.split)
qed (rule sound_default sound_values)+

text \<open>The secret of the tokens, once it is there, stays.\<close>

definition keeps_secret :: "'e shard \<Rightarrow> 'e shard \<Rightarrow> bool" where
  "keeps_secret s t \<longleftrightarrow>
     (\<forall>v. map_of (sh_kv s) STORE_KEY_JWT_SECRET = Some v \<longrightarrow> map_of (sh_kv t) STORE_KEY_JWT_SECRET = Some v)"

lemma keeps_secret_kv: "moves (keeps sh_kv) m \<Longrightarrow> moves keeps_secret m"
  by (simp add: moves_def keeps_def keeps_secret_def)

interpretation secret: system_ops keeps_secret
proof unfold_locales
  show "moves keeps_secret (make_default i)" for i
    by (rule movesI) (simp add: keeps_secret_def make_default_apply split: option.split)
  show "moves keeps_secret (ensure_jwt_secret X)" for X :: "'a ext"
    by (rule movesI) (simp add: keeps_secret_def ensure_secret_apply split: option.split)
  show "moves keeps_secret (set_value k v)" if "k \<noteq> STORE_KEY_JWT_SECRET" for k v
    using that by (intro movesI) (simp add: keeps_secret_def set_value_def kv_set_value_def act_simps)
  show "moves keeps_secret (remove_value k)" if "k \<noteq> STORE_KEY_JWT_SECRET" for k
    using that by (intro movesI) (simp add: keeps_secret_def remove_value_def kv_remove_value_def act_simps)
qed (auto simp: keeps_secret_def db_view_def intro!: keeps_secret_kv moves_keeps_zoom)

text \<open>The terminals that are there were there before.\<close>

definition no_new_terminal :: "'e shard \<Rightarrow> 'e shard \<Rightarrow> bool" where
  "no_new_terminal s t \<longleftrightarrow>
     (\<forall>i. tbl_find tm_id i (sh_terminals s) = None \<longrightarrow> tbl_find tm_id i (sh_terminals t) = None)"

lemma no_new_terminal_kept: "moves (keeps sh_terminals) m \<Longrightarrow> moves no_new_terminal m"
  by (simp add: moves_def keeps_def no_new_terminal_def)

interpretation unpaired: client_ops no_new_terminal
proof unfold_locales
  show "moves no_new_terminal (make_default i)" for i
    by (rule no_new_terminal_kept, rule movesI) (simp add: keeps_def make_default_apply split: option.split)
  show "moves no_new_terminal (ensure_jwt_secret X)" for X :: "'a ext"
    by (rule no_new_terminal_kept, rule movesI) (simp add: keeps_def ensure_secret_apply split: option.split prod.split)
  show "moves no_new_terminal (db_terminals (terminals_update i cs))" for i cs
    by (rule movesI)
      (simp add: no_new_terminal_def terminals_update_def terminals_get_by_id_def act_simps tbl_update_def Let_def
        tbl_find_map terminal_columns_id)
  show "moves no_new_terminal (db_terminals (terminals_remove i))" for i
    by (rule movesI) (simp add: no_new_terminal_def terminals_remove_def tbl_delete_def act_simps tbl_find_filter)
qed (auto simp: no_new_terminal_def db_view_def
    intro!: no_new_terminal_kept moves_keeps_zoom moves_keeps_set_value
    simp: remove_value_def)

text \<open>An identity keeps its id and its private key.\<close>

definition keeps_keys :: "'e shard \<Rightarrow> 'e shard \<Rightarrow> bool" where
  "keeps_keys s t \<longleftrightarrow>
     (\<forall>i r. tbl_find id_id i (sh_identities s) = Some r \<longrightarrow>
        (\<exists>q. tbl_find id_id i (sh_identities t) = Some q \<and> id_private_key q = id_private_key r))"

lemma keeps_keys_kept: "moves (keeps sh_identities) m \<Longrightarrow> moves keeps_keys m"
  by (simp add: moves_def keeps_def keeps_keys_def)

lemma keeps_keys_map:
  assumes "\<And>r. id_id (f r) = id_id r" and "\<And>r. id_private_key (f r) = id_private_key r"
  shows "keeps_keys s (s\<lparr>sh_identities := map f (sh_identities s)\<rparr>)"
proof -
  have "tbl_find id_id i (map f rs) = map_option f (tbl_find id_id i rs)" for i rs
    using assms(1) by (induction rs) (auto simp: tbl_find_def)
  then show ?thesis using assms(2) by (simp add: keeps_keys_def)
qed

interpretation keys: system_ops keeps_keys
proof unfold_locales
  show "keeps_keys s u" if "keeps_keys s t" and "keeps_keys t u" for s t u :: "'a shard"
    unfolding keeps_keys_def
  proof (intro allI impI)
    fix i r
    assume "tbl_find id_id i (sh_identities s) = Some r"
    then obtain q where "tbl_find id_id i (sh_identities t) = Some q" "id_private_key q = id_private_key r"
      using \<open>keeps_keys s t\<close> unfolding keeps_keys_def by blast
    moreover from this(1) obtain p where "tbl_find id_id i (sh_identities u) = Some p" "id_private_key p = id_private_key q"
      using \<open>keeps_keys t u\<close> unfolding keeps_keys_def by blast
    ultimately show "\<exists>q. tbl_find id_id i (sh_identities u) = Some q \<and> id_private_key q = id_private_key r"
      by simp
  qed
  show "moves keeps_keys (make_default i :: ('a shard, unit) act)" for i
  proof (rule movesI)
    fix s :: "'a shard"
    have "keeps_keys s (s\<lparr>sh_identities := map (\<lambda>r. mark i (unmark k r)) (sh_identities s)\<rparr>)" for k
      by (rule keeps_keys_map) (simp_all add: mark_def unmark_def)
    then show "keeps_keys s (snd (make_default i s))"
      by (auto simp: keeps_keys_def make_default_apply comp_def split: option.split)
  qed
  show "moves keeps_keys (ensure_jwt_secret X)" for X :: "'a ext"
    by (rule keeps_keys_kept, rule movesI) (simp add: keeps_def ensure_secret_apply split: option.split prod.split)
  show "moves keeps_keys (db_identities (identities_insert d))" for d
    by (rule movesI)
      (auto simp: keeps_keys_def identities_insert_def tbl_insert_def zoom_def tbl_find_snoc split: option.split)
  show "moves keeps_keys (db_identities (identities_update i u) :: ('a shard, identity_row option) act)" if "profile_columns u" for i u
  proof (rule movesI)
    fix s :: "'a shard"
    show "keeps_keys s (snd (db_identities (identities_update i u) s))"
    proof (cases "set_clauses set_identity_column u")
      case (Inl e)
      then show ?thesis by (simp add: identities_update_def act_simps keeps_keys_def zoom_def)
    next
      case (Inr f)
      have "keeps_keys s (s\<lparr>sh_identities := map (\<lambda>r. if id_id r = i then f r else r) (sh_identities s)\<rparr>)"
        by (rule keeps_keys_map) (simp_all add: clauses_keys(1) [OF Inr] set_clauses_columns(2) [OF that Inr])
      then show ?thesis
        using Inr by (simp add: identities_update_def act_simps identities_get_by_id_def tbl_update_def Let_def zoom_def keeps_keys_def)
    qed
  qed
qed (auto simp: keeps_keys_def db_view_def remove_value_def
    intro!: keeps_keys_kept moves_keeps_zoom moves_keeps_set_value)

section \<open>Properties\<close>

lemma first_identity:
  assumes "keys_unique v" and "sh_identities v = [] \<or> one_default (sh_identities v)"
    and "init_default_identity X v = (Inr i, w)"
  shows "sound w"
proof (cases "sh_identities v = []")
  case True
  have new: "db_view u = db_view v" if "create_identity X n d e v = (q, u)" for n d e q u
  proof -
    have "quiet (create_identity X n d e)"
      unfolding create_identity_def by (intro keeps.moves_rules quiet_basic)
    then show ?thesis using that by (rule moves_keepsD)
  qed
  define about where "about = Some (CHR 0x22 # ''Noone wants to manage their own server'' @
                  [CHR 0x22, CHR 0x0A, CHR 0x0A] @ ''Old outdated saying'')"
  have count: "db_identities identities_count v = (Inr (length (sh_identities v)), v)"
    by (simp add: identities_count_def zoom_def gets_def)
  have "bnd (create_identity X (Some ''Shard Owner'') about None) (\<lambda>i.
         bnd (ret (i\<lparr>i_is_default := True\<rparr>)) (\<lambda>d.
         seq (db_identities (identities_insert (row_of_identity d)))
         (seq on_identity_update
         (ret d)))) v = init_default_identity X v"
    using True count unfolding about_def by (simp add: init_default_identity_def act_apply(3))
  also have "\<dots> = (Inr i, w)" by (rule assms(3))
  finally obtain d u where u: "create_identity X (Some ''Shard Owner'') about None v = (Inr d, u)"
    and w: "w = u\<lparr>sh_identities := sh_identities u @ [row_of_identity (d\<lparr>i_is_default := True\<rparr>)], sh_identity_cache := None\<rparr>"
    by (auto simp: bnd_Inr_iff seq_Inr_iff act_atoms zoom_def identities_insert_def tbl_insert_def on_identity_update_def
        invalidate_identity_cache_def split: if_splits)
  show ?thesis
    using new [OF u] assms(1) True
    by (simp add: w sound_def keys_unique_def one_default_def db_view_def row_of_identity_def tbl_ok_def)
next
  case False
  then have "w = v"
    using assms(3)
    by (auto simp: init_default_identity_def identities_count_def identities_get_default_def identity_of_def act_simps
        split: option.splits sum.splits)
  then show ?thesis using assms(1,2) False by (simp add: sound_def)
qed

text \<open>
  C2. Whatever the shard does, its database stays sound: once the database is initialised with distinct
  keys and no identity or one default identity, then after the start and after any sequence of requests,
  background work, shutdowns and restarts, whether they succeed or fail, every table has distinct keys
  and there is exactly one default identity.
\<close>

theorem system_stays_sound:
  assumes "init_database X s = (Inr (), v)" and "keys_unique v" and "sh_identities v = [] \<or> one_default (sh_identities v)"
    and "init_default_identity X v = (Inr i, w)" and "startup X s = (r, t)" and "(system_step X)\<^sup>*\<^sup>* t u"
  shows "keys_unique u \<and> one_default (sh_identities u)"
proof -
  have "sound w" using assms(2-4) by (rule first_identity)
  moreover have "preserves sound w t" using assms(5,1,4) by (rule sound.started)
  moreover have "preserves sound t u" using assms(6) by (rule sound.steps)
  ultimately show ?thesis by (simp add: preserves_def sound_def)
qed

text \<open>
  C3. Given that the JWT library decodes what it encoded with the same secret: the token that
  \<open>POST /pair/terminal\<close> hands out, bare or after \<open>Bearer\<close>, is accepted in every later state of the
  shard for exactly as long as the terminal is in the table; no request, background work or restart
  in between invalidates it.
\<close>

theorem token_valid_until_removed:
  assumes "jwt_roundtrip X" and "add_terminal X code inp s = (Inr (tok, dm), t)"
    and "(system_step X)\<^sup>*\<^sup>* t u" and "tok' \<in> {tok, ''Bearer '' @ tok}"
  shows "\<exists>r. sh_terminals t = sh_terminals s @ [r] \<and> tm_name r = it_name inp
    \<and> verify_terminal_jwt X (Some tok') u =
        (case tbl_find tm_id (tm_id r) (sh_terminals u) of None \<Rightarrow> (Inl InvalidJwt, u) | Some q \<Rightarrow> (Inr q, u))"
proof -
  obtain s1 s2 s3 r where st: "redeem_pairing_code X code s = (Inr (), s1)"
      "create_terminal X (it_name inp) s1 = (Inr r, s2)"
      "terminals_insert r (sh_terminals s2) = (Inr r, sh_terminals s3)"
      "s3 = s2\<lparr>sh_terminals := sh_terminals s2 @ [r]\<rparr>" "issue_token X r s3 = (Inr (tok, dm), t)"
    using assms(2) by (rule add_terminal_steps)
  obtain b s4 s5 where jwt: "create_terminal_jwt X (tm_id r) s4 = (Inr tok, s5)"
      "seq on_terminals_update (seq (on_terminal_add r)
         (seq (if b then async_on_first_terminal_add X else ret ()) (ret (tok, dm)))) s5 = (Inr (tok, dm), t)"
    using st(5) by (auto simp: bnd_Inr_iff seq_Inr_iff act_atoms)
  have "moves keeps_secret (seq on_terminals_update (seq (on_terminal_add r)
         (seq (if b then async_on_first_terminal_add X else ret ()) (ret (tok, dm)))))"
    unfolding on_terminal_add_def
    by (intro secret.requests secret.terminals_announced secret.first_terminal)
  then have "keeps_secret s5 t" using jwt(2) by (rule movesD)
  moreover have "keeps_secret t u" using assms(3) by (rule secret.steps)
  ultimately have "map_of (sh_kv u) STORE_KEY_JWT_SECRET = map_of (sh_kv s5) STORE_KEY_JWT_SECRET"
    using create_jwt_secret [OF jwt(1)] by (auto simp: keeps_secret_def)
  from terminal_jwt_accepted [OF assms(1) jwt(1) this assms(4)]
  show ?thesis
    using redeemed [OF st(1)] created_terminal [OF st(2)] issue_token_keeps [OF st(5)] st(4)
    by (intro exI [of _ r]) simp
qed

text \<open>The code that can be redeemed now\<close>

definition open_code :: "'e ext \<Rightarrow> string \<Rightarrow> 'e shard \<Rightarrow> bool" where
  "open_code X code s \<longleftrightarrow>
     (case map_of (sh_kv s) STORE_KEY_PAIRING_CODE of
        None \<Rightarrow> False
      | Some v \<Rightarrow>
          (case pairing_code_of v of
             Inl _ \<Rightarrow> False
           | Inr c \<Rightarrow> pc_code c = code \<and> fst (x_time X (sh_env s)) \<le> pc_valid_until c))"

lemma redeem_cases:
  obtains t where "redeem_pairing_code X code s = (Inr (), t)" and "open_code X code s"
    and "sh_terminals t = sh_terminals s" and "map_of (sh_kv t) STORE_KEY_PAIRING_CODE = None"
  | e t where "redeem_pairing_code X code s = (Inl e, t)" and "sh_terminals t = sh_terminals s"
  by (cases "redeem_pairing_code X code s")
    (auto simp: redeem_apply open_code_def split: option.splits sum.splits exn.splits if_splits prod.splits)

lemma pairing_adds:
  assumes "handle_request X (Public (Pair_Terminal code inp)) s = (q, t)"
    and "tbl_find tm_id i (sh_terminals s) = None" and "tbl_find tm_id i (sh_terminals t) \<noteq> None"
  shows "open_code X code s \<and> map_of (sh_kv t) STORE_KEY_PAIRING_CODE = None"
proof -
  obtain q' where add: "add_terminal X code inp s = (q', t)"
    using assms(1) by (cases "add_terminal X code inp s") (auto simp: answered_def act_apply(3) ret_def split: sum.splits)
  have new: "sh_terminals t \<noteq> sh_terminals s" using assms(2,3) by auto
  show ?thesis
  proof (cases rule: redeem_cases [of X code s])
    case (1 s1)
    obtain c s2 where c: "create_terminal X (it_name inp) s1 = (c, s2)" by (meson surj_pair)
    have s2: "sh_terminals s2 = sh_terminals s1" "sh_kv s2 = sh_kv s1"
      using c by (auto simp: create_terminal_def act_simps now_apply world_apply split: prod.splits sum.splits)
    obtain n where n: "c = Inr n"
      using add new 1 c s2 by (cases c) (auto simp: add_terminal_def act_simps)
    obtain r s3 where ins: "db_terminals (terminals_insert n) s2 = (r, s3)" by (meson surj_pair)
    then have s3: "sh_kv s3 = sh_kv s2" "(\<exists>e. r = Inl e) \<Longrightarrow> sh_terminals s3 = sh_terminals s2"
      by (auto simp: zoom_def terminals_insert_def tbl_insert_def split: if_splits)
    have "add_terminal X code inp s = (case r of Inl e \<Rightarrow> (Inl e, s3) | Inr _ \<Rightarrow> issue_token X n s3)"
      using 1(1) c n ins by (simp add: add_terminal_def try_except_def act_apply(3,4) split: sum.split)
    with add new 1(3) s2(1) s3(2) obtain "issue_token X n s3 = (q', t)"
      by (cases r) auto
    then show ?thesis
      using issue_token_keeps(2) [of X n s3 q' t] 1(2,4) s2(2) s3(1) by simp
  next
    case (2 e s1)
    then have "sh_terminals t = sh_terminals s"
      using add by (auto simp: add_terminal_def try_except_def act_simps split: exn.splits)
    with new show ?thesis by simp
  qed
qed

text \<open>
  C4. A terminal can only come from pairing: if a terminal is in the table of a later state of the shard and
  was not in the table of an earlier one, then in between \<open>POST /pair/terminal\<close> was called with the code that
  was stored at that time and not yet expired, this call brought the terminal in, and it used up the code.
\<close>

theorem only_pairing_adds_terminals:
  assumes "(system_step X)\<^sup>*\<^sup>* s t"
    and "tbl_find tm_id i (sh_terminals s) = None" and "tbl_find tm_id i (sh_terminals t) \<noteq> None"
  shows "\<exists>a b q code inp. (system_step X)\<^sup>*\<^sup>* s a \<and> (system_step X)\<^sup>*\<^sup>* b t
    \<and> handle_request X (Public (Pair_Terminal code inp)) a = (q, b)
    \<and> open_code X code a \<and> map_of (sh_kv b) STORE_KEY_PAIRING_CODE = None
    \<and> tbl_find tm_id i (sh_terminals a) = None \<and> tbl_find tm_id i (sh_terminals b) \<noteq> None"
  using assms
proof (induction rule: rtranclp_induct)
  case base
  then show ?case by simp
next
  case (step u t)
  show ?case
  proof (cases "tbl_find tm_id i (sh_terminals u) = None")
    case False
    then obtain a b q code inp where "(system_step X)\<^sup>*\<^sup>* s a" "(system_step X)\<^sup>*\<^sup>* b u"
        "handle_request X (Public (Pair_Terminal code inp)) a = (q, b)"
        "open_code X code a" "map_of (sh_kv b) STORE_KEY_PAIRING_CODE = None"
        "tbl_find tm_id i (sh_terminals a) = None" "tbl_find tm_id i (sh_terminals b) \<noteq> None"
      using step.IH [OF step.prems(1)] by blast
    moreover from this(2) step.hyps(2) have "(system_step X)\<^sup>*\<^sup>* b t" by simp
    ultimately show ?thesis by blast
  next
    case True
    then have "\<not> no_new_terminal u t" using step.prems(2) by (auto simp: no_new_terminal_def)
    then obtain code inp q where pair: "handle_request X (Public (Pair_Terminal code inp)) u = (q, t)"
      using unpaired.step_unless_pairing [OF step.hyps(2)] by blast
    show ?thesis
      by (intro exI conjI, rule step.hyps(1), rule rtranclp.rtrancl_refl, rule pair)
        (use pairing_adds [OF pair True step.prems(2)] True step.prems(2) in simp_all)
  qed
qed

text \<open>
  C5. The identities of a shard are permanent: an identity that is there once is there in every later
  state, with the same id and the same private key, whatever requests, background work and restarts come
  in between; so what other shards know about it stays true.
\<close>

theorem identity_keys_permanent:
  assumes "(system_step X)\<^sup>*\<^sup>* s t" and "tbl_find id_id i (sh_identities s) = Some r"
  shows "\<exists>q. tbl_find id_id i (sh_identities t) = Some q \<and> id_private_key q = id_private_key r"
  using keys.steps [OF assms(1)] assms(2) by (simp add: keeps_keys_def)

lemma system_stays_sound_witness:
  "one_default (sh_identities (snd (handle_request sample_ext (Internal (Authenticate_Terminal None))
     (snd (startup sample_ext sample_shard)))))"
proof -
  have db: "init_database sample_ext sample_shard = (Inr (), sample_shard)"
    by (simp add: init_database_def tinydb_steps restore_db_snapshot_def act_simps sample_shard_def fs_exists_def)
  obtain i w where "init_default_identity sample_ext sample_shard = (Inr i, w)"
    by (simp add: init_default_identity_def identities_count_def create_identity_def act_simps world_def
        sample_ext_def sample_shard_def to_hash_id_def zero_digest_id public_key_bytes_def public_of_private_def
        identity_of_row_def validate_email_def identities_insert_def tbl_insert_def tbl_find_def row_of_identity_def
        on_identity_update_def invalidate_identity_cache_def)
  moreover obtain r t where t: "startup sample_ext sample_shard = (r, t)" by (meson surj_pair)
  moreover obtain q u where u: "handle_request sample_ext (Internal (Authenticate_Terminal None)) t = (q, u)"
    by (meson surj_pair)
  moreover have "(system_step sample_ext)\<^sup>*\<^sup>* t u" using Request [OF u] by blast
  ultimately show ?thesis
    using system_stays_sound [OF db, of i w r t u]
    by (simp add: keys_unique_def sample_shard_def tbl_ok_def dict_ok_def empty_serial_def)
qed

definition pairing_shard :: "real shard" where
  "pairing_shard =
     sample_shard\<lparr>sh_terminals := [sample_terminal], sh_identities := [sample_identity ''abc'' True],
       sh_kv := [(STORE_KEY_PAIRING_CODE,
                  pairing_code_dump \<lparr>pc_code = ''123456'', pc_created = 0, pc_valid_until = 600\<rparr>)]\<rparr>"

lemma zero_terminal_id: "random_string default_encoding (replicate 6 0) = Inr ''aaaaaa''"
  by code_simp

lemma pairing_runs:
  "\<exists>tok dm t. add_terminal sample_ext ''123456'' \<lparr>it_name = ''n'', it_icon = Icon_TABLET\<rparr> pairing_shard = (Inr (tok, dm), t)
     \<and> map tm_id (sh_terminals t) = [''t1'', ''aaaaaa'']"
  by (simp add: add_terminal_def redeem_apply act_simps pairing_shard_def sample_shard_def create_terminal_def now_def
        world_def sample_ext_def zero_terminal_id terminals_insert_def tbl_insert_def tbl_find_def sample_terminal_def
        terminals_count_def identities_get_default_def sample_identity_def identity_of_def identity_of_row_def
        validate_email_def create_terminal_jwt_def ensure_secret_apply secret_key_def on_terminals_update_def
        send_terminals_update_apply on_terminal_add_def broadcast_message_def)

lemma token_valid_until_removed_witness:
  "\<exists>tok dm t i. add_terminal sample_ext ''123456'' \<lparr>it_name = ''n'', it_icon = Icon_TABLET\<rparr> pairing_shard = (Inr (tok, dm), t)
     \<and> fst (verify_terminal_jwt sample_ext (Some tok)
         (snd (handle_request sample_ext (Protected (Clients (Delete_Terminal i))) t))) = Inl InvalidJwt"
proof -
  let ?inp = "\<lparr>it_name = ''n'', it_icon = Icon_TABLET\<rparr>"
  obtain tok dm t where t: "add_terminal sample_ext ''123456'' ?inp pairing_shard = (Inr (tok, dm), t)"
    using pairing_runs by blast
  obtain r where r: "sh_terminals t = sh_terminals pairing_shard @ [r]"
    using token_valid_until_removed [OF sample_jwt_roundtrip t, of t tok] by auto
  let ?rq = "Protected (Clients (Delete_Terminal (tm_id r)))"
  obtain q u where u: "handle_request sample_ext ?rq t = (q, u)" by (meson surj_pair)
  then have "tbl_find tm_id (tm_id r) (sh_terminals u) = None"
    by (auto simp: delete_terminal_by_id_def terminals_remove_def tbl_delete_def act_simps on_terminals_update_def
        send_terminals_update_apply tbl_find_filter)
  moreover have "(system_step sample_ext)\<^sup>*\<^sup>* t u" using Request [OF u] by blast
  ultimately have "fst (verify_terminal_jwt sample_ext (Some tok) u) = Inl InvalidJwt"
    using token_valid_until_removed [OF sample_jwt_roundtrip t, of u tok] r by auto
  then show ?thesis using t u by (metis snd_conv)
qed

lemma only_pairing_adds_terminals_witness:
  "\<exists>a b q code inp. handle_request sample_ext (Public (Pair_Terminal code inp)) a = (q, b)
     \<and> open_code sample_ext code a \<and> (system_step sample_ext)\<^sup>*\<^sup>* pairing_shard a"
proof -
  let ?rq = "Public (Pair_Terminal ''123456'' \<lparr>it_name = ''n'', it_icon = Icon_TABLET\<rparr>)"
  obtain q t where t: "handle_request sample_ext ?rq pairing_shard = (q, t)"
      and ids: "map tm_id (sh_terminals t) = [''t1'', ''aaaaaa'']"
    using pairing_runs by (auto simp: answered_def act_apply(3) ret_def)
  have "tbl_find tm_id ''aaaaaa'' (sh_terminals pairing_shard) = None"
    by (simp add: pairing_shard_def tbl_find_def sample_terminal_def)
  moreover have "tbl_find tm_id ''aaaaaa'' (sh_terminals t) \<noteq> None"
    using ids by (auto simp: tbl_find_def)
  ultimately show ?thesis
    using only_pairing_adds_terminals [OF r_into_rtranclp [of "system_step sample_ext", OF Request [OF t]]] by blast
qed

lemma identity_keys_permanent_witness:
  "\<exists>q. tbl_find id_id ''abcdef'' (sh_identities (snd (handle_request sample_ext
      (Protected (Identities (Make_Identity_Default ''ghijkl''))) two_identities))) = Some q
     \<and> id_private_key q = Some ''key''"
proof -
  let ?rq = "Protected (Identities (Make_Identity_Default ''ghijkl''))"
  obtain r t where t: "handle_request sample_ext ?rq two_identities = (r, t)" by (meson surj_pair)
  have "tbl_find id_id ''abcdef'' (sh_identities two_identities) = Some (sample_identity ''abcdef'' True)"
    by (simp add: two_identities_def tbl_find_def sample_identity_def)
  from identity_keys_permanent [OF r_into_rtranclp [of "system_step sample_ext", OF Request [OF t]] this]
  show ?thesis using t by (simp add: sample_identity_def)
qed

end
