(* ===== verification/Interleaving.thy ===== *)
theory Interleaving
  imports Installation
begin

text \<open>
  Requests are coroutines: wherever one awaits, for example on the database, others run.  A coroutine is
  here a resumption: it has returned, or its next uninterrupted part is a function of the state that
  leaves the rest.  The handlers whose awaits matter (redeeming a pairing code, the secret of the tokens,
  pairing, the installation of an app) are written as coroutines with one part per await; run alone they
  are the operations of the other theories, and the properties below are about pools of them that run
  interleaved in any order.
\<close>

section \<open>Coroutines\<close>

datatype ('s, 'a) proc = Return "'a result" | Await "'s \<Rightarrow> ('s, 'a) proc \<times> 's"

lemma proc_induct [case_names Return Await]:
  assumes "\<And>r. P (Return r)" and "\<And>f. (\<And>s. P (fst (f s))) \<Longrightarrow> P (Await f)"
  shows "P p"
proof (induction p)
  case (Return r)
  show ?case by (rule assms(1))
next
  case (Await f)
  then show ?case using assms(2) by (metis fsts.intros rangeI)
qed

definition atomic :: "('s, 'a) act \<Rightarrow> ('s, 'a) proc" where
  "atomic m = Await (\<lambda>s. case m s of (r, t) \<Rightarrow> (Return r, t))"

primrec then_proc :: "('s, 'a) proc \<Rightarrow> ('a \<Rightarrow> ('s, 'b) proc) \<Rightarrow> ('s, 'b) proc" where
  "then_proc (Return r) k = (case r of Inl e \<Rightarrow> Return (Inl e) | Inr x \<Rightarrow> k x)"
| "then_proc (Await f) k = Await (\<lambda>s. map_prod (\<lambda>p. then_proc p k) id (f s))"

primrec catch_proc :: "('s, 'a) proc \<Rightarrow> (exn \<Rightarrow> ('s, 'a) proc) \<Rightarrow> ('s, 'a) proc" where
  "catch_proc (Return r) h = (case r of Inl e \<Rightarrow> h e | Inr x \<Rightarrow> Return (Inr x))"
| "catch_proc (Await f) h = Await (\<lambda>s. map_prod (\<lambda>p. catch_proc p h) id (f s))"

text \<open>A coroutine that runs alone to its end\<close>

primrec run_proc :: "('s, 'a) proc \<Rightarrow> ('s, 'a) act" where
  "run_proc (Return r) = (\<lambda>s. (r, s))"
| "run_proc (Await f) = (\<lambda>s. case map_prod run_proc id (f s) of (m, t) \<Rightarrow> m t)"

lemma run_return [simp]: "run_proc (Return (Inr x)) = ret x" "run_proc (Return (Inl e)) = raise e"
  by (simp_all add: fun_eq_iff act_simps)

lemma run_atomic [simp]: "run_proc (atomic m) = m"
  by (simp add: atomic_def fun_eq_iff split: prod.split)

lemma run_then [simp]: "run_proc (then_proc p k) = bnd (run_proc p) (\<lambda>x. run_proc (k x))"
proof (induction p rule: proc_induct)
  case (Return r)
  show ?case by (cases r) (simp_all add: fun_eq_iff act_simps)
next
  case (Await f)
  then show ?case by (simp add: fun_eq_iff act_apply(3) case_prod_beta)
qed

lemma run_catch [simp]: "run_proc (catch_proc p h) = try_except (run_proc p) (\<lambda>e. run_proc (h e))"
proof (induction p rule: proc_induct)
  case (Return r)
  show ?case by (cases r) (simp_all add: fun_eq_iff act_simps)
next
  case (Await f)
  then show ?case by (simp add: fun_eq_iff act_apply(8) case_prod_beta)
qed

lemma then_atomic:
  "then_proc (atomic m) k = Await (\<lambda>s. case m s of (Inl e, t) \<Rightarrow> (Return (Inl e), t) | (Inr x, t) \<Rightarrow> (k x, t))"
  by (auto simp: atomic_def fun_eq_iff split: prod.split sum.split)

lemma catch_atomic:
  "catch_proc (atomic m) h = Await (\<lambda>s. case m s of (Inl e, t) \<Rightarrow> (h e, t) | (Inr x, t) \<Rightarrow> (Return (Inr x), t))"
  by (auto simp: atomic_def fun_eq_iff split: prod.split sum.split)

section \<open>Pools\<close>

text \<open>A step of the event loop: one of the coroutines runs up to its next await.\<close>

inductive pool_step :: "('s, 'a) proc list \<times> 's \<Rightarrow> ('s, 'a) proc list \<times> 's \<Rightarrow> bool" where
  "i < length ps \<Longrightarrow> ps ! i = Await f \<Longrightarrow> f s = (p, t) \<Longrightarrow> pool_step (ps, s) (ps[i := p], t)"

inductive_cases pool_stepE: "pool_step (ps, s) (qs, t)"

abbreviation pool_steps :: "('s, 'a) proc list \<times> 's \<Rightarrow> ('s, 'a) proc list \<times> 's \<Rightarrow> bool" where
  "pool_steps \<equiv> pool_step\<^sup>*\<^sup>*"

lemma pool_steps_length: "pool_steps c d \<Longrightarrow> length (fst d) = length (fst c)"
  by (induction rule: rtranclp_induct) (auto elim!: pool_step.cases)

text \<open>A coroutine changes only by its own parts.\<close>

lemma pool_step_at:
  assumes "pool_step (ps, s) (qs, t)" and "i < length ps"
  shows "qs ! i = ps ! i \<or> (\<exists>f. ps ! i = Await f \<and> f s = (qs ! i, t))"
  using assms by (auto elim!: pool_stepE simp: nth_list_update)

text \<open>Running one coroutine of the pool to its end is a sequence of steps.\<close>

lemma pool_runs:
  "run_proc (ps ! i) s = (r, t) \<Longrightarrow> i < length ps \<Longrightarrow> pool_steps (ps, s) (ps[i := Return r], t)"
proof (induction "ps ! i" arbitrary: ps s rule: proc_induct)
  case (Return q)
  have q: "ps ! i = Return q" by (rule Return.hyps [symmetric])
  then have "q = r" "t = s" using Return.prems(1) by simp_all
  then have "ps[i := Return r] = ps" using list_update_id [of ps i] q by simp
  then show ?case using \<open>t = s\<close> by simp
next
  case (Await f)
  obtain p u where p: "f s = (p, u)" by (meson surj_pair)
  have step: "pool_step (ps, s) (ps[i := p], u)"
    using Await.prems(2) Await.hyps(2) [symmetric] p by (rule pool_step.intros)
  have "run_proc (Await f) s = (r, t)" using Await.prems(1) Await.hyps(2) by simp
  then have "run_proc p u = (r, t)" using p by simp
  then have "pool_steps (ps[i := p], u) (ps[i := p, i := Return r], t)"
    using Await.hyps(1) [of s "ps[i := p]" u] p Await.prems(2) by simp
  with step show ?case by (simp add: converse_rtranclp_into_rtranclp)
qed

text \<open>A schedule: which coroutine runs next\<close>

fun schedule :: "nat list \<Rightarrow> ('s, 'a) proc list \<times> 's \<Rightarrow> ('s, 'a) proc list \<times> 's" where
  "schedule [] c = c"
| "schedule (i # is) (ps, s) =
     (case ps ! i of
        Return r \<Rightarrow> schedule is (ps, s)
      | Await f \<Rightarrow> (case f s of (p, t) \<Rightarrow> schedule is (ps[i := p], t)))"

lemma schedule_steps: "list_all (\<lambda>i. i < length ps) is \<Longrightarrow> pool_steps (ps, s) (schedule is (ps, s))"
proof (induction "is" arbitrary: ps s)
  case (Cons i "is")
  show ?case
  proof (cases "ps ! i")
    case (Return r)
    then show ?thesis using Cons by simp
  next
    case (Await f)
    obtain p t where p: "f s = (p, t)" by (meson surj_pair)
    have "pool_step (ps, s) (ps[i := p], t)"
      using Cons.prems Await p by (intro pool_step.intros [where f = f]) simp_all
    moreover have "pool_steps (ps[i := p], t) (schedule is (ps[i := p], t))"
      using Cons by simp
    ultimately show ?thesis
      using Await p by (simp add: converse_rtranclp_into_rtranclp)
  qed
qed simp

text \<open>All members of a pool of equals do the same part, one after the other.\<close>

lemma pool_all:
  assumes "\<And>k. k < n \<Longrightarrow> f (\<sigma> k) = (q, \<sigma> (Suc k))"
  shows "pool_steps (replicate n (Await f), \<sigma> 0) (replicate n q, \<sigma> n)"
proof -
  have "pool_steps (replicate n (Await f), \<sigma> 0) (replicate k q @ replicate (n - k) (Await f), \<sigma> k)" if "k \<le> n" for k
    using that
  proof (induction k)
    case (Suc k)
    let ?ps = "replicate k q @ replicate (n - k) (Await f)"
    have "?ps ! k = Await f" using Suc.prems by (simp add: nth_append)
    moreover have "?ps[k := q] = replicate (Suc k) q @ replicate (n - Suc k) (Await f)"
    proof -
      have "n - k = Suc (n - Suc k)" using Suc.prems by simp
      then have "replicate (n - k) (Await f) = Await f # replicate (n - Suc k) (Await f)" by simp
      then show ?thesis by (simp add: list_update_append replicate_app_Cons_same)
    qed
    ultimately have "pool_step (?ps, \<sigma> k) (replicate (Suc k) q @ replicate (n - Suc k) (Await f), \<sigma> (Suc k))"
      using pool_step.intros [of k ?ps f "\<sigma> k" q "\<sigma> (Suc k)"] assms [of k] Suc.prems by simp
    with Suc show ?case by simp
  qed simp
  from this [of n] show ?thesis by simp
qed

declare run_proc.simps(1) [simp del]

primrec resume :: "('s, 'a) proc \<Rightarrow> 's \<Rightarrow> ('s, 'a) proc \<times> 's" where
  "resume (Return r) s = (Return r, s)"
| "resume (Await f) s = f s"

lemma resume_then_atomic:
  "resume (then_proc (atomic m) k) s = (case m s of (Inl e, t) \<Rightarrow> (Return (Inl e), t) | (Inr x, t) \<Rightarrow> (k x, t))"
  by (simp add: then_atomic)

lemma pool_all_resume:
  assumes "\<And>k. k < n \<Longrightarrow> resume p (\<sigma> k) = (q, \<sigma> (Suc k))"
  shows "pool_steps (replicate n p, \<sigma> 0) (replicate n q, \<sigma> n)"
proof (cases p)
  case (Return r)
  then have eq: "q = p" "\<sigma> (Suc k) = \<sigma> k" if "k < n" for k using assms [OF that] by simp_all
  have same: "k \<le> n \<Longrightarrow> \<sigma> k = \<sigma> 0" for k by (induction k) (simp_all add: eq(2))
  have "\<sigma> n = \<sigma> 0" by (rule same) simp
  moreover have "replicate n q = replicate n p" using eq(1) by (cases n) auto
  ultimately show ?thesis by (simp only: rtranclp.rtrancl_refl)
next
  case (Await f)
  then show ?thesis using pool_all [of n f \<sigma> q] assms by simp
qed

section \<open>Redeeming a pairing code\<close>

text \<open>\<open>redeem_pairing_code\<close>: it reads the code, compares it and looks at the clock, and removes it.\<close>

definition read_code :: "('e shard, pairing_code) act" where
  "read_code =
     try_except (bnd (get_value STORE_KEY_PAIRING_CODE) (\<lambda>v. lift_res (pairing_code_of v)))
       (\<lambda>e. case e of KeyError _ \<Rightarrow> raise InvalidPairingCode | _ \<Rightarrow> raise e)"

definition check_code :: "'e ext \<Rightarrow> string \<Rightarrow> pairing_code \<Rightarrow> ('e shard, unit) act" where
  "check_code X incoming_code existing =
     (if pc_code existing \<noteq> incoming_code then raise InvalidPairingCode
      else bnd (now X) (\<lambda>t. if t > pc_valid_until existing then raise PairingCodeExpired else ret ()))"

definition remove_code :: "('e shard, unit) proc" where
  "remove_code = then_proc (atomic (remove_value STORE_KEY_PAIRING_CODE)) (\<lambda>_. Return (Inr ()))"

definition redeem_proc :: "'e ext \<Rightarrow> string \<Rightarrow> ('e shard, unit) proc" where
  "redeem_proc X incoming_code =
     then_proc (atomic read_code) (\<lambda>existing.
     then_proc (atomic (check_code X incoming_code existing)) (\<lambda>_. remove_code))"

lemma run_redeem: "run_proc (redeem_proc X code) = redeem_pairing_code X code"
  by (auto simp: redeem_proc_def remove_code_def redeem_pairing_code_def read_code_def check_code_def fun_eq_iff
      run_return act_simps split: prod.split sum.split)

section \<open>The secret of the tokens\<close>

definition ensure_secret_proc :: "'e ext \<Rightarrow> ('e shard, json) proc" where
  "ensure_secret_proc X =
     catch_proc (atomic (get_value STORE_KEY_JWT_SECRET))
       (\<lambda>e. case e of
          KeyError _ \<Rightarrow>
            then_proc (atomic (world (x_token_urlsafe X (jwt_secret_length (cfg X))))) (\<lambda>secret.
            then_proc (atomic (set_value STORE_KEY_JWT_SECRET (JStr secret))) (\<lambda>_.
            Return (Inr (JStr secret))))
        | _ \<Rightarrow> Return (Inl e))"

lemma run_ensure: "run_proc (ensure_secret_proc X) = ensure_jwt_secret X"
proof -
  have "run_proc (case e of
          KeyError _ \<Rightarrow>
            then_proc (atomic (world (x_token_urlsafe X (jwt_secret_length (cfg X))))) (\<lambda>secret.
            then_proc (atomic (set_value STORE_KEY_JWT_SECRET (JStr secret))) (\<lambda>_.
            Return (Inr (JStr secret))))
        | _ \<Rightarrow> Return (Inl e))
      = (case e of
          KeyError _ \<Rightarrow>
            bnd (world (x_token_urlsafe X (jwt_secret_length (cfg X)))) (\<lambda>secret.
            seq (set_value STORE_KEY_JWT_SECRET (JStr secret))
            (ret (JStr secret)))
        | _ \<Rightarrow> raise e)" for e
    by (cases e) (simp_all add: run_return seq_def)
  then show ?thesis by (simp add: ensure_secret_proc_def ensure_jwt_secret_def)
qed

definition create_jwt_proc :: "'e ext \<Rightarrow> string \<Rightarrow> ('e shard, string) proc" where
  "create_jwt_proc X terminal_id =
     then_proc (ensure_secret_proc X) (\<lambda>secret.
     atomic (bnd (now X) (\<lambda>t.
       bnd (lift_res (secret_key secret)) (\<lambda>k.
       ret (x_jwt_encode X [(''sub'', JStr terminal_id), (''iat'', JInt \<lfloor>t\<rfloor>)] k)))))"

lemma run_create_jwt: "run_proc (create_jwt_proc X i) = create_terminal_jwt X i"
  by (simp add: create_jwt_proc_def create_terminal_jwt_def run_ensure)

section \<open>Pairing\<close>

text \<open>
  \<open>POST /pair/terminal\<close>: inserting the terminal and counting is one transaction.  The refresh of the
  profile after the first terminal is one part here.
\<close>

definition add_terminal_proc :: "'e ext \<Rightarrow> string \<Rightarrow> input_terminal \<Rightarrow> ('e shard, string \<times> string) proc" where
  "add_terminal_proc X code terminal =
     then_proc
       (catch_proc (redeem_proc X code)
          (\<lambda>e. case e of
                 PairingCodeExpired \<Rightarrow> Return (Inl (HTTPException 401))
               | InvalidPairingCode \<Rightarrow> Return (Inl (HTTPException 401))
               | _ \<Rightarrow> Return (Inl e))) (\<lambda>_.
     then_proc
       (atomic (bnd (create_terminal X (it_name terminal)) (\<lambda>new_terminal.
          seq (db_terminals (terminals_insert new_terminal))
          (bnd (db_terminals terminals_count) (\<lambda>n. ret (new_terminal, n)))))) (\<lambda>(new_terminal, n).
     then_proc (atomic (bnd (db_identities identities_get_default) (identity_of X))) (\<lambda>default.
     then_proc (create_jwt_proc X (tm_id new_terminal)) (\<lambda>jwt.
     then_proc (atomic (db_terminals terminals_get_all)) (\<lambda>ts.
     then_proc (atomic (seq (broadcast_message ''terminals_update'' (P_Terminals ts)) (on_terminal_add new_terminal))) (\<lambda>_.
     then_proc (atomic (if n = 1 then async_on_first_terminal_add X else ret ())) (\<lambda>_.
     Return (Inr (jwt, domain X (i_id default))))))))))"

lemma bnd_assoc: "bnd (bnd m k) l = bnd m (\<lambda>x. bnd (k x) l)"
  by (simp add: fun_eq_iff act_simps split: prod.split sum.split)

lemma bnd_ret: "bnd (ret x) k = k x"
  by (simp add: fun_eq_iff act_simps)

lemma run_add_terminal: "run_proc (add_terminal_proc X code inp) = add_terminal X code inp"
proof -
  have h: "run_proc (case e of
                 PairingCodeExpired \<Rightarrow> Return (Inl (HTTPException 401))
               | InvalidPairingCode \<Rightarrow> Return (Inl (HTTPException 401))
               | _ \<Rightarrow> Return (Inl e))
      = (case e of
                   PairingCodeExpired \<Rightarrow> raise (HTTPException 401)
                 | InvalidPairingCode \<Rightarrow> raise (HTTPException 401)
                 | _ \<Rightarrow> (raise e :: ('a shard, unit) act))" for e
    by (cases e) (simp_all add: run_return)
  show ?thesis
    by (simp add: add_terminal_proc_def add_terminal_def h run_redeem run_create_jwt run_return seq_def bnd_assoc bnd_ret
        on_terminals_update_def send_terminals_update_def case_prod_beta)
qed

section \<open>Installing an app\<close>

text \<open>\<open>install_app_from_store\<close>, with the names of its parts\<close>

datatype install_stage =
  Asking installation_reason | Checking installation_reason | Inserting installation_reason
| Queuing | Announcing | Finished "unit result"

definition announce_part :: "'e ext \<Rightarrow> ('e shard, unit) proc" where
  "announce_part X = atomic (on_apps_update X)"

definition queue_part :: "'e ext \<Rightarrow> string \<Rightarrow> ('e shard, unit) proc" where
  "queue_part X n =
     then_proc (atomic (enqueue \<lparr>it_app_name = n, it_task_type = Install_From_Store\<rparr>)) (\<lambda>_. announce_part X)"

definition insert_part :: "'e ext \<Rightarrow> string \<Rightarrow> installation_reason \<Rightarrow> ('e shard, unit) proc" where
  "insert_part X n reason =
     then_proc (atomic (db_apps (apps_insert (queued_row n reason)))) (\<lambda>_. queue_part X n)"

definition check_part :: "'e ext \<Rightarrow> string \<Rightarrow> installation_reason \<Rightarrow> ('e shard, unit) proc" where
  "check_part X n reason =
     then_proc (atomic (app_exists_in_db n)) (\<lambda>in_db.
     if in_db then Return (Inl (AppAlreadyInstalled n)) else insert_part X n reason)"

definition install_proc :: "'e ext \<Rightarrow> string \<Rightarrow> installation_reason \<Rightarrow> ('e shard, unit) proc" where
  "install_proc X n reason =
     then_proc (atomic (app_exists_in_store X n)) (\<lambda>in_store.
     if \<not> in_store then Return (Inl (AppDoesNotExist n)) else check_part X n reason)"

lemma run_if: "run_proc (if b then p else q) = (if b then run_proc p else run_proc q)"
  by simp

lemma run_install: "run_proc (install_proc X n reason) = install_app_from_store X n reason"
  by (simp add: install_proc_def check_part_def insert_part_def queue_part_def announce_part_def
      install_app_from_store_def run_if seq_def cong: if_cong)

primrec stage_proc :: "'e ext \<Rightarrow> string \<Rightarrow> install_stage \<Rightarrow> ('e shard, unit) proc" where
  "stage_proc X n (Asking reason) = install_proc X n reason"
| "stage_proc X n (Checking reason) = check_part X n reason"
| "stage_proc X n (Inserting reason) = insert_part X n reason"
| "stage_proc X n Queuing = queue_part X n"
| "stage_proc X n Announcing = announce_part X"
| "stage_proc X n (Finished r) = Return r"

text \<open>The book-keeping: rows of the app, its queued installations, and those about to be queued\<close>

definition rows_of :: "string \<Rightarrow> 'e shard \<Rightarrow> nat" where
  "rows_of n s = length (filter (\<lambda>r. ia_name r = n) (sh_apps s))"

definition installs_queued :: "string \<Rightarrow> 'e shard \<Rightarrow> nat" where
  "installs_queued n s = length (filter (\<lambda>t. t = \<lparr>it_app_name = n, it_task_type = Install_From_Store\<rparr>) (sh_tasks s))"

primrec credit :: "install_stage \<Rightarrow> nat" where
  "credit (Asking reason) = 0"
| "credit (Checking reason) = 0"
| "credit (Inserting reason) = 0"
| "credit Queuing = 1"
| "credit Announcing = 0"
| "credit (Finished r) = 0"

section \<open>Properties\<close>

abbreviation comparing :: "'e ext \<Rightarrow> string \<Rightarrow> pairing_code \<Rightarrow> ('e shard, unit) proc" where
  "comparing X code c \<equiv> then_proc (atomic (check_code X code c)) (\<lambda>_. remove_code)"

lemma read_code_state: "snd (read_code s) = s"
  by (simp add: read_code_def act_simps split: option.split sum.split exn.split)

lemma redeem_part:
  assumes "redeem_proc X code = Await f" and "f s = (p, t)"
  shows "t = s \<and> ((\<exists>e. p = Return (Inl e)) \<or> (\<exists>c. fst (read_code s) = Inr c \<and> p = comparing X code c))"
proof -
  have f: "f = (\<lambda>s. case read_code s of (Inl e, t) \<Rightarrow> (Return (Inl e), t) | (Inr c, t) \<Rightarrow> (comparing X code c, t))"
    using assms(1) by (simp add: redeem_proc_def then_atomic [of read_code])
  show ?thesis
    using assms(2) read_code_state [of s] by (cases "read_code s") (auto simp: f split: sum.splits)
qed

lemma comparing_part:
  assumes "comparing X code c = Await f" and "f s = (p, t)"
  shows "(\<exists>e. p = Return (Inl e)) \<or> (pc_code c = code \<and> fst (x_time X (sh_env s)) \<le> pc_valid_until c \<and> p = remove_code)"
  using assms
  by (auto simp: then_atomic check_code_def act_simps now_apply split: prod.splits if_splits sum.splits)

lemma remove_part:
  assumes "remove_code = Await f" and "f s = (p, t)"
  shows "p = Return (Inr ())"
  using assms by (auto simp: remove_code_def then_atomic remove_value_apply)

text \<open>How far a redemption has come, in a run from \<open>a\<close> to \<open>d\<close>\<close>

type_synonym ('s, 'a) pool = "('s, 'a) proc list \<times> 's"

definition code_seen :: "('e shard, unit) pool \<Rightarrow> ('e shard, unit) pool \<Rightarrow> pairing_code \<Rightarrow> bool" where
  "code_seen a d c \<longleftrightarrow> (\<exists>b. pool_steps a b \<and> pool_steps b d \<and> fst (read_code (snd b)) = Inr c)"

definition code_passed :: "'e ext \<Rightarrow> string \<Rightarrow> ('e shard, unit) pool \<Rightarrow> ('e shard, unit) pool \<Rightarrow> bool" where
  "code_passed X code a d \<longleftrightarrow> (\<exists>b b' c. pool_steps a b \<and> pool_steps b b' \<and> pool_steps b' d
     \<and> fst (read_code (snd b)) = Inr c \<and> pc_code c = code \<and> fst (x_time X (sh_env (snd b'))) \<le> pc_valid_until c)"

definition redeem_stage :: "'e ext \<Rightarrow> string \<Rightarrow> nat \<Rightarrow> ('e shard, unit) pool \<Rightarrow> ('e shard, unit) pool \<Rightarrow> bool" where
  "redeem_stage X code i a d \<longleftrightarrow>
     fst d ! i = redeem_proc X code \<or> (\<exists>c. fst d ! i = comparing X code c \<and> code_seen a d c)
     \<or> (\<exists>e. fst d ! i = Return (Inl e))
     \<or> (code_passed X code a d \<and> (fst d ! i = remove_code \<or> fst d ! i = Return (Inr ())))"

lemma code_seen_step: "code_seen a d c \<Longrightarrow> pool_step d e \<Longrightarrow> code_seen a e c"
  unfolding code_seen_def by (blast intro: rtranclp.rtrancl_into_rtrancl)

lemma code_passed_step: "code_passed X code a d \<Longrightarrow> pool_step d e \<Longrightarrow> code_passed X code a e"
  unfolding code_passed_def by (blast intro: rtranclp.rtrancl_into_rtrancl)

lemma code_seen_now: "pool_steps a d \<Longrightarrow> pool_step d e \<Longrightarrow> fst (read_code (snd d)) = Inr c \<Longrightarrow> code_seen a e c"
  unfolding code_seen_def by (blast intro: r_into_rtranclp)

lemma code_passed_now:
  "code_seen a d c \<Longrightarrow> pool_step d e \<Longrightarrow> pc_code c = code \<Longrightarrow> fst (x_time X (sh_env (snd d))) \<le> pc_valid_until c
   \<Longrightarrow> code_passed X code a e"
  unfolding code_seen_def code_passed_def by (blast intro: r_into_rtranclp)

lemma redeem_stage_step:
  assumes at: "redeem_stage X code i a d" and path: "pool_steps a d" and st: "pool_step d e" and len: "i < length (fst d)"
  shows "redeem_stage X code i a e"
proof -
  obtain qs t rs v where de: "d = (qs, t)" "e = (rs, v)" by (metis surj_pair)
  consider (same) "rs ! i = qs ! i" | (part) f where "qs ! i = Await f" "f t = (rs ! i, v)"
    using pool_step_at [of qs t rs v i] st len de by auto
  then show ?thesis
  proof cases
    case same
    then have "fst e ! i = fst d ! i" using de by simp
    then show ?thesis
      using at code_seen_step [OF _ st] code_passed_step [OF _ st] unfolding redeem_stage_def by metis
  next
    case (part f)
    from at de consider (start) "qs ! i = redeem_proc X code" | (compare) c where "qs ! i = comparing X code c" "code_seen a d c"
      | (failed) x where "qs ! i = Return (Inl x)"
      | (won) "code_passed X code a d" "qs ! i = remove_code \<or> qs ! i = Return (Inr ())"
      by (auto simp: redeem_stage_def)
    then show ?thesis
    proof cases
      case start
      then show ?thesis
        using redeem_part [of X code f t "rs ! i" v] part code_seen_now [OF path st] de by (auto simp: redeem_stage_def)
    next
      case (compare c)
      then show ?thesis
        using comparing_part [of X code c f t "rs ! i" v] part code_passed_now [OF compare(2) st] de
        by (auto simp: redeem_stage_def)
    next
      case (failed x)
      then show ?thesis using part by simp
    next
      case won
      then have "rs ! i = Return (Inr ())" using part remove_part by fastforce
      then show ?thesis using code_passed_step [OF won(1) st] de by (simp add: redeem_stage_def)
    qed
  qed
qed

lemma redeem_stages:
  assumes "pool_steps a d" and "i < length (fst a)" and "fst a ! i = redeem_proc X code"
  shows "redeem_stage X code i a d"
  using assms(1)
proof (induction rule: rtranclp_induct)
  case base
  show ?case using assms(3) by (simp add: redeem_stage_def)
next
  case (step d e)
  then show ?case using redeem_stage_step assms(2) pool_steps_length [OF step.hyps(1)] by metis
qed

text \<open>
  C6. However requests and other work interleave, a pairing code is only accepted if it was the stored
  one: in any run of a pool of coroutines of any kind, a redemption that has succeeded read the stored
  code in an earlier state, it was equal to the given one, and in a state after that the clock had not
  passed its deadline.
\<close>

theorem interleaved_redeem_sound:
  assumes "pool_steps (ps, s) (qs, t)" and "i < length ps" and "ps ! i = redeem_proc X code"
    and "qs ! i = Return (Inr ())"
  shows "\<exists>rs u rs' v c. pool_steps (ps, s) (rs, u) \<and> pool_steps (rs, u) (rs', v) \<and> pool_steps (rs', v) (qs, t)
    \<and> fst (read_code u) = Inr c \<and> pc_code c = code \<and> fst (x_time X (sh_env v)) \<le> pc_valid_until c"
proof -
  have "redeem_stage X code i (ps, s) (qs, t)" using redeem_stages [OF assms(1)] assms(2,3) by simp
  then have "code_passed X code (ps, s) (qs, t)"
    using assms(4) by (simp add: redeem_stage_def redeem_proc_def then_atomic)
  then show ?thesis by (simp add: code_passed_def split_paired_Ex)
qed

lemma interleaved_redeem_sound_witness:
  "\<exists>s t. pool_steps ([redeem_proc sample_ext ''1'', redeem_proc sample_ext ''1''], s)
        ([Return (Inr ()), redeem_proc sample_ext ''1''], t)
      \<and> (\<exists>(u :: real shard) c. fst (read_code u) = Inr c \<and> pc_code c = ''1'')"
proof -
  let ?c = "\<lparr>pc_code = ''1'', pc_created = 0, pc_valid_until = 600\<rparr>"
  let ?s = "sample_shard\<lparr>sh_kv := [(STORE_KEY_PAIRING_CODE, pairing_code_dump ?c)]\<rparr>"
  let ?p = "redeem_proc sample_ext ''1''"
  have "run_proc ?p ?s = (Inr (), sample_shard\<lparr>sh_kv := [], sh_env := 0\<rparr>)"
    by (simp add: run_redeem redeem_apply sample_ext_def sample_shard_def dict_del_def)
  then have run: "pool_steps ([?p, ?p], ?s) ([Return (Inr ()), ?p], sample_shard\<lparr>sh_kv := [], sh_env := 0\<rparr>)"
    using pool_runs [of "[?p, ?p]" 0 ?s] by simp
  have "0 < length [?p, ?p]" "[?p, ?p] ! 0 = ?p" "[Return (Inr ()), ?p] ! 0 = Return (Inr ())" by simp_all
  from interleaved_redeem_sound [OF run this]
  have "\<exists>(u :: real shard) c. fst (read_code u) = Inr c \<and> pc_code c = ''1''" by blast
  with run show ?thesis by blast
qed

lemma redeem_all_read:
  assumes "fst (read_code s) = Inr c"
  shows "pool_steps (replicate n (redeem_proc X code), s) (replicate n (comparing X code c), s)"
proof -
  have "read_code s = (Inr c, s)" using assms read_code_state [of s] by (metis prod.collapse)
  then show ?thesis
    using pool_all_resume [of n "redeem_proc X code" "\<lambda>_. s"] by (simp add: redeem_proc_def resume_then_atomic)
qed

lemma redeem_all_compare:
  assumes "pc_code c = code" and "\<And>k. k < n \<Longrightarrow> fst (x_time X (((\<lambda>e. snd (x_time X e)) ^^ k) (sh_env s))) \<le> pc_valid_until c"
  shows "pool_steps (replicate n (comparing X code c), s)
    (replicate n remove_code, s\<lparr>sh_env := ((\<lambda>e. snd (x_time X e)) ^^ n) (sh_env s)\<rparr>)"
proof -
  let ?\<sigma> = "\<lambda>k. s\<lparr>sh_env := ((\<lambda>e. snd (x_time X e)) ^^ k) (sh_env s)\<rparr>"
  have "resume (comparing X code c) (?\<sigma> k) = (remove_code, ?\<sigma> (Suc k))" if "k < n" for k
    using assms(1) assms(2) [OF that]
    by (simp add: resume_then_atomic check_code_def act_apply(3) now_apply ret_def case_prod_beta)
  then show ?thesis using pool_all_resume [of n "comparing X code c" ?\<sigma>] by simp
qed

lemma remove_all: "\<exists>t. pool_steps (replicate n remove_code, s) (replicate n (Return (Inr ())), t)"
proof -
  let ?\<sigma> = "\<lambda>k. ((\<lambda>s. snd (remove_value STORE_KEY_PAIRING_CODE s)) ^^ k) s"
  have "resume remove_code (?\<sigma> k) = (Return (Inr ()), ?\<sigma> (Suc k))" for k
    by (simp add: remove_code_def resume_then_atomic remove_value_apply)
  then show ?thesis using pool_all_resume [of n remove_code ?\<sigma>] by (intro exI [of _ "?\<sigma> n"]) simp
qed

text \<open>
  C20. A code does not pair only once when requests interleave: any number of redemptions that have all
  read the stored code before the first removes it are all accepted, if the clock stays before the
  deadline.  Nothing in the removal tells the later ones that the code is gone.
\<close>

theorem code_redeemed_by_all:
  assumes "fst (read_code s) = Inr c" and "pc_code c = code"
    and "\<And>k. k < n \<Longrightarrow> fst (x_time X (((\<lambda>e. snd (x_time X e)) ^^ k) (sh_env s))) \<le> pc_valid_until c"
  shows "\<exists>t. pool_steps (replicate n (redeem_proc X code), s) (replicate n (Return (Inr ())), t)"
proof -
  obtain t where "pool_steps (replicate n remove_code, s\<lparr>sh_env := ((\<lambda>e. snd (x_time X e)) ^^ n) (sh_env s)\<rparr>)
      (replicate n (Return (Inr ())), t)"
    using remove_all by blast
  then show ?thesis
    using redeem_all_read [OF assms(1), of n X code] redeem_all_compare [of c code n X s] assms(2,3)
    by (blast intro: rtranclp_trans)
qed

lemma code_redeemed_by_all_witness:
  "\<exists>s t. pool_steps (replicate 5 (redeem_proc sample_ext ''1''), s) (replicate 5 (Return (Inr ())), t)"
proof -
  let ?c = "\<lparr>pc_code = ''1'', pc_created = 0, pc_valid_until = 600\<rparr>"
  let ?s = "sample_shard\<lparr>sh_kv := [(STORE_KEY_PAIRING_CODE, pairing_code_dump ?c)]\<rparr>"
  have env: "((\<lambda>e. snd (x_time sample_ext e)) ^^ k) (sh_env ?s) = 0" for k
    by (induction k) (simp_all add: sample_ext_def sample_shard_def)
  have "fst (read_code ?s) = Inr ?c" by (simp add: read_code_def act_simps)
  then show ?thesis
    using code_redeemed_by_all [of ?s ?c "''1''" 5 sample_ext] env by (auto simp: sample_ext_def)
qed

text \<open>
  C21. Two tokens made at the same time in a shard that has no secret yet: both coroutines find none and
  make their own, the second overwrites the first, and the terminal whose token was signed with the
  first one is refused from then on, as long as the stored secret stays.
\<close>

theorem first_tokens_race:
  assumes "map_of (sh_kv s) STORE_KEY_JWT_SECRET = None"
    and "x_token_urlsafe X (jwt_secret_length (cfg X)) (sh_env s) = (k1, e1)"
    and "x_token_urlsafe X (jwt_secret_length (cfg X)) e1 = (k2, e2)"
    and "\<And>p. x_jwt_decode X (x_jwt_encode X p k1) k2 = None" and "jwt_roundtrip X"
  shows "\<exists>tok tok' t. pool_steps ([create_jwt_proc X i, create_jwt_proc X j], s) ([Return (Inr tok), Return (Inr tok')], t)
    \<and> (\<forall>u. map_of (sh_kv u) STORE_KEY_JWT_SECRET = map_of (sh_kv t) STORE_KEY_JWT_SECRET
           \<longrightarrow> verify_terminal_jwt X (Some tok) u = (Inl InvalidJwt, u))"
proof -
  let ?c = "schedule [0, 1, 0, 1, 0, 1, 0, 1] ([create_jwt_proc X i, create_jwt_proc X j], s)"
  define tok where "tok = x_jwt_encode X
    [(''sub'', JStr i), (''iat'', JInt \<lfloor>fst (x_time X e2)\<rfloor>)] k1"
  define tok' where "tok' = x_jwt_encode X
    [(''sub'', JStr j), (''iat'', JInt \<lfloor>fst (x_time X (snd (x_time X e2)))\<rfloor>)] k2"
  have run: "fst ?c = [Return (Inr tok), Return (Inr tok')] \<and> map_of (sh_kv (snd ?c)) STORE_KEY_JWT_SECRET = Some (JStr k2)"
    using assms(1,2,3)
    by (simp add: create_jwt_proc_def ensure_secret_proc_def atomic_def get_value_apply set_value_apply world_apply
        act_simps secret_key_def tok_def tok'_def case_prod_beta)
  have steps: "pool_steps ([create_jwt_proc X i, create_jwt_proc X j], s) ([Return (Inr tok), Return (Inr tok')], snd ?c)"
  proof -
    have "pool_steps ([create_jwt_proc X i, create_jwt_proc X j], s) ?c" by (rule schedule_steps) simp
    moreover have "?c = ([Return (Inr tok), Return (Inr tok')], snd ?c)" using run by (metis prod.collapse)
    ultimately show ?thesis by (simp only:)
  qed
  have tok: "tok \<noteq> []" "strip_bearer tok = tok" "x_jwt_decode X tok k2 = None"
    using assms(4,5) strip_bearer_token [of tok tok] by (simp_all add: jwt_roundtrip_def Let_def tok_def)
  show ?thesis
    using steps run tok by (intro exI conjI) (auto simp: verify_terminal_jwt_def act_simps ensure_secret_apply secret_key_def)
qed

lemma first_tokens_race_witness:
  "\<exists>s t tok tok'. pool_steps ([create_jwt_proc (sample_ext\<lparr>x_token_urlsafe := \<lambda>n e. ([if e = 0 then CHR ''a'' else CHR ''b''], e + 1)\<rparr>) ''t1'',
        create_jwt_proc (sample_ext\<lparr>x_token_urlsafe := \<lambda>n e. ([if e = 0 then CHR ''a'' else CHR ''b''], e + 1)\<rparr>) ''t2''], s)
      ([Return (Inr tok), Return (Inr tok')], t)
    \<and> fst (verify_terminal_jwt (sample_ext\<lparr>x_token_urlsafe := \<lambda>n e. ([if e = 0 then CHR ''a'' else CHR ''b''], e + 1)\<rparr>) (Some tok) t)
        = Inl InvalidJwt"
proof -
  let ?X = "sample_ext\<lparr>x_token_urlsafe := \<lambda>n e. ([if e = 0 then CHR ''a'' else CHR ''b''], e + 1)\<rparr>"
  have "jwt_roundtrip ?X" using sample_jwt_roundtrip by (simp add: jwt_roundtrip_def)
  moreover have "x_jwt_decode ?X (x_jwt_encode ?X p ''a'') ''b'' = None" for p
    by (simp add: sample_ext_def sample_encode_def sample_decode_def starts_with_def)
  ultimately obtain tok tok' t where
    run: "pool_steps ([create_jwt_proc ?X ''t1'', create_jwt_proc ?X ''t2''], sample_shard)
        ([Return (Inr tok), Return (Inr tok')], t)"
    and refused: "\<And>u. map_of (sh_kv u) STORE_KEY_JWT_SECRET = map_of (sh_kv t) STORE_KEY_JWT_SECRET
        \<Longrightarrow> verify_terminal_jwt ?X (Some tok) u = (Inl InvalidJwt, u)"
    using first_tokens_race [of sample_shard ?X "''a''" 1 "''b''" 2 "''t1''" "''t2''"]
    by (auto simp: sample_shard_def)
  have "fst (verify_terminal_jwt ?X (Some tok) t) = Inl InvalidJwt" using refused [OF refl] by simp
  with run show ?thesis by blast
qed

lemma rows_of_find: "tbl_find ia_name n (sh_apps s) = None \<longleftrightarrow> rows_of n s = 0"
  by (auto simp: tbl_find_None_iff rows_of_def filter_empty_conv)

lemma books_same:
  "sh_apps t = sh_apps s \<Longrightarrow> sh_tasks t = sh_tasks s \<Longrightarrow>
     rows_of n t = rows_of n s \<and> installs_queued n t = installs_queued n s"
  by (simp add: rows_of_def installs_queued_def)

lemma moves_keeps_in_store: "moves (keeps (\<lambda>s. (sh_apps s, sh_tasks s))) (app_exists_in_store X n)"
  unfolding app_exists_in_store_def by (intro keeps.moves_rules moves_keeps_world_res) simp_all

lemma apps_insert_step:
  "db_apps (apps_insert (queued_row n reason)) s =
     (if tbl_find ia_name n (sh_apps s) \<noteq> None then (Inl UniqueViolation, s)
      else (Inr (queued_row n reason), s\<lparr>sh_apps := sh_apps s @ [queued_row n reason]\<rparr>))"
  by (simp add: apps_insert_def tbl_insert_def queued_row_def act_simps)

text \<open>What one part of an installation does to the books\<close>

definition balanced :: "string \<Rightarrow> install_stage \<times> 'e shard \<Rightarrow> install_stage \<times> 'e shard \<Rightarrow> bool" where
  "balanced n = (\<lambda>(st, s) (st', t).
     installs_queued n t + credit st' + rows_of n s = installs_queued n s + credit st + rows_of n t
     \<and> rows_of n s \<le> rows_of n t \<and> (rows_of n t = rows_of n s \<or> rows_of n t = 1))"

lemma asking_part:
  assumes "resume (install_proc X n reason) s = (p, t)"
  shows "\<exists>st. p = stage_proc X n st \<and> balanced n (Asking reason, s) (st, t)"
proof -
  obtain r u where m: "app_exists_in_store X n s = (r, u)" by (meson surj_pair)
  have "sh_apps u = sh_apps s" "sh_tasks u = sh_tasks s"
    using moves_keepsD [OF moves_keeps_in_store m] by simp_all
  then have same: "balanced n (Asking reason, s) (Checking reason, u)" "balanced n (Asking reason, s) (Finished q, u)" for q
    using books_same [of u s n] by (simp_all add: balanced_def)
  have p: "(p, t) = (case r of Inl e \<Rightarrow> (Return (Inl e), u)
      | Inr b \<Rightarrow> (if \<not> b then Return (Inl (AppDoesNotExist n)) else check_part X n reason, u))"
    using assms by (simp add: install_proc_def resume_then_atomic m)
  show ?thesis
  proof (cases r)
    case (Inl e)
    then show ?thesis using p same(2) by (intro exI [of _ "Finished (Inl e)"]) simp
  next
    case (Inr b)
    then show ?thesis
      using p same by (intro exI [of _ "if b then Checking reason else Finished (Inl (AppDoesNotExist n))"]) simp
  qed
qed

lemma inserting_part:
  assumes "resume (insert_part X n reason) s = (p, t)"
  shows "\<exists>st. p = stage_proc X n st \<and> balanced n (Inserting reason, s) (st, t)"
proof (cases "rows_of n s = 0")
  case True
  then have "p = queue_part X n" "t = s\<lparr>sh_apps := sh_apps s @ [queued_row n reason]\<rparr>"
    using assms by (auto simp: insert_part_def resume_then_atomic apps_insert_step rows_of_find)
  then show ?thesis
    using True by (intro exI [of _ Queuing]) (simp add: balanced_def rows_of_def installs_queued_def queued_row_def)
next
  case False
  then have "p = Return (Inl UniqueViolation)" "t = s"
    using assms by (auto simp: insert_part_def resume_then_atomic apps_insert_step rows_of_find)
  then show ?thesis by (intro exI [of _ "Finished (Inl UniqueViolation)"]) (simp add: balanced_def)
qed

lemma install_part:
  assumes "resume (stage_proc X n st) s = (p, t)"
  shows "\<exists>st'. p = stage_proc X n st' \<and> balanced n (st, s) (st', t)"
proof (cases st)
  case (Asking reason)
  then show ?thesis using assms asking_part by simp
next
  case (Checking reason)
  then show ?thesis
    using assms
    by (intro exI [of _ "if tbl_find ia_name n (sh_apps s) = None then Inserting reason
        else Finished (Inl (AppAlreadyInstalled n))"])
      (auto simp: check_part_def resume_then_atomic app_exists_in_db_apply balanced_def)
next
  case (Inserting reason)
  then show ?thesis using assms inserting_part by simp
next
  case Queuing
  then show ?thesis
    using assms by (intro exI [of _ Announcing])
      (auto simp: queue_part_def resume_then_atomic enqueue_def modify_def balanced_def rows_of_def installs_queued_def)
next
  case Announcing
  obtain r u where m: "on_apps_update X s = (r, u)" by (meson surj_pair)
  then have "p = Return r" "t = u" using assms by (simp_all add: Announcing announce_part_def atomic_def)
  then show ?thesis
    using books_same [of u s n] on_apps_update_frame [OF m]
    by (intro exI [of _ "Finished r"]) (simp add: Announcing balanced_def)
next
  case (Finished r)
  then show ?thesis using assms by (intro exI [of _ st]) (simp add: balanced_def)
qed

lemma install_pool_step:
  assumes "pool_step (map (stage_proc X n) ls, s) (qs, t)"
  shows "\<exists>ls'. qs = map (stage_proc X n) ls' \<and> length ls' = length ls
    \<and> installs_queued n t + sum_list (map credit ls') + rows_of n s = installs_queued n s + sum_list (map credit ls) + rows_of n t
    \<and> rows_of n s \<le> rows_of n t \<and> (rows_of n t = rows_of n s \<or> rows_of n t = 1)"
proof -
  obtain i f p where i: "i < length ls" "stage_proc X n (ls ! i) = Await f" "f s = (p, t)"
      "qs = (map (stage_proc X n) ls)[i := p]"
    using assms by (auto elim!: pool_stepE)
  then have "resume (stage_proc X n (ls ! i)) s = (p, t)" by simp
  then obtain st where st: "p = stage_proc X n st" "balanced n (ls ! i, s) (st, t)" using install_part by blast
  have "credit (ls ! i) \<le> sum_list (map credit ls)"
    using elem_le_sum_list [of i "map credit ls"] i(1) by simp
  moreover have "sum_list (map credit (ls[i := st])) = sum_list (map credit ls) + credit st - credit (ls ! i)"
    using i(1) by (simp add: map_update sum_list_update)
  ultimately show ?thesis
    using i st by (intro exI [of _ "ls[i := st]"]) (auto simp: balanced_def map_update)
qed

lemma install_pool_steps:
  assumes "pool_steps (map (stage_proc X n) ls, s) (qs, t)"
  shows "\<exists>ls'. qs = map (stage_proc X n) ls' \<and> length ls' = length ls
    \<and> installs_queued n t + sum_list (map credit ls') + rows_of n s = installs_queued n s + sum_list (map credit ls) + rows_of n t
    \<and> rows_of n s \<le> rows_of n t \<and> (rows_of n t = rows_of n s \<or> rows_of n t = 1)"
  using assms
proof (induction "(qs, t)" arbitrary: qs t rule: rtranclp_induct)
  case base
  show ?case by blast
next
  case (step d)
  obtain rs u where d: "d = (rs, u)" by (meson surj_pair)
  from step(3) [OF d] obtain ls' where ls': "rs = map (stage_proc X n) ls'" "length ls' = length ls"
    "installs_queued n u + sum_list (map credit ls') + rows_of n s = installs_queued n s + sum_list (map credit ls) + rows_of n u"
    "rows_of n s \<le> rows_of n u" "rows_of n u = rows_of n s \<or> rows_of n u = 1" by blast
  from install_pool_step [of X n ls' u qs t] step(2) d ls'(1) obtain ls'' where "qs = map (stage_proc X n) ls''"
    "length ls'' = length ls'"
    "installs_queued n t + sum_list (map credit ls'') + rows_of n u = installs_queued n u + sum_list (map credit ls') + rows_of n t"
    "rows_of n u \<le> rows_of n t" "rows_of n t = rows_of n u \<or> rows_of n t = 1" by blast
  then show ?case using ls'(2-5) by (intro exI [of _ ls'']) auto
qed

text \<open>
  C7. However many requests to install the same app run at once and however they interleave, together
  they add at most one row, and no more tasks than rows: when none of them is left running, exactly one
  task for each row added.  (The check for an existing row can be passed by all of them; it is the
  primary key that holds.)
\<close>

theorem interleaved_installs_once:
  assumes "pool_steps (map (install_proc X n) reasons, s) (qs, t)"
  shows "rows_of n t \<le> max 1 (rows_of n s) \<and> rows_of n s \<le> rows_of n t
    \<and> installs_queued n t + rows_of n s \<le> installs_queued n s + rows_of n t
    \<and> ((\<forall>q \<in> set qs. \<exists>r. q = Return r) \<longrightarrow>
         installs_queued n t + rows_of n s = installs_queued n s + rows_of n t)"
proof -
  have start: "map (install_proc X n) reasons = map (stage_proc X n) (map Asking reasons)" by simp
  have none: "sum_list (map credit (map Asking reasons)) = 0" by (induction reasons) simp_all
  obtain ls where ls: "qs = map (stage_proc X n) ls"
    "installs_queued n t + sum_list (map credit ls) + rows_of n s = installs_queued n s + rows_of n t"
    "rows_of n s \<le> rows_of n t" "rows_of n t = rows_of n s \<or> rows_of n t = 1"
    using install_pool_steps [OF assms [unfolded start]] none by auto
  have "sum_list (map credit ls) = 0" if "\<forall>q \<in> set qs. \<exists>r. q = Return r"
  proof -
    have "credit l = 0" if "l \<in> set ls" for l
      using \<open>\<forall>q \<in> set qs. \<exists>r. q = Return r\<close> that ls(1)
      by (cases l) (auto simp: queue_part_def then_atomic)
    then show ?thesis by simp
  qed
  then have "(\<forall>q \<in> set qs. \<exists>r. q = Return r) \<longrightarrow> installs_queued n t + rows_of n s = installs_queued n s + rows_of n t"
    using ls(2) by linarith
  moreover have "installs_queued n t + rows_of n s \<le> installs_queued n s + rows_of n t" using ls(2) by linarith
  moreover have "rows_of n t \<le> max 1 (rows_of n s)" using ls(4) by auto
  ultimately show ?thesis using ls(3) by blast
qed

lemma interleaved_installs_once_witness:
  "\<exists>qs t. pool_steps (map (install_proc (sample_ext\<lparr>x_httpx_get := \<lambda>u e. (Inr \<lparr>status_code = 200, body_text = [], body_json = None\<rparr>, e)\<rparr>) ''a'')
        [Reason_STORE, Reason_STORE], sample_shard) (qs, t)
      \<and> qs ! 1 = Return (Inl UniqueViolation) \<and> rows_of ''a'' t = 1 \<and> installs_queued ''a'' t = 1"
proof -
  let ?X = "sample_ext\<lparr>x_httpx_get := \<lambda>u e. (Inr \<lparr>status_code = 200, body_text = [], body_json = None\<rparr>, e)\<rparr>"
  let ?ps = "map (install_proc ?X ''a'') [Reason_STORE, Reason_STORE]"
  let ?c = "schedule [0, 1, 0, 1, 0, 1, 0] (?ps, sample_shard)"
  have store: "app_exists_in_store ?X ''a'' s = (Inr True, s)" for s :: "real shard"
    by (simp add: app_exists_in_store_def world_res_def act_simps sample_ext_def lift_res_def)
  have empty: "sh_apps sample_shard = []" "sh_tasks sample_shard = []" by (simp_all add: sample_shard_def)
  have row: "ia_name (queued_row n reason) = n" for n reason by (simp add: queued_row_def)
  let ?qs = "[announce_part ?X, Return (Inl UniqueViolation)]"
  let ?t = "sample_shard\<lparr>sh_apps := [queued_row ''a'' Reason_STORE],
        sh_tasks := [\<lparr>it_app_name = ''a'', it_task_type = Install_From_Store\<rparr>]\<rparr>"
  have "?c = (?qs, ?t)"
    by (simp add: install_proc_def check_part_def insert_part_def queue_part_def then_atomic store app_exists_in_db_apply
        apps_insert_step enqueue_def modify_def empty row tbl_find_def)
  then have run: "pool_steps (?ps, sample_shard) (?qs, ?t)"
    using schedule_steps [of ?ps "[0, 1, 0, 1, 0, 1, 0]" sample_shard] by simp
  have "rows_of ''a'' ?t \<le> 1 \<and> installs_queued ''a'' ?t \<le> rows_of ''a'' ?t"
    using interleaved_installs_once [OF run] by (simp add: rows_of_def [of _ sample_shard] installs_queued_def [of _ sample_shard] empty)
  moreover have "1 \<le> installs_queued ''a'' ?t" by (simp add: installs_queued_def)
  ultimately have "rows_of ''a'' ?t = 1 \<and> installs_queued ''a'' ?t = 1" by linarith
  with run show ?thesis by (intro exI [of _ ?qs] exI [of _ ?t]) simp
qed

end
