(* ===== verification/Settings_Load.thy ===== *)
theory Settings_Load
  imports Controller Signals
begin

text \<open>
  \<open>settings.py\<close>: where the settings come from (\<open>config.toml\<close>, \<open>local_config.toml\<close> over it, the environment over
  both), the sections with their defaults, and the one instance the process keeps.  Reading a file or the
  environment, merging what was read and the conversions of single values are pydantic-settings and
  parameters (\<open>settings_lib\<close>).
\<close>

section \<open>Sources\<close>

datatype source = Init_Args | Environment string string | Toml string

record 'w settings_lib =
  sl_exists :: "string \<Rightarrow> 'w \<Rightarrow> bool"
  sl_source :: "source \<Rightarrow> 'w \<Rightarrow> dict result"
  sl_merge :: "dict list \<Rightarrow> dict"
  sl_str :: "json \<Rightarrow> string option"
  sl_int :: "json \<Rightarrow> int option"
  sl_float :: "json \<Rightarrow> real option"
  sl_bool :: "json \<Rightarrow> bool option"
  sl_path :: "string \<Rightarrow> path"

definition override_toml_files :: "'w settings_lib \<Rightarrow> 'w \<Rightarrow> string list" where
  "override_toml_files L w = (if sl_exists L ''local_config.toml'' w then [''local_config.toml''] else [])"

text \<open>The first source has the highest priority.\<close>

definition settings_sources :: "'w settings_lib \<Rightarrow> 'w \<Rightarrow> source list" where
  "settings_sources L w =
     [Init_Args, Environment ''FREESHARD_'' ''__''] @ map Toml (rev (override_toml_files L w)) @ [Toml ''config.toml'']"

section \<open>Sections\<close>

definition field_or :: "(json \<Rightarrow> 'a option) \<Rightarrow> dict \<Rightarrow> string \<Rightarrow> 'a \<Rightarrow> 'a result" where
  "field_or f d k x = (case map_of d k of None \<Rightarrow> Inr x | Some j \<Rightarrow> need (f j))"

definition submodel :: "(dict \<Rightarrow> 'a result) \<Rightarrow> json \<Rightarrow> 'a option" where
  "submodel f j =
     (case as_obj j of
        None \<Rightarrow> None
      | Some d \<Rightarrow> (case f d of Inl e \<Rightarrow> None | Inr x \<Rightarrow> Some x))"

fun list_of :: "(json \<Rightarrow> 'a option) \<Rightarrow> json \<Rightarrow> 'a list option" where
  "list_of f (JArr js) = those (map f js)"
| "list_of f _ = None"

text \<open>\<open>dict[str, ...]\<close>: every value is converted; the order of the keys means nothing.\<close>

fun dict_of :: "(json \<Rightarrow> 'a option) \<Rightarrow> json \<Rightarrow> (string \<rightharpoonup> 'a) option" where
  "dict_of f (JObj d) =
     (if list_all (\<lambda>k. Option.bind (map_of d k) f \<noteq> None) (map fst d)
      then Some (\<lambda>k. Option.bind (map_of d k) f) else None)"
| "dict_of f _ = None"

definition dns_of :: "'w settings_lib \<Rightarrow> dict \<Rightarrow> (string \<times> int) result" where
  "dns_of L d =
     bind_res (required (sl_str L) d ''zone'') (\<lambda>z.
     bind_res (field_or (sl_int L) d ''prefix_length'' 6) (\<lambda>n. Inr (z, n)))"

definition backup_timing_of :: "'w settings_lib \<Rightarrow> dict \<Rightarrow> (string \<times> int) result" where
  "backup_timing_of L d =
     bind_res (required (sl_str L) d ''base_schedule'') (\<lambda>c.
     bind_res (required (sl_int L) d ''max_random_delay'') (\<lambda>n. Inr (c, n)))"

definition backup_settings_of :: "'w settings_lib \<Rightarrow> dict \<Rightarrow> (string list \<times> string \<times> int) result" where
  "backup_settings_of L d =
     bind_res (required (list_of (sl_str L)) d ''directories'') (\<lambda>dirs.
     bind_res (required (submodel (backup_timing_of L)) d ''timing'') (\<lambda>t. Inr (dirs, t)))"

definition services_of :: "'w settings_lib \<Rightarrow> dict \<Rightarrow> (string list \<times> string \<times> int) result" where
  "services_of L d = required (submodel (backup_settings_of L)) d ''backup''"

definition traefik_of :: "'w settings_lib \<Rightarrow> dict \<Rightarrow> (string \<times> bool) result" where
  "traefik_of L d =
     bind_res (required (sl_str L) d ''acme_email'') (\<lambda>m.
     bind_res (field_or (sl_bool L) d ''disable_ssl'' False) (\<lambda>b. Inr (m, b)))"

definition app_store_of :: "'w settings_lib \<Rightarrow> dict \<Rightarrow> (string \<times> string) result" where
  "app_store_of L d =
     bind_res (required (sl_str L) d ''base_url'') (\<lambda>u.
     bind_res (required (sl_str L) d ''container_name'') (\<lambda>c. Inr (u, c)))"

definition registry_of :: "'w settings_lib \<Rightarrow> dict \<Rightarrow> registry_settings result" where
  "registry_of L d =
     bind_res (required (sl_str L) d ''uri'') (\<lambda>r.
     bind_res (required (sl_str L) d ''username'') (\<lambda>u.
     bind_res (required (sl_str L) d ''password'') (\<lambda>p.
     Inr \<lparr>reg_uri = r, reg_username = u, reg_password = p\<rparr>)))"

definition lifecycle_of :: "'w settings_lib \<Rightarrow> dict \<Rightarrow> lifecycle_settings result" where
  "lifecycle_of L d =
     bind_res (field_or (sl_int L) d ''refresh_interval'' 30) (\<lambda>r.
     bind_res (field_or (sl_int L) d ''default_idle_for_pause'' 60) (\<lambda>p.
     bind_res (field_or (sl_int L) d ''default_idle_for_stop'' 10800) (\<lambda>q.
     bind_res (field_or (sl_float L) d ''psi_threshold'' 10) (\<lambda>x.
     bind_res (field_or (sl_bool L) d ''pause_enabled'' False) (\<lambda>b.
     Inr \<lparr>refresh_interval = r, default_idle_for_pause = p, default_idle_for_stop = q,
          psi_threshold = x, pause_enabled = b\<rparr>)))))"

definition last_access_settings_of :: "'w settings_lib \<Rightarrow> dict \<Rightarrow> int result" where
  "last_access_settings_of L d = field_or (sl_int L) d ''max_update_frequency'' 60"

definition usage_reporting_of :: "'w settings_lib \<Rightarrow> dict \<Rightarrow> (string \<times> string) result" where
  "usage_reporting_of L d =
     bind_res (required (sl_str L) d ''tracking_schedule'') (\<lambda>t.
     bind_res (required (sl_str L) d ''reporting_schedule'') (\<lambda>r. Inr (t, r)))"

definition pruning_of :: "'w settings_lib \<Rightarrow> dict \<Rightarrow> (string \<times> int \<times> bool) result" where
  "pruning_of L d =
     bind_res (required (sl_str L) d ''schedule'') (\<lambda>c.
     bind_res (field_or (sl_int L) d ''max_age'' 24) (\<lambda>n.
     bind_res (field_or (sl_bool L) d ''enabled'' False) (\<lambda>b. Inr (c, n, b))))"

record apps_settings =
  as_app_store :: "string \<times> string"
  as_registries :: "registry_settings list"
  as_lifecycle :: lifecycle_settings
  as_initial_apps :: "string list"
  as_last_access :: int
  as_usage_reporting :: "string \<times> string"
  as_pruning :: "string \<times> int \<times> bool"

definition apps_settings_of :: "'w settings_lib \<Rightarrow> dict \<Rightarrow> apps_settings result" where
  "apps_settings_of L d =
     bind_res (required (submodel (app_store_of L)) d ''app_store'') (\<lambda>st.
     bind_res (field_or (list_of (submodel (registry_of L))) d ''registries'' []) (\<lambda>rs.
     bind_res (field_or (submodel (lifecycle_of L)) d ''lifecycle'' default_lifecycle_settings) (\<lambda>lc.
     bind_res (field_or (list_of (sl_str L)) d ''initial_apps'' []) (\<lambda>ia.
     bind_res (field_or (submodel (last_access_settings_of L)) d ''last_access'' 60) (\<lambda>la.
     bind_res (required (submodel (usage_reporting_of L)) d ''usage_reporting'') (\<lambda>ur.
     bind_res (required (submodel (pruning_of L)) d ''pruning'') (\<lambda>pr.
     Inr \<lparr>as_app_store = st, as_registries = rs, as_lifecycle = lc, as_initial_apps = ia,
          as_last_access = la, as_usage_reporting = ur, as_pruning = pr\<rparr>)))))))"

definition telemetry_settings_of :: "'w settings_lib \<Rightarrow> dict \<Rightarrow> (bool \<times> int) result" where
  "telemetry_settings_of L d =
     bind_res (field_or (sl_bool L) d ''enabled'' False) (\<lambda>b.
     bind_res (field_or (sl_int L) d ''send_interval_seconds'' 300) (\<lambda>n. Inr (b, n)))"

record database_settings =
  db_host :: string
  db_port :: int
  db_dbname :: string
  db_user :: string
  db_password :: string

definition default_database_settings :: database_settings where
  "default_database_settings =
     \<lparr>db_host = ''postgres'', db_port = 5432, db_dbname = ''shard_core'', db_user = ''shard_core'',
      db_password = ''shard_core''\<rparr>"

definition database_settings_of :: "'w settings_lib \<Rightarrow> dict \<Rightarrow> database_settings result" where
  "database_settings_of L d =
     bind_res (field_or (sl_str L) d ''host'' ''postgres'') (\<lambda>h.
     bind_res (field_or (sl_int L) d ''port'' 5432) (\<lambda>p.
     bind_res (field_or (sl_str L) d ''dbname'' ''shard_core'') (\<lambda>n.
     bind_res (field_or (sl_str L) d ''user'' ''shard_core'') (\<lambda>u.
     bind_res (field_or (sl_str L) d ''password'' ''shard_core'') (\<lambda>w.
     Inr \<lparr>db_host = h, db_port = p, db_dbname = n, db_user = u, db_password = w\<rparr>)))))"

definition terminal_settings_of :: "'w settings_lib \<Rightarrow> dict \<Rightarrow> (int \<times> int) result" where
  "terminal_settings_of L d =
     bind_res (field_or (sl_int L) d ''pairing_code_deadline'' 600) (\<lambda>c.
     bind_res (field_or (sl_int L) d ''jwt_secret_length'' 64) (\<lambda>n. Inr (c, n)))"

definition log_levels_of :: "'w settings_lib \<Rightarrow> dict \<Rightarrow> (string \<rightharpoonup> string) result" where
  "log_levels_of L d = field_or (dict_of (sl_str L)) d ''levels'' Map.empty"

section \<open>Settings\<close>

record loaded_settings =
  ls_settings :: settings
  ls_db :: database_settings
  ls_log_levels :: "string \<rightharpoonup> string"

text \<open>Names that are no fields are ignored in the sections and refused at the top (\<open>BaseSettings\<close> forbids extras).\<close>

definition settings_fields :: "string list" where
  "settings_fields =
     [''path_root'', ''path_root_host'', ''db'', ''dns'', ''services'', ''traefik'', ''apps'', ''telemetry'',
      ''management'', ''freeshard_controller'', ''log'', ''terminal'']"

definition settings_of :: "'w settings_lib \<Rightarrow> dict \<Rightarrow> loaded_settings result" where
  "settings_of L d =
     (if \<not> list_all (\<lambda>k. k \<in> set settings_fields) (map fst d) then Inl ValidationError else
     bind_res (field_or (sl_str L) d ''path_root'' ''/'') (\<lambda>root.
     bind_res (field_or (sl_str L) d ''path_root_host'' ''/home/shard'') (\<lambda>host.
     bind_res (field_or (submodel (database_settings_of L)) d ''db'' default_database_settings) (\<lambda>db.
     bind_res (required (submodel (dns_of L)) d ''dns'') (\<lambda>(zone, prefix).
     bind_res (required (submodel (services_of L)) d ''services'') (\<lambda>(dirs, schedule, delay).
     bind_res (required (submodel (traefik_of L)) d ''traefik'') (\<lambda>(email, nossl).
     bind_res (required (submodel (apps_settings_of L)) d ''apps'') (\<lambda>a.
     bind_res (field_or (submodel (telemetry_settings_of L)) d ''telemetry'' (False, 300)) (\<lambda>(tele, interval).
     bind_res (required (submodel (\<lambda>m. required (sl_str L) m ''api_url'')) d ''management'') (\<lambda>api.
     bind_res (required (submodel (\<lambda>m. required (sl_str L) m ''base_url'')) d ''freeshard_controller'') (\<lambda>ctl.
     bind_res (field_or (submodel (log_levels_of L)) d ''log'' Map.empty) (\<lambda>levels.
     bind_res (field_or (submodel (terminal_settings_of L)) d ''terminal'' (600, 64)) (\<lambda>(deadline, len).
     Inr \<lparr>ls_settings =
            \<lparr>path_root = sl_path L root, path_root_host = host, dns_zone = zone, dns_prefix_length = prefix,
             backup_dirs = dirs, disable_ssl = nossl, app_store_base_url = fst (as_app_store a),
             app_store_container = snd (as_app_store a), registries = as_registries a, lifecycle_cfg = as_lifecycle a,
             initial_apps = as_initial_apps a, max_update_frequency = as_last_access a,
             pruning_max_age = fst (snd (as_pruning a)), pruning_enabled = snd (snd (as_pruning a)),
             telemetry_enabled = tele, management_api_url = api, controller_base_url = ctl,
             pairing_code_deadline = deadline, jwt_secret_length = len, acme_email = email,
             telemetry_interval = interval, tracking_schedule = fst (as_usage_reporting a),
             reporting_schedule = snd (as_usage_reporting a), pruning_schedule = fst (as_pruning a),
             backup_schedule = schedule, backup_max_random_delay = delay\<rparr>,
          ls_db = db, ls_log_levels = levels\<rparr>)))))))))))))"

text \<open>\<open>Settings()\<close>: without arguments the first source is empty.\<close>

definition read_source :: "'w settings_lib \<Rightarrow> 'w \<Rightarrow> source \<Rightarrow> dict result" where
  "read_source L w src = (case src of Init_Args \<Rightarrow> Inr [] | _ \<Rightarrow> sl_source L src w)"

definition load_settings :: "'w settings_lib \<Rightarrow> 'w \<Rightarrow> loaded_settings result" where
  "load_settings L w =
     bind_res (collect_res (read_source L w) (settings_sources L w)) (\<lambda>ds. settings_of L (sl_merge L ds))"

text \<open>The instance of the module, and the functions around it\<close>

record 'w settings_module =
  sm_instance :: "loaded_settings option"
  sm_world :: 'w

definition get_settings :: "'w settings_lib \<Rightarrow> ('w settings_module, loaded_settings) act" where
  "get_settings L m =
     (case sm_instance m of
        Some i \<Rightarrow> (Inr i, m)
      | None \<Rightarrow>
          (case load_settings L (sm_world m) of
             Inl e \<Rightarrow> (Inl e, m)
           | Inr i \<Rightarrow> (Inr i, m\<lparr>sm_instance := Some i\<rparr>)))"

definition set_settings :: "loaded_settings \<Rightarrow> ('w settings_module, unit) act" where
  "set_settings i m = (Inr (), m\<lparr>sm_instance := Some i\<rparr>)"

definition reset_settings :: "('w settings_module, unit) act" where
  "reset_settings m = (Inr (), m\<lparr>sm_instance := None\<rparr>)"

section \<open>Merging\<close>

text \<open>
  What pydantic-settings documents of merging: one source is taken as it is, a key has the value of the
  first source that has it, values that are all objects are merged in turn, and the value of a key is
  made from the values that the sources have for this key.
\<close>

abbreviation is_obj :: "json \<Rightarrow> bool" where
  "is_obj j \<equiv> as_obj j \<noteq> None"

primrec values_at :: "dict list \<Rightarrow> string \<Rightarrow> json list" where
  "values_at [] k = []"
| "values_at (d # ds) k = (case map_of d k of None \<Rightarrow> values_at ds k | Some v \<Rightarrow> v # values_at ds k)"

definition deep_merge :: "(dict list \<Rightarrow> dict) \<Rightarrow> bool" where
  "deep_merge m \<longleftrightarrow>
     (\<forall>d. m [d] = d)
     \<and> (\<forall>ds k. map_of (m ds) k = None \<longleftrightarrow> values_at ds k = [])
     \<and> (\<forall>ds ds' k. values_at ds k = values_at ds' k \<longrightarrow> map_of (m ds) k = map_of (m ds') k)
     \<and> (\<forall>ds k v vs. values_at ds k = v # vs \<longrightarrow> \<not> is_obj v \<longrightarrow> map_of (m ds) k = Some v)
     \<and> (\<forall>ds k os. values_at ds k = map JObj os \<longrightarrow> os \<noteq> [] \<longrightarrow> map_of (m ds) k = Some (JObj (m os)))"

text \<open>Such a function\<close>

abbreviation dict_size :: "dict \<Rightarrow> nat" where
  "dict_size d \<equiv> size_list (size_prod (\<lambda>_. 0) size) d"

lemma map_of_size: "map_of d k = Some (JObj o') \<Longrightarrow> dict_size o' < dict_size d"
  by (induction d) (auto split: if_splits)

lemma objects_size:
  "those (map as_obj (values_at ds k)) = Some os \<Longrightarrow>
     sum_list (map dict_size os) + length os \<le> sum_list (map dict_size ds)"
proof (induction ds arbitrary: os)
  case Nil
  then show ?case by simp
next
  case (Cons d ds)
  show ?case
  proof (cases "map_of d k")
    case None
    then show ?thesis using Cons by fastforce
  next
    case (Some j)
    then obtain ob os' where o: "as_obj j = Some ob" "those (map as_obj (values_at ds k)) = Some os'" "os = ob # os'"
      using Cons.prems by (auto split: option.splits)
    then have "j = JObj ob" by (cases j) auto
    then have "dict_size ob < dict_size d" using map_of_size Some by blast
    then show ?thesis using Cons.IH [OF o(2)] o(3) by simp
  qed
qed

function merge_dicts :: "dict list \<Rightarrow> dict" where
  "merge_dicts ds =
     (if length ds = 1 then hd ds
      else map (\<lambda>k. (k, case those (map as_obj (values_at ds k)) of
                           Some os \<Rightarrow> if os = [] then JNull else JObj (merge_dicts os)
                         | None \<Rightarrow> hd (values_at ds k)))
             (remdups (concat (map (map fst) ds))))"
  by pat_completeness auto
termination
proof (relation "measure (\<lambda>ds. sum_list (map dict_size ds))")
  fix ds :: "dict list" and k os
  assume "those (map as_obj (values_at ds k)) = Some os" "os \<noteq> []"
  then show "(os, ds) \<in> measure (\<lambda>ds. sum_list (map dict_size ds))"
    using objects_size [of ds k os] by (cases os) auto
qed simp

declare merge_dicts.simps [simp del]

lemma values_at_empty: "values_at ds k = [] \<longleftrightarrow> k \<notin> set (concat (map (map fst) ds))"
  by (induction ds) (force simp: map_of_eq_None_iff split: option.splits dest: map_of_SomeD)+

lemma map_of_keys: "map_of (map (\<lambda>k. (k, f k)) ks) k = (if k \<in> set ks then Some (f k) else None)"
  by (induction ks) auto

lemma those_objects: "those (map as_obj (map JObj os)) = Some os"
  by (induction os) simp_all

lemma map_of_merge_dicts:
  "map_of (merge_dicts ds) k =
     (if length ds = 1 then map_of (hd ds) k
      else if values_at ds k = [] then None
      else Some (case those (map as_obj (values_at ds k)) of
                   Some os \<Rightarrow> if os = [] then JNull else JObj (merge_dicts os)
                 | None \<Rightarrow> hd (values_at ds k)))"
  by (simp add: merge_dicts.simps [of ds] map_of_keys values_at_empty)

lemma merge_single: "merge_dicts [d] = d"
  by (simp add: merge_dicts.simps)

lemma merge_dicts_deep: "deep_merge merge_dicts"
  unfolding deep_merge_def
proof (intro conjI allI impI)
  fix d show "merge_dicts [d] = d" by (rule merge_single)
next
  fix ds k
  show "map_of (merge_dicts ds) k = None \<longleftrightarrow> values_at ds k = []"
    by (cases ds) (auto simp: map_of_merge_dicts split: option.splits)
next
  fix ds ds' :: "dict list" and k
  assume same: "values_at ds k = values_at ds' k"
  have general: "map_of (merge_dicts es) k =
      (if values_at es k = [] then None
       else Some (case those (map as_obj (values_at es k)) of
                    Some os \<Rightarrow> if os = [] then JNull else JObj (merge_dicts os)
                  | None \<Rightarrow> hd (values_at es k)))" for es
  proof (cases "length es = 1")
    case True
    then obtain d where d: "es = [d]" by (auto simp: length_Suc_conv)
    show ?thesis
    proof (cases "map_of d k")
      case (Some v)
      then show ?thesis by (cases v) (simp_all add: d merge_single)
    qed (simp add: d merge_single)
  next
    case False
    then show ?thesis by (simp add: map_of_merge_dicts)
  qed
  show "map_of (merge_dicts ds) k = map_of (merge_dicts ds') k"
    unfolding general same ..
next
  fix ds k v vs
  assume v: "values_at ds k = v # vs" "\<not> is_obj v"
  then show "map_of (merge_dicts ds) k = Some v"
    by (cases ds) (auto simp: map_of_merge_dicts split: option.splits)
next
  fix ds k os
  assume o: "values_at ds k = map JObj os" "os \<noteq> []"
  show "map_of (merge_dicts ds) k = Some (JObj (merge_dicts os))"
  proof (cases "length ds = 1")
    case True
    then obtain d where d: "ds = [d]" by (auto simp: length_Suc_conv)
    then obtain ob where "map_of d k = Some (JObj ob)" "os = [ob]"
      using o by (auto split: option.splits)
    then show ?thesis using d by (simp add: merge_single)
  next
    case False
    then show ?thesis using o those_objects [of os] by (simp add: map_of_merge_dicts)
  qed
qed

section \<open>One field in place\<close>

text \<open>
  A dictionary in which the value at a path of keys is set, where the tables on the way are made if they
  are missing; a file with this one value is \<open>set_at p j []\<close>.
\<close>

fun set_at :: "string list \<Rightarrow> json \<Rightarrow> dict \<Rightarrow> dict" where
  "set_at [] j d = d"
| "set_at [k] j d = dict_set d k j"
| "set_at (k # k' # ks) j d =
     dict_set d k (JObj (set_at (k' # ks) j (case map_of d k of Some (JObj ob) \<Rightarrow> ob | _ \<Rightarrow> [])))"

text \<open>The path leads through tables only, as far as it exists; and it leads to no value.\<close>

fun tables_along :: "string list \<Rightarrow> dict \<Rightarrow> bool" where
  "tables_along (k # k' # ks) d =
     (case map_of d k of None \<Rightarrow> True | Some (JObj ob) \<Rightarrow> tables_along (k' # ks) ob | Some _ \<Rightarrow> False)"
| "tables_along _ d = True"

fun unset_along :: "string list \<Rightarrow> dict \<Rightarrow> bool" where
  "unset_along [] d = True"
| "unset_along [k] d = (map_of d k = None)"
| "unset_along (k # k' # ks) d =
     (case map_of d k of None \<Rightarrow> True | Some (JObj ob) \<Rightarrow> unset_along (k' # ks) ob | Some _ \<Rightarrow> False)"

text \<open>Dictionaries with the same values, in tables with the same values, in whatever order\<close>

inductive same_dict :: "dict \<Rightarrow> dict \<Rightarrow> bool" where
  same: "(\<And>k. map_of d k = map_of d' k
      \<or> (\<exists>ob ob'. map_of d k = Some (JObj ob) \<and> map_of d' k = Some (JObj ob') \<and> same_dict ob ob')) \<Longrightarrow>
    same_dict d d'"

inductive_cases same_dictE: "same_dict d d'"

lemma same_dictD:
  assumes "same_dict d d'"
  shows "map_of d k = map_of d' k
    \<or> (\<exists>ob ob'. map_of d k = Some (JObj ob) \<and> map_of d' k = Some (JObj ob') \<and> same_dict ob ob')"
  using assms by (auto elim: same_dictE)

lemma values_at_append: "values_at (ds @ es) k = values_at ds k @ values_at es k"
  by (induction ds) (simp_all split: option.split)

lemma values_at_tables:
  assumes "list_all (tables_along (k # k' # ks)) ds"
  shows "\<exists>os. values_at ds k = map JObj os \<and> list_all (tables_along (k' # ks)) os"
  using assms
proof (induction ds)
  case (Cons d ds)
  then obtain os where os: "values_at ds k = map JObj os" "list_all (tables_along (k' # ks)) os" by auto
  show ?case
  proof (cases "map_of d k")
    case (Some v)
    then obtain ob where "v = JObj ob" "tables_along (k' # ks) ob" using Cons.prems by (cases v) auto
    then show ?thesis using Some os by (intro exI [of _ "ob # os"]) simp
  next
    case None
    then show ?thesis using os by (intro exI [of _ os]) simp
  qed
qed simp

lemma values_at_unset:
  assumes "list_all (unset_along (k # k' # ks)) ds"
  shows "\<exists>os. values_at ds k = map JObj os \<and> list_all (unset_along (k' # ks)) os"
  using assms
proof (induction ds)
  case (Cons d ds)
  then obtain os where os: "values_at ds k = map JObj os" "list_all (unset_along (k' # ks)) os" by auto
  show ?case
  proof (cases "map_of d k")
    case (Some v)
    then obtain ob where "v = JObj ob" "unset_along (k' # ks) ob" using Cons.prems by (cases v) auto
    then show ?thesis using Some os by (intro exI [of _ "ob # os"]) simp
  next
    case None
    then show ?thesis using os by (intro exI [of _ os]) simp
  qed
qed simp

lemma values_at_unset_last: "list_all (unset_along [k]) ds \<Longrightarrow> values_at ds k = []"
  by (induction ds) auto

lemma merge_nothing: "deep_merge m \<Longrightarrow> m [] = []"
proof -
  assume m: "deep_merge m"
  then have none: "map_of (m []) k = None" for k by (simp add: deep_merge_def)
  show "m [] = []"
  proof (cases "m []")
    case (Cons kv d)
    then show ?thesis using none [of "fst kv"] by (cases kv) simp
  qed
qed

lemma merged_objects:
  assumes "deep_merge m" and "values_at ds k = map JObj os"
  shows "map_of (m ds) k = (if os = [] then None else Some (JObj (m os)))"
  using assms by (auto simp: deep_merge_def)

text \<open>
  Merging a file with one value between sources that do not set it and sources with lower priority is
  the same as merging without the file and setting the value.
\<close>

lemma merge_one_value:
  assumes m: "deep_merge m" and "p \<noteq> []" and "\<not> is_obj j"
    and "list_all (unset_along p) es" and "list_all (tables_along p) cs"
  shows "same_dict (m (es @ set_at p j [] # cs)) (set_at p j (m (es @ cs)))"
  using assms(2-)
proof (induction p j "[] :: dict" arbitrary: es cs rule: set_at.induct)
  case (1 j)
  then show ?case by simp
next
  case (2 k j)
  have "values_at (es @ set_at [k] j [] # cs) k = j # values_at cs k"
    using 2 by (simp add: values_at_append values_at_unset_last)
  then have "map_of (m (es @ set_at [k] j [] # cs)) k = Some j"
    using m 2(2) unfolding deep_merge_def by blast
  moreover have "map_of (m (es @ set_at [k] j [] # cs)) i = map_of (m (es @ cs)) i" if "i \<noteq> k" for i
  proof -
    have "values_at (es @ set_at [k] j [] # cs) i = values_at (es @ cs) i"
      using that by (simp add: values_at_append)
    then show ?thesis using m unfolding deep_merge_def by blast
  qed
  ultimately show ?case by (intro same) (simp add: fun_eq_iff)
next
  case (3 k k' ks j)
  let ?p = "k' # ks"
  obtain es' where es: "values_at es k = map JObj es'" "list_all (unset_along ?p) es'"
    using values_at_unset 3(4) by blast
  obtain cs' where cs: "values_at cs k = map JObj cs'" "list_all (tables_along ?p) cs'"
    using values_at_tables 3(5) by blast
  have local_file: "set_at (k # ?p) j [] = [(k, JObj (set_at ?p j []))]" by simp
  have "map_of (m (es @ cs)) k = (if es' @ cs' = [] then None else Some (JObj (m (es' @ cs'))))"
    by (rule merged_objects [OF m]) (simp add: values_at_append es cs)
  then have "(case map_of (m (es @ cs)) k of Some (JObj ob) \<Rightarrow> ob | _ \<Rightarrow> []) = m (es' @ cs')"
    using merge_nothing [OF m] by (auto split: if_splits)
  then have right: "map_of (set_at (k # ?p) j (m (es @ cs))) k = Some (JObj (set_at ?p j (m (es' @ cs'))))"
    by simp
  have "values_at (es @ set_at (k # ?p) j [] # cs) k = map JObj (es' @ set_at ?p j [] # cs')"
    unfolding local_file by (simp add: values_at_append es cs)
  then have left: "map_of (m (es @ set_at (k # ?p) j [] # cs)) k = Some (JObj (m (es' @ set_at ?p j [] # cs')))"
    using merged_objects [OF m] by fastforce
  have inner: "same_dict (m (es' @ set_at ?p j [] # cs')) (set_at ?p j (m (es' @ cs')))"
    using 3(1) [of es' cs'] 3(3) es(2) cs(2) by simp
  have other: "map_of (m (es @ set_at (k # ?p) j [] # cs)) i = map_of (set_at (k # ?p) j (m (es @ cs))) i"
    if "i \<noteq> k" for i
  proof -
    have "values_at (es @ set_at (k # ?p) j [] # cs) i = values_at (es @ cs) i"
      unfolding local_file using that by (simp add: values_at_append)
    then have "map_of (m (es @ set_at (k # ?p) j [] # cs)) i = map_of (m (es @ cs)) i"
      using m unfolding deep_merge_def by blast
    then show ?thesis using that by simp
  qed
  show ?case
  proof (rule same)
    fix i
    show "map_of (m (es @ set_at (k # ?p) j [] # cs)) i = map_of (set_at (k # ?p) j (m (es @ cs))) i
      \<or> (\<exists>ob ob'. map_of (m (es @ set_at (k # ?p) j [] # cs)) i = Some (JObj ob)
          \<and> map_of (set_at (k # ?p) j (m (es @ cs))) i = Some (JObj ob') \<and> same_dict ob ob')"
    proof (cases "i = k")
      case True
      then show ?thesis using left right inner by blast
    next
      case False
      then show ?thesis using other by blast
    qed
  qed
qed

section \<open>Settings depend on values only\<close>

text \<open>
  \<open>reads_values f\<close> and \<open>reads_tables g\<close>: the conversion of a value or a table gives the same for tables with
  the same values.  The conversions of single values do, since they refuse tables.
\<close>

definition reads_values :: "(json \<Rightarrow> 'a option) \<Rightarrow> bool" where
  "reads_values f \<longleftrightarrow> (\<forall>d d'. same_dict d d' \<longrightarrow> f (JObj d) = f (JObj d'))"

definition reads_tables :: "(dict \<Rightarrow> 'a result) \<Rightarrow> bool" where
  "reads_tables g \<longleftrightarrow> (\<forall>d d'. same_dict d d' \<longrightarrow> g d = g d')"

definition scalar_readers :: "'w settings_lib \<Rightarrow> bool" where
  "scalar_readers L \<longleftrightarrow>
     (\<forall>d. sl_str L (JObj d) = None \<and> sl_int L (JObj d) = None \<and> sl_float L (JObj d) = None
        \<and> sl_bool L (JObj d) = None)"

lemma reads_scalar:
  assumes "scalar_readers L"
  shows "reads_values (sl_str L)" "reads_values (sl_int L)" "reads_values (sl_float L)" "reads_values (sl_bool L)"
  using assms by (simp_all add: reads_values_def scalar_readers_def)

lemma reads_submodel: "reads_tables g \<Longrightarrow> reads_values (submodel g)"
  by (auto simp: reads_values_def reads_tables_def submodel_def)

lemma reads_list_of: "reads_values (list_of f)"
  by (simp add: reads_values_def)

lemma reads_dict_of:
  assumes "reads_values f"
  shows "reads_values (dict_of f)"
  unfolding reads_values_def
proof (intro allI impI)
  fix d d' assume same: "same_dict d d'"
  have at: "Option.bind (map_of d k) f = Option.bind (map_of d' k) f" for k
    using same_dictD [OF same, of k] assms by (auto simp: reads_values_def)
  have keys: "set (map fst d) = set (map fst d')"
  proof -
    have "(map_of d k = None) = (map_of d' k = None)" for k using same_dictD [OF same, of k] by auto
    then show ?thesis by (auto simp: map_of_eq_None_iff)
  qed
  have lists: "list_all P (map fst d) = list_all P (map fst d')" for P unfolding list_all_iff keys ..
  show "dict_of f (JObj d) = dict_of f (JObj d')" by (simp only: dict_of.simps at lists)
qed

lemma reads_at:
  assumes "reads_values f" and "same_dict d d'"
  shows "map_option f (map_of d k) = map_option f (map_of d' k)"
  using same_dictD [OF assms(2), of k] assms(1) by (auto simp: reads_values_def)

lemma required_map: "required f d k = (case map_option f (map_of d k) of None \<Rightarrow> Inl ValidationError | Some v \<Rightarrow> need v)"
  by (simp add: required_def split: option.split)

lemma field_or_map: "field_or f d k x = (case map_option f (map_of d k) of None \<Rightarrow> Inr x | Some v \<Rightarrow> need v)"
  by (simp add: field_or_def split: option.split)

lemma reads_required: "reads_values f \<Longrightarrow> reads_tables (\<lambda>d. required f d k)"
proof -
  assume "reads_values f"
  then have "required f d k = required f e k" if "same_dict d e" for d e
    unfolding required_map using reads_at that by metis
  then show ?thesis by (simp add: reads_tables_def)
qed

lemma reads_field_or: "reads_values f \<Longrightarrow> reads_tables (\<lambda>d. field_or f d k x)"
proof -
  assume "reads_values f"
  then have "field_or f d k x = field_or f e k x" if "same_dict d e" for d e
    unfolding field_or_map using reads_at that by metis
  then show ?thesis by (simp add: reads_tables_def)
qed

lemma reads_bind: "reads_tables g \<Longrightarrow> (\<And>x. reads_tables (\<lambda>d. h d x)) \<Longrightarrow> reads_tables (\<lambda>d. bind_res (g d) (h d))"
  by (fastforce simp: reads_tables_def bind_res_def split: sum.split)

lemma reads_const: "reads_tables (\<lambda>d. r)"
  by (simp add: reads_tables_def)

lemma reads_pair: "(\<And>a b. reads_tables (\<lambda>d. h d a b)) \<Longrightarrow> reads_tables (\<lambda>d. case x of (a, b) \<Rightarrow> h d a b)"
  by (cases x) simp

lemmas reads_rules = reads_bind reads_pair reads_required reads_field_or reads_submodel reads_list_of reads_dict_of
  reads_const reads_scalar

lemma reads_sections:
  assumes "scalar_readers L"
  shows "reads_tables (database_settings_of L)" "reads_tables (dns_of L)" "reads_tables (services_of L)"
    "reads_tables (traefik_of L)" "reads_tables (apps_settings_of L)" "reads_tables (telemetry_settings_of L)"
    "reads_tables (log_levels_of L)" "reads_tables (terminal_settings_of L)"
  unfolding database_settings_of_def dns_of_def services_of_def backup_settings_of_def backup_timing_of_def
    traefik_of_def apps_settings_of_def app_store_of_def lifecycle_of_def last_access_settings_of_def
    usage_reporting_of_def pruning_of_def telemetry_settings_of_def log_levels_of_def terminal_settings_of_def
  by (intro reads_rules assms)+

lemma reads_settings:
  assumes "scalar_readers L"
  shows "reads_tables (settings_of L)"
proof -
  have keys: "list_all P (map fst d) = list_all P (map fst d')" if "same_dict d d'" for P d d'
  proof -
    have "(map_of d k = None) = (map_of d' k = None)" for k using same_dictD [OF that, of k] by auto
    then have "set (map fst d) = set (map fst d')" by (auto simp: map_of_eq_None_iff)
    then show ?thesis unfolding list_all_iff by simp
  qed
  have guard: "reads_tables (\<lambda>d. if \<not> list_all P (map fst d) then Inl e else g d)" if "reads_tables g" for P e g
    using that keys unfolding reads_tables_def by metis
  show ?thesis
    unfolding settings_of_def
    by (rule guard) (intro reads_rules reads_sections assms)
qed

section \<open>Properties\<close>

text \<open>
  C38. A \<open>local_config.toml\<close> that sets one field, in any section and at any depth, changes that field of the
  settings and nothing else: the settings loaded are those of the configuration that the environment and
  \<open>config.toml\<close> give without the file, with this one value set in place (the other fields of its section
  and its subsections stay), provided the environment does not set the field itself, which has priority,
  and every name on the way is a table where the other sources have it.  Given: sources are merged as
  pydantic-settings documents, and a string, number or truth value is not converted from a table.
\<close>

theorem local_config_replaces_one_field:
  assumes "deep_merge (sl_merge L)" and "scalar_readers L" and "sl_exists L ''local_config.toml'' w"
    and "sl_source L (Environment ''FREESHARD_'' ''__'') w = Inr e"
    and "sl_source L (Toml ''local_config.toml'') w = Inr (set_at p j [])"
    and "sl_source L (Toml ''config.toml'') w = Inr c"
    and "p \<noteq> []" and "\<not> is_obj j" and "unset_along p e" and "tables_along p c"
  shows "load_settings L w = settings_of L (set_at p j (sl_merge L [[], e, c]))"
proof -
  have load: "load_settings L w = settings_of L (sl_merge L ([[], e] @ set_at p j [] # [c]))"
    using assms(3-6) by (simp add: load_settings_def settings_sources_def override_toml_files_def read_source_def)
  have "unset_along p []" by (cases "(p, j, [] :: dict)" rule: set_at.cases) simp_all
  then have "same_dict (sl_merge L ([[], e] @ set_at p j [] # [c])) (set_at p j (sl_merge L ([[], e] @ [c])))"
    using assms by (intro merge_one_value) simp_all
  then show ?thesis
    using reads_settings [OF assms(2)] unfolding load reads_tables_def by simp
qed

definition sample_config :: dict where
  "sample_config =
     [(''dns'', JObj [(''zone'', JStr ''z'')]),
      (''services'', JObj [(''backup'', JObj [(''directories'', JArr [JStr ''core'']),
         (''timing'', JObj [(''base_schedule'', JStr ''b''), (''max_random_delay'', JInt 0)])])]),
      (''traefik'', JObj [(''acme_email'', JStr ''e'')]),
      (''apps'', JObj [(''app_store'', JObj [(''base_url'', JStr ''s''), (''container_name'', JStr ''c'')]),
         (''usage_reporting'', JObj [(''tracking_schedule'', JStr ''t''), (''reporting_schedule'', JStr ''r'')]),
         (''pruning'', JObj [(''schedule'', JStr ''p'')])]),
      (''management'', JObj [(''api_url'', JStr ''m'')]),
      (''freeshard_controller'', JObj [(''base_url'', JStr ''f'')])]"

fun as_float :: "json \<Rightarrow> real option" where
  "as_float (JFloat x) = Some x"
| "as_float _ = None"

text \<open>
  \<open>local_config.toml\<close> sets the schedule of backups, two tables deep, and the environment the bound of their
  random delay, in the same table.
\<close>

definition sample_settings_lib :: "unit settings_lib" where
  "sample_settings_lib =
     \<lparr>sl_exists = (\<lambda>_ _. True),
      sl_source = (\<lambda>src _. Inr (if src = Toml ''config.toml'' then sample_config
        else if src = Toml ''local_config.toml''
        then set_at [''services'', ''backup'', ''timing'', ''base_schedule''] (JStr ''new'') []
        else set_at [''services'', ''backup'', ''timing'', ''max_random_delay''] (JInt 7) [])),
      sl_merge = merge_dicts, sl_str = as_str, sl_int = as_int, sl_float = as_float, sl_bool = as_bool,
      sl_path = (\<lambda>s. [])\<rparr>"

lemma local_config_replaces_one_field_witness:
  "case load_settings sample_settings_lib () of
     Inl _ \<Rightarrow> False
   | Inr r \<Rightarrow> ls_settings r = sample_cfg\<lparr>path_root := [], path_root_host := ''/home/shard'',
         backup_schedule := ''new'', backup_max_random_delay := 7\<rparr>"
proof -
  let ?p = "[''services'', ''backup'', ''timing'', ''base_schedule'']"
  let ?e = "set_at [''services'', ''backup'', ''timing'', ''max_random_delay''] (JInt 7) []"
  have "deep_merge (sl_merge sample_settings_lib)" by (simp add: sample_settings_lib_def merge_dicts_deep)
  moreover have "scalar_readers sample_settings_lib" by (simp add: scalar_readers_def sample_settings_lib_def)
  moreover have "unset_along ?p ?e" "tables_along ?p sample_config" by (simp_all add: sample_config_def)
  ultimately have load: "load_settings sample_settings_lib () =
      settings_of sample_settings_lib (set_at ?p (JStr ''new'') (sl_merge sample_settings_lib [[], ?e, sample_config]))"
    using local_config_replaces_one_field [of sample_settings_lib "()" ?e ?p "JStr ''new''" sample_config]
    by (simp add: sample_settings_lib_def)
  show ?thesis unfolding load by code_simp
qed

text \<open>
  The first successful load is kept: later calls give the same settings, whatever the files have become,
  until the instance is set or reset.
\<close>

lemma settings_kept:
  assumes "get_settings L m = (Inr i, m')"
  shows "get_settings L (m'\<lparr>sm_world := w\<rparr>) = (Inr i, m'\<lparr>sm_world := w\<rparr>)"
  using assms by (auto simp: get_settings_def split: option.splits sum.splits)

lemma settings_set: "get_settings L (snd (set_settings i m)) = (Inr i, snd (set_settings i m))"
  by (simp add: get_settings_def set_settings_def)

lemma settings_reset: "fst (get_settings L (snd (reset_settings m))) = load_settings L (sm_world m)"
  by (simp add: get_settings_def reset_settings_def split: sum.split)

end
