(* ===== verification/Connection.thy ===== *)
theory Connection
  imports Settings_Load
begin

text \<open>
  \<open>database/connection.py\<close>, \<open>database/migration.py\<close> and the start and end of \<open>database/database.py\<close>: the pool
  of the process, the URL the migrations use, and the order of the start.  The pool, the migrations (yoyo)
  and a transaction on a connection are psycopg's and yoyo's and are parameters (\<open>db_lib\<close>).
\<close>

record conn_pool =
  pool_conninfo :: database_settings
  pool_max_size :: nat
  pool_timeout :: nat

record 'w db_lib =
  dl_get_backend :: "string \<Rightarrow> 'w \<Rightarrow> unit result \<times> 'w"
  dl_apply_migrations :: "string \<Rightarrow> string \<Rightarrow> 'w \<Rightarrow> unit result \<times> 'w"
  dl_open :: "conn_pool \<Rightarrow> 'w \<Rightarrow> unit result \<times> 'w"
  dl_close :: "conn_pool \<Rightarrow> 'w \<Rightarrow> unit result \<times> 'w"

record 'w db_module =
  dm_settings :: "'w settings_module"
  dm_pool :: "conn_pool option"

definition module_settings :: "'w settings_lib \<Rightarrow> ('w db_module, loaded_settings) act" where
  "module_settings L = zoom dm_settings dm_settings_update (get_settings L)"

definition outside :: "('w \<Rightarrow> 'a result \<times> 'w) \<Rightarrow> ('w db_module, 'a) act" where
  "outside f = zoom dm_settings dm_settings_update (zoom sm_world sm_world_update f)"

section \<open>The pool\<close>

text \<open>The pool is stored before it is opened.\<close>

definition make_and_open_connection_pool :: "'w settings_lib \<Rightarrow> 'w db_lib \<Rightarrow> ('w db_module, unit) act" where
  "make_and_open_connection_pool L D =
     bnd (module_settings L) (\<lambda>s.
     bnd (ret \<lparr>pool_conninfo = ls_db s, pool_max_size = 20, pool_timeout = 10\<rparr>) (\<lambda>p.
     seq (modify (\<lambda>m. m\<lparr>dm_pool := Some p\<rparr>))
     (outside (dl_open D p))))"

definition close_connection_pool :: "'w db_lib \<Rightarrow> ('w db_module, unit) act" where
  "close_connection_pool D =
     bnd (gets dm_pool) (\<lambda>p.
     case p of
       None \<Rightarrow> ret ()
     | Some p \<Rightarrow> seq (outside (dl_close D p)) (modify (\<lambda>m. m\<lparr>dm_pool := None\<rparr>)))"

definition get_connection_pool :: "('w db_module, conn_pool) act" where
  "get_connection_pool = bnd (gets dm_pool) (\<lambda>p. case p of None \<Rightarrow> raise RuntimeError | Some p \<Rightarrow> ret p)"

text \<open>A block with a connection: what psycopg does with the body on a connection of the pool is \<open>transact\<close>.\<close>

definition db_conn :: "(conn_pool \<Rightarrow> 'w \<Rightarrow> 'a result \<times> 'w) \<Rightarrow> ('w db_module, 'a) act" where
  "db_conn transact = bnd get_connection_pool (\<lambda>p. outside (transact p))"

section \<open>Migrations, start and end\<close>

definition migration_url :: "database_settings \<Rightarrow> string" where
  "migration_url db =
     ''postgresql+psycopg://'' @ db_user db @ '':'' @ db_password db @ ''@'' @ db_host db @ '':'' @ int_str (db_port db)
       @ ''/'' @ db_dbname db"

definition migrate_database :: "'w settings_lib \<Rightarrow> 'w db_lib \<Rightarrow> ('w db_module, unit) act" where
  "migrate_database L D =
     bnd (module_settings L) (\<lambda>s.
     bnd (ret (migration_url (ls_db s))) (\<lambda>conn_string.
     seq (outside (dl_get_backend D conn_string))
     (outside (dl_apply_migrations D conn_string ''migrations''))))"

text \<open>\<open>init_database\<close>, around what it does with the tables (\<open>Tinydb_Migration.init_database\<close>).\<close>

definition init_database_with :: "'w settings_lib \<Rightarrow> 'w db_lib \<Rightarrow> ('w db_module, unit) act \<Rightarrow> ('w db_module, unit) act" where
  "init_database_with L D imports =
     seq (migrate_database L D) (seq (make_and_open_connection_pool L D) imports)"

definition shutdown_database :: "'w db_lib \<Rightarrow> ('w db_module, unit) act" where
  "shutdown_database D = close_connection_pool D"

section \<open>Lemmas\<close>

lemma outside_apply:
  "outside f m = (case f (sm_world (dm_settings m)) of (r, w) \<Rightarrow> (r, m\<lparr>dm_settings := (dm_settings m)\<lparr>sm_world := w\<rparr>\<rparr>))"
  by (cases "f (sm_world (dm_settings m))") (simp add: outside_def zoom_def)

text \<open>Without a pool no block with a connection runs.\<close>

lemma no_pool_no_connection: "dm_pool m = None \<Longrightarrow> db_conn transact m = (Inl RuntimeError, m)"
  by (simp add: db_conn_def get_connection_pool_def act_simps)

lemma closed_after_shutdown:
  "shutdown_database D m = (Inr (), m') \<Longrightarrow> db_conn transact m' = (Inl RuntimeError, m')"
  by (auto simp: shutdown_database_def close_connection_pool_def act_simps outside_apply
      intro!: no_pool_no_connection split: option.splits prod.splits sum.splits)

text \<open>A failed opening leaves the pool that could not be opened, and closing it is tried at the end.\<close>

lemma failed_open_keeps_pool:
  assumes "make_and_open_connection_pool L D m = (Inl e, m')" and "fst (module_settings L m) = Inr s"
  shows "dm_pool m' = Some \<lparr>pool_conninfo = ls_db s, pool_max_size = 20, pool_timeout = 10\<rparr>"
  using assms
  by (cases "module_settings L m")
    (auto simp: make_and_open_connection_pool_def act_simps outside_apply split: prod.splits)

text \<open>
  The URL is put together without quoting, so it does not determine the settings: here the password
  \<open>a@b\<close> for the host \<open>c\<close> gives the URL of the password \<open>a\<close> for a host \<open>b@c\<close>.
\<close>

lemma migration_url_ambiguous:
  "migration_url \<lparr>db_host = ''c'', db_port = p, db_dbname = n, db_user = u, db_password = ''a@b''\<rparr>
   = migration_url \<lparr>db_host = ''b@c'', db_port = p, db_dbname = n, db_user = u, db_password = ''a''\<rparr>"
  by (simp add: migration_url_def)

end
