(* ===== verification/Spec2Isabelle.thy ===== *)
theory Spec2Isabelle
  imports System Interleaving Connection
begin

text \<open>
  A model of the Freeshard shard core, the Python service under \<open>src/shard_core\<close> that runs on a personal
  server (a shard), with the theorems that make it correct.

  \<^bold>\<open>The program.\<close>  A reverse proxy (Traefik) stands before the apps of a shard, which run as Docker
  compose projects.  The shard core writes the proxy's configuration, answers its questions whether a
  request may pass, installs, starts, pauses and removes the apps, pairs the owner's terminals, knows the
  shard's identities and the other shards (peers), talks to the controller that hosts the shard, and backs
  the shard up.  It keeps eight tables in PostgreSQL, some files and a few variables in memory; it is
  driven by HTTP requests and by background tasks.

  \<^bold>\<open>State and effects.\<close>  \<open>State.shard\<close> is a record of the tables (lists of rows, \<open>Database\<close>), of the variables
  of the modules (caches, queues, locks, counters), of the files (\<open>File_System\<close>), and of \<open>sh_env\<close>, the
  world outside.  An operation is an \<open>act\<close> (\<open>Prelude\<close>): a function from a state to a result and a state,
  where the result is a value or an exception (\<open>exn\<close>, one constructor per class that the code raises or
  catches); \<open>bnd\<close> and \<open>seq\<close> are sequencing, \<open>try_except\<close> and \<open>try_else\<close> are the two forms of a handler,
  \<open>gather\<close> is \<open>asyncio.gather\<close>.  A failure leaves the state as far as the code had come.  The libraries
  the code calls (clock, processes, HTTP, JWT, keys, templates, zip, YAML, random numbers) are fields of
  \<open>State.ext\<close>, functions of the world, and nothing is assumed of them; where a theorem needs a documented
  property of one of them (a JSON text is read back as what was written, a token decodes with its own
  secret), it is a hypothesis of the theorem, and its witness instantiates it.

  \<^bold>\<open>The theories\<close>, in the order they build on each other; the names of definitions are those of the
  functions they model, with a prefix where two modules use the same name (\<open>apps_\<close>, \<open>worker_\<close>, \<open>web_\<close>):

  \<^item> \<open>Prelude\<close>: exceptions, actions, the locale \<open>frame\<close>, strings.  \<open>Json\<close>: Python values, dictionaries.
  \<^item> \<open>Human_Encoding\<close>: \<open>service/human_encoding.py\<close>, the alphabet of ids.
  \<^item> \<open>App_Meta\<close>: \<open>data_model/app_meta.py\<close> and its migrations.  \<open>App_Zip\<close>: archives of apps.
    \<open>Compose_Command\<close>: \<open>util/subprocess.py\<close>.  \<open>File_System\<close>: the part of \<open>pathlib\<close> and \<open>shutil\<close> in use.
  \<^item> \<open>Database\<close>: \<open>database/*.py\<close>, every query.  \<open>State\<close>: the shard, the settings, the libraries.
  \<^item> \<open>Signals\<close>: the receivers of \<open>util/signals.py\<close> and the message queue of \<open>service/websocket.py\<close>.
  \<^item> \<open>Identity\<close>, \<open>Controller\<close>, \<open>Pairing\<close>, \<open>Peers\<close>: the services of these names and their endpoints.
  \<^item> \<open>App_Tools\<close>, \<open>App_Lifecycle\<close>: containers and their periodic control, with memory pressure.
  \<^item> \<open>Auth\<close>: \<open>web/internal/auth.py\<close>.  \<open>Traefik\<close>: the proxy's configuration.
  \<^item> \<open>Install_Util\<close>, \<open>Worker\<close>, \<open>Installation\<close>: \<open>service/app_installation\<close> and the endpoints of apps.
  \<^item> \<open>Db_Snapshot\<close>, \<open>Tinydb_Migration\<close>: dump and restore of the database, import of the old one.
  \<^item> \<open>Backup\<close>: \<open>service/backup.py\<close> and the passphrase.  \<open>Reporting\<close>: telemetry, usage, disk.
  \<^item> \<open>Background\<close>: \<open>util/async_util.py\<close> and the loops of the websocket worker.
  \<^item> \<open>Assets\<close>, \<open>Lru_Cache\<close>, \<open>Web_Internal\<close>, \<open>Web_Endpoints\<close>: avatars, calls of apps, the error page, tours.
  \<^item> \<open>Operations\<close>: what operations can do to the tables.  \<open>Startup\<close>: \<open>app_factory.py\<close>.
  \<^item> \<open>System\<close>: the whole shard as a transition system, one step per request, round or restart.
  \<^item> \<open>Settings_Load\<close>: where the settings of \<open>State.settings\<close> come from.  \<open>Connection\<close>: the pool, the
    migrations, the start and end of the database.
  \<^item> \<open>Interleaving\<close>: coroutines and pools of them that run interleaved; pairing and installation again,
    one part per await.

  \<^bold>\<open>Interfaces.\<close>  \<open>keyed_table\<close> states what the services need of a table with a primary key, \<open>keyed_map\<close> of
  a dictionary, \<open>bit_table\<close> of an alphabet, \<open>cached\<close> of a place that keeps results; each is interpreted on
  the code's own tables, dictionaries, alphabet and caches.  \<open>frame\<close> is the interface of a relation between
  the state before and after: reflexive and transitive.  Its lemmas carry a relation through sequencing,
  handlers and loops, and it is interpreted on \<open>keeps f\<close> (a part of the state does not change),
  \<open>preserves P\<close> (an invariant), \<open>appended\<close> (tables only grow), \<open>confined\<close> (only files of a directory change),
  \<open>scoped\<close> (only one app changes) and \<open>runs_only\<close> (only certain commands run).  \<open>background_ops\<close>,
  \<open>client_ops\<close> and \<open>system_ops\<close> extend it one after the other with one law per writing query: those of
  background work, those of all requests but pairing, and the insertion of a terminal.  From these laws
  every background task, every request handler and every step of \<open>system_step\<close> moves along the relation.
  They are interpreted on \<open>keeps\<close> (what background work leaves alone), on \<open>no_new_terminal\<close>, and on
  \<open>preserves sound\<close>, \<open>keeps_secret\<close> and \<open>keeps_keys\<close>.

  \<^bold>\<open>What is shown.\<close>  For the whole system: keys stay unique and there is exactly one default identity in
  every state it reaches; a terminal can only come from a pairing with a stored, unexpired code, and its
  token stays valid exactly until the terminal is removed; an identity keeps its key forever.  For the
  proxy: who may pass is decided as the metadata of the app says, the longest path counts, and the
  configuration has one HTTP router per app with an HTTP endpoint, which authenticates like all HTTP
  routers but the two meant to be open, and one TCP router per app with an MQTT endpoint, which has no
  authentication at all.  For installation: whatever requests, container operations, worker rounds and
  restarts come, a queued app has its task, except after a request that raised between setting the status
  and queueing the task, and for installations and reinstallations that a restart finds waiting; the
  worker runs the queued tasks in order, each once, whatever they raise; an uninstallation that returns
  leaves of the app only files the operating system refuses to delete, and nothing of other apps is
  touched.  For containers and lifecycle: an operation touches one app only, statuses take only the steps
  of the lifecycle, the periodic control implements the policy of pause and stop.  For peers: a request is
  taken for a peer only after its signature was checked with the key of a peer that shares the first six
  characters of the id, which is the peer itself where no two share them.  Under interleaving: a code is
  accepted only if it was the stored one and not expired, though possibly more than once; requests to
  install one app give one row and one task.  For data: encoding, snapshots and avatars come back as they
  were, the import of an old database happens once, archives stay below their directory, a local
  configuration file with one field, at any depth, changes this field of the settings and no other.  For
  background work: scheduled functions are called once per round and not before their time, messages keep
  their order, every backup is announced.  The theorems also state what the code does where it does not do
  what it seems to mean (a paused app is removed while it is frozen, a null name makes the default
  identity unreadable, a call to another shard can go out in the name of a former holder of the caller's
  address).

  \<^bold>\<open>Bounds.\<close>  Python's integers are unbounded and are \<open>int\<close> or \<open>nat\<close>; bytes are \<open>8 word\<close>; times are \<open>real\<close>
  (seconds).  The loops that never end (the worker, the periodic and cron tasks, heartbeats, the sender
  of messages) are functions of a number of rounds \<open>n\<close>, and the theorems hold for every \<open>n\<close>; there is no
  other fuel, all other recursion ends.  A step of the system is atomic.  Where the code awaits in the
  middle of an operation and the order of other work matters, the operation is split into its parts
  (a backup is checked, submitted, begun and ended; a terminal is edited and announced before the commit;
  telemetry is prepared, sent and reset).  A task that finds the lock of an app taken waits in the code; in
  the model it raises \<open>LockHeld\<close>, which stands for that wait, and which no run of whole operations meets:
  \<open>no_queued_app_forgotten\<close> shows that no lock is held between two steps.
  Pairing, the secret of the tokens and the installation from the store are also given as coroutines
  (\<open>Interleaving\<close>), shown to be the same operations when they run alone, and studied under every order
  of their parts; interleavings inside the other operations are not modelled.  Decoding a token does not look at the clock:
  tokens have no expiry, and the library's refusal of a token issued in the future, after the clock was set
  back, cannot be expressed.  The naive local times that the usage report compares with the database's
  are seconds of UTC here, as on a server that runs in UTC.  Enumerated columns hold values of the
  enumerations: an unknown text is refused on insertion, where the database would store it and the
  first reading would fail.  Renaming a file fails only when the target is a directory.

  \<^bold>\<open>Not modelled.\<close> The pool of psycopg, its transactions and yoyo's migrations are
  parameters of \<open>Connection\<close>; the effect of a transaction and the schema's keys, types and
  defaults are part of \<open>Database\<close> and \<open>Db_Snapshot\<close>. Paths, methods and the decoding
  of parameters are FastAPI's, the validation of types is pydantic's: a handler receives values of the
  declared types. Of \<open>data_model/traefik_dyn_config.py\<close>, generated from a schema, the classes the
  compiler fills are records of \<open>Traefik\<close>; the models under \<open>data_model/backend\<close> are
  the controller's, and only those the shard reads or sends are records here. Reading TOML and the
  environment, merging the sources and converting single values are pydantic-settings, parameters of
  \<open>Settings_Load\<close>. The algorithms behind \<open>service/crypto.py\<close> are those of its
  library. Logging, and \<open>service/migration.py\<close>, which only logs, have no effect in the model.
\<close>

end
